(* ===== verification/Prelude.thy ===== *)
theory Prelude
  imports Complex_Main
begin

text \<open>
  Shared vocabulary of the development.  The Python code raises exceptions from
  PyTorch (shape mismatches, tuple unpacking, backward through a freed graph,
  missing files or keys); every such raise is an \<open>Inl\<close> value of the type
  \<open>error\<close> below, and a computation that may raise returns \<open>error + 'a\<close>.
  \<open>bindE\<close> sequences two such computations as Python does (the first raise
  aborts), and \<open>mapE\<close> runs a fallible function over a list, stopping at the
  first error.  The theory also holds the collection \<open>shape_simps\<close> of
  shape lemmas that the component proofs share.
\<close>

named_theorems shape_simps "lemmas about the shapes of tensors"

datatype error =
    ShapeMismatch        \<comment> \<open>broadcasting or concatenation on incompatible sizes\<close>
  | EmptyCat             \<comment> \<open>\<open>torch.cat\<close> of an empty tuple\<close>
  | UnpackError nat      \<comment> \<open>\<open>a, b = xs\<close> with \<open>len(xs) \<noteq> 2\<close>\<close>
  | BackwardFreed        \<comment> \<open>backward through a graph whose buffers were freed\<close>
  | CropTooLarge         \<comment> \<open>\<open>RandomCrop\<close> larger than the image\<close>
  | FileNotFound         \<comment> \<open>\<open>torch.load\<close> of a missing path, \<open>ImageFolder\<close> on a missing or empty root\<close>
  | StateDictMismatch    \<comment> \<open>\<open>load_state_dict\<close> with missing, unexpected or resized keys\<close>
  | ZeroStd              \<comment> \<open>\<open>Normalize\<close> with a zero standard deviation\<close>
  | IndexOutOfRange      \<comment> \<open>\<open>dataset[i]\<close> past the end\<close>
  | CollateTypeError     \<comment> \<open>\<open>default_collate\<close> of images that are not tensors\<close>
  | LoaderValueError     \<comment> \<open>\<open>DataLoader\<close> over an empty dataset or with a batch size of 0\<close>

definition bindE :: "error + 'a \<Rightarrow> ('a \<Rightarrow> error + 'b) \<Rightarrow> error + 'b" where
  "bindE m f = (case m of Inl e \<Rightarrow> Inl e | Inr a \<Rightarrow> f a)"

fun mapE :: "('a \<Rightarrow> error + 'b) \<Rightarrow> 'a list \<Rightarrow> error + 'b list" where
  "mapE f [] = Inr []"
| "mapE f (x # xs) = bindE (f x) (\<lambda>y. bindE (mapE f xs) (\<lambda>ys. Inr (y # ys)))"

text \<open>Chunking a list into pieces of \<open>k\<close> elements, the last one shorter:
  the common behaviour of \<open>torch.split\<close> along dimension 0 and of the
  batches a \<open>DataLoader\<close> yields.\<close>

fun chunks :: "nat \<Rightarrow> 'a list \<Rightarrow> 'a list list" where
  "chunks k xs = (if xs = [] \<or> k = 0 then [] else take k xs # chunks k (drop k xs))"

lemma bindE_Inl [simp]: "bindE (Inl e) f = Inl e"
  by (simp add: bindE_def)

lemma bindE_Inr [simp]: "bindE (Inr a) f = f a"
  by (simp add: bindE_def)

lemma bindE_eq_Inr:
  "bindE m f = Inr b \<longleftrightarrow> (\<exists>a. m = Inr a \<and> f a = Inr b)"
  by (cases m) simp_all

lemma bindE_eq_Inl:
  "bindE m f = Inl e \<longleftrightarrow> m = Inl e \<or> (\<exists>a. m = Inr a \<and> f a = Inl e)"
  by (cases m) simp_all

lemma mapE_Inr_iff:
  "mapE f xs = Inr ys \<longleftrightarrow> list_all2 (\<lambda>x y. f x = Inr y) xs ys"
proof (induction xs arbitrary: ys)
  case Nil
  then show ?case by auto
next
  case (Cons x xs)
  then show ?case
    by (cases ys) (auto simp: bindE_eq_Inr)
qed

lemma mapE_Inr_map [simp]: "mapE (\<lambda>x. Inr (g x)) xs = Inr (map g xs)"
  by (induction xs) simp_all

lemma mapE_cong_Inr:
  "(\<And>x. x \<in> set xs \<Longrightarrow> f x = Inr (g x)) \<Longrightarrow> mapE f xs = Inr (map g xs)"
  by (induction xs) simp_all

lemma mapE_length: "mapE f xs = Inr ys \<Longrightarrow> length ys = length xs"
  by (auto simp: mapE_Inr_iff dest: list_all2_lengthD)

declare chunks.simps [simp del]

lemma chunks_unfold: "chunks k xs = (if xs = [] \<or> k = 0 then [] else take k xs # chunks k (drop k xs))"
  by (rule chunks.simps)

lemma chunks_Nil [simp]: "chunks k [] = []"
  by (simp add: chunks_unfold [of k "[]"])

lemma chunks_Cons_ne:
  "xs \<noteq> [] \<Longrightarrow> 0 < k \<Longrightarrow> chunks k xs = take k xs # chunks k (drop k xs)"
  by (simp add: chunks_unfold [of k xs])

lemma concat_chunks: "0 < k \<Longrightarrow> concat (chunks k xs) = xs"
proof (induction k xs rule: chunks.induct)
  case (1 k xs)
  then show ?case by (cases "xs = []") (simp_all add: chunks_unfold [of k xs])
qed

lemma ceil_div_step:
  assumes "0 < k" "0 < n"
  shows "(n + k - 1) div k = Suc ((n - k + k - 1) div k)"
proof -
  have e: "n + k - 1 = (n - 1) + k" using assms by simp
  have d: "((n - 1) + k) div k = (n - 1) div k + 1"
    using assms(1) by (intro div_add_self2) simp
  have "(n + k - 1) div k = Suc ((n - 1) div k)"
    unfolding e d by simp
  moreover have "(n - k + k - 1) div k = (n - 1) div k"
  proof (cases "n \<le> k")
    case True
    then show ?thesis using assms by simp
  next
    case False
    then show ?thesis by simp
  qed
  ultimately show ?thesis by simp
qed

lemma length_chunks: "0 < k \<Longrightarrow> length (chunks k xs) = (length xs + k - 1) div k"
proof (induction k xs rule: chunks.induct)
  case (1 k xs)
  show ?case
  proof (cases "xs = []")
    case True
    with "1.prems" show ?thesis by simp
  next
    case False
    with "1.IH" "1.prems" have "length (chunks k (drop k xs)) = (length xs - k + k - 1) div k"
      by simp
    moreover have "(length xs + k - 1) div k = Suc ((length xs - k + k - 1) div k)"
      using "1.prems" False by (intro ceil_div_step) simp_all
    ultimately show ?thesis using False "1.prems"
      by (simp add: chunks_unfold [of k xs])
  qed
qed

lemma chunks_nonempty: "ys \<in> set (chunks k xs) \<Longrightarrow> ys \<noteq> []"
proof (induction k xs rule: chunks.induct)
  case (1 k xs)
  then show ?case by (cases "xs = [] \<or> k = 0") (auto simp: chunks_unfold [of k xs])
qed

lemma chunks_length_le: "ys \<in> set (chunks k xs) \<Longrightarrow> length ys \<le> k"
proof (induction k xs rule: chunks.induct)
  case (1 k xs)
  then show ?case by (cases "xs = [] \<or> k = 0") (auto simp: chunks_unfold [of k xs])
qed

lemma chunks_dvd_all_full:
  "k dvd length xs \<Longrightarrow> ys \<in> set (chunks k xs) \<Longrightarrow> length ys = k"
proof (induction k xs rule: chunks.induct)
  case (1 k xs)
  show ?case
  proof (cases "xs = [] \<or> k = 0")
    case True
    with "1.prems" show ?thesis by (auto simp: chunks_unfold [of k xs])
  next
    case False
    then have le: "k \<le> length xs" using "1.prems"(1) by (auto dest: dvd_imp_le)
    then have "k dvd length (drop k xs)" using "1.prems"(1)
      by (simp add: dvd_diff_nat)
    with le "1.IH" "1.prems"(2) False show ?thesis
      by (auto simp: chunks_unfold [of k xs])
  qed
qed

lemma chunks_append_full:
  assumes "length xs = k" "0 < k"
  shows "chunks k (xs @ ys) = xs # chunks k ys"
proof -
  have "xs @ ys \<noteq> []" using assms by auto
  then show ?thesis using assms by (simp add: chunks_unfold [of k "xs @ ys"])
qed


lemma chunks_subset: "ys \<in> set (chunks k xs) \<Longrightarrow> set ys \<subseteq> set xs"
proof (induction k xs rule: chunks.induct)
  case (1 k xs)
  then show ?case
    by (cases "xs = [] \<or> k = 0") (auto simp: chunks_unfold [of k xs] dest: in_set_takeD in_set_dropD)
qed

lemma chunks_append_mult:
  "length xs = k * m \<Longrightarrow> 0 < k \<Longrightarrow> chunks k (xs @ ys) = chunks k xs @ chunks k ys"
proof (induction m arbitrary: xs)
  case 0
  then show ?case by simp
next
  case (Suc m)
  then have len: "k \<le> length xs" "length (drop k xs) = k * m" "xs @ ys \<noteq> []" "xs \<noteq> []"
    by auto
  have "chunks k (xs @ ys) = take k xs # chunks k (drop k xs @ ys)"
    using chunks_Cons_ne [OF len(3) Suc.prems(2)] len(1) by simp
  moreover have "chunks k xs = take k xs # chunks k (drop k xs)"
    using chunks_Cons_ne [OF len(4) Suc.prems(2)] .
  ultimately show ?case using Suc.IH [OF len(2) Suc.prems(2)] by simp
qed

lemma chunks_short: "0 < length xs \<Longrightarrow> length xs \<le> k \<Longrightarrow> chunks k xs = [xs]"
  by (cases "k = 0") (simp_all add: chunks_unfold [of k xs])

lemma ceil_div_dvd:
  fixes k n :: nat
  assumes k: "0 < k" and d: "k dvd n"
  shows "(n + k - 1) div k = n div k"
proof -
  from d obtain m where n: "n = k * m" by (auto elim: dvdE)
  have e: "n + k - 1 = (k - 1) + m * k" using k n by (simp add: algebra_simps)
  have "((k - 1) + m * k) div k = m + (k - 1) div k" using k by (intro div_mult_self1) simp
  then have "(n + k - 1) div k = m + (k - 1) div k" by (simp only: e)
  also have "(k - 1) div k = 0" using k by simp
  finally show ?thesis using k n by simp
qed

lemma chunks_concat:
  "0 < k \<Longrightarrow> list_all (\<lambda>r. length r = k) rows \<Longrightarrow> chunks k (concat rows) = rows"
proof (induction rows)
  case Nil
  then show ?case by simp
next
  case (Cons r rows)
  then have "r @ concat rows \<noteq> []" by auto
  with Cons show ?case by (simp add: chunks_unfold [of k "r @ concat rows"])
qed

end
