(* ===== verification/Tensor.thy ===== *)
theory Tensor
  imports Prelude
begin

text \<open>
  The PyTorch tensor operations that \<open>src/gan.py\<close> applies to image batches.
  A batch is a rank-3 nested list: samples (dimension 0), channels
  (dimension 1), and the \<open>H \<times> W\<close> pixels of one channel flattened row by row
  into a \<open>plane\<close>.  Pixel values are reals (the float32 rounding of PyTorch is
  not modelled).  Elementwise arithmetic follows PyTorch broadcasting
  (\<open>bcast\<close>: two sizes agree, or one of them is 1, otherwise a
  \<open>ShapeMismatch\<close> is raised), \<open>torch.cat\<close> checks the sizes of the other
  dimensions, and \<open>torch.split\<close> is \<open>chunks\<close> of the prelude.  The predicate
  \<open>shaped n c p t\<close> says that \<open>t\<close> has shape \<open>(n, c, p)\<close>; the lemmas give
  the result of each operation on shaped arguments and when it raises.
\<close>

type_synonym plane = "real list"
type_synonym sample = "plane list"
type_synonym tensor = "sample list"

definition shaped :: "nat \<Rightarrow> nat \<Rightarrow> nat \<Rightarrow> tensor \<Rightarrow> bool" where
  "shaped n c p t \<longleftrightarrow>
     length t = n \<and> list_all (\<lambda>s. length s = c \<and> list_all (\<lambda>q. length q = p) s) t"

subsection \<open>Broadcasting elementwise arithmetic\<close>

definition bcast :: "('a \<Rightarrow> 'b \<Rightarrow> error + 'c) \<Rightarrow> 'a list \<Rightarrow> 'b list \<Rightarrow> error + 'c list" where
  "bcast f xs ys =
     (if length xs = length ys then mapE (\<lambda>(x, y). f x y) (zip xs ys)
      else if length xs = 1 then mapE (f (hd xs)) ys
      else if length ys = 1 then mapE (\<lambda>x. f x (hd ys)) xs
      else Inl ShapeMismatch)"

definition ew_plane :: "(real \<Rightarrow> real \<Rightarrow> real) \<Rightarrow> plane \<Rightarrow> plane \<Rightarrow> error + plane" where
  "ew_plane op = bcast (\<lambda>a b. Inr (op a b))"

definition ew_sample :: "(real \<Rightarrow> real \<Rightarrow> real) \<Rightarrow> sample \<Rightarrow> sample \<Rightarrow> error + sample" where
  "ew_sample op = bcast (ew_plane op)"

definition ew :: "(real \<Rightarrow> real \<Rightarrow> real) \<Rightarrow> tensor \<Rightarrow> tensor \<Rightarrow> error + tensor" where
  "ew op = bcast (ew_sample op)"

text \<open>\<open>a * b\<close>, \<open>a + b\<close>, \<open>a - b\<close> on tensors.\<close>

definition t_mul :: "tensor \<Rightarrow> tensor \<Rightarrow> error + tensor" where
  "t_mul = ew (*)"

definition t_add :: "tensor \<Rightarrow> tensor \<Rightarrow> error + tensor" where
  "t_add = ew (+)"

definition t_sub :: "tensor \<Rightarrow> tensor \<Rightarrow> error + tensor" where
  "t_sub = ew (-)"

definition tmap :: "(real \<Rightarrow> real) \<Rightarrow> tensor \<Rightarrow> tensor" where
  "tmap f t = map (map (map f)) t"

text \<open>\<open>torch.tensor(c) - t\<close>: a 0-dimensional tensor broadcasts against anything.\<close>

definition rsub :: "real \<Rightarrow> tensor \<Rightarrow> tensor" where
  "rsub c t = tmap (\<lambda>x. c - x) t"

text \<open>\<open>torch.abs\<close> and \<open>torch.mean\<close> over all elements.\<close>

definition t_abs :: "tensor \<Rightarrow> tensor" where
  "t_abs t = tmap abs t"

definition mean :: "real list \<Rightarrow> real" where
  "mean xs = sum_list xs / real (length xs)"

definition t_mean :: "tensor \<Rightarrow> real" where
  "t_mean t = mean (concat (concat t))"

subsection \<open>Concatenation\<close>

definition same_sample_shape :: "tensor \<Rightarrow> bool" where
  "same_sample_shape t \<longleftrightarrow> list_all (\<lambda>s. map length s = map length (hd t)) t"

text \<open>\<open>torch.cat(ts, dim=0)\<close>; the empty tuple raises.\<close>

definition cat_many0 :: "tensor list \<Rightarrow> error + tensor" where
  "cat_many0 ts =
     (if ts = [] then Inl EmptyCat
      else if same_sample_shape (concat ts) then Inr (concat ts)
      else Inl ShapeMismatch)"

definition cat0 :: "tensor \<Rightarrow> tensor \<Rightarrow> error + tensor" where
  "cat0 a b = cat_many0 [a, b]"

text \<open>\<open>torch.cat((a, b), dim=1)\<close>: the batch sizes and the plane sizes must agree.\<close>

definition cat1 :: "tensor \<Rightarrow> tensor \<Rightarrow> error + tensor" where
  "cat1 a b =
     (let ps = concat a @ concat b in
      if length a = length b \<and> list_all (\<lambda>q. length q = length (hd ps)) ps
      then Inr (map2 (@) a b) else Inl ShapeMismatch)"

text \<open>Tuple unpacking \<open>x, y = xs\<close>.\<close>

definition unpack2 :: "'a list \<Rightarrow> error + 'a \<times> 'a" where
  "unpack2 xs = (case xs of [x, y] \<Rightarrow> Inr (x, y) | _ \<Rightarrow> Inl (UnpackError (length xs)))"


subsection \<open>Results and errors of the operations on shaped tensors\<close>

lemma bcast_same:
  "length xs = length ys \<Longrightarrow> (\<And>x y. (x, y) \<in> set (zip xs ys) \<Longrightarrow> f x y = Inr (g x y)) \<Longrightarrow>
   bcast f xs ys = Inr (map2 g xs ys)"
  unfolding bcast_def by (auto intro!: mapE_cong_Inr)

lemma bcast_right1:
  "ys = [y] \<Longrightarrow> (\<And>x. x \<in> set xs \<Longrightarrow> f x y = Inr (g x)) \<Longrightarrow> bcast f xs ys = Inr (map g xs)"
proof -
  assume ys: "ys = [y]" and f: "\<And>x. x \<in> set xs \<Longrightarrow> f x y = Inr (g x)"
  have m: "mapE (\<lambda>x. f x y) xs = Inr (map g xs)" using f by (rule mapE_cong_Inr)
  show ?thesis
  proof (cases "length xs = 1")
    case True
    then obtain x where "xs = [x]" by (cases xs) auto
    with ys f show ?thesis by (simp add: bcast_def)
  next
    case False
    with ys m show ?thesis by (simp add: bcast_def)
  qed
qed

lemma bcast_mismatch:
  "length xs \<noteq> length ys \<Longrightarrow> length xs \<noteq> 1 \<Longrightarrow> length ys \<noteq> 1 \<Longrightarrow> bcast f xs ys = Inl ShapeMismatch"
  by (simp add: bcast_def)

lemma ew_plane_same: "length p = length q \<Longrightarrow> ew_plane op p q = Inr (map2 op p q)"
  unfolding ew_plane_def by (rule bcast_same) auto

lemma ew_sample_mask:
  "list_all (\<lambda>q. length q = length mp) s \<Longrightarrow> ew_sample op s [mp] = Inr (map (\<lambda>q. map2 op q mp) s)"
  unfolding ew_sample_def
  by (rule bcast_right1) (auto simp: ew_plane_same list_all_iff)

lemma ew_mask:
  "shaped n c p t \<Longrightarrow> length mp = p \<Longrightarrow> ew op t [[mp]] = Inr (map (map (\<lambda>q. map2 op q mp)) t)"
  unfolding ew_def shaped_def
  by (rule bcast_right1) (auto simp: ew_sample_mask list_all_iff)

lemma ew_sample_same:
  assumes "length s = length s'" "list_all (\<lambda>q. length q = p) s" "list_all (\<lambda>q. length q = p) s'"
  shows "ew_sample op s s' = Inr (map2 (map2 op) s s')"
  unfolding ew_sample_def
proof (rule bcast_same)
  fix x y assume "(x, y) \<in> set (zip s s')"
  then have "x \<in> set s" "y \<in> set s'" by (auto dest: set_zip_leftD set_zip_rightD)
  with assms show "ew_plane op x y = Inr (map2 op x y)" by (simp add: ew_plane_same list_all_iff)
qed fact

lemma ew_same:
  assumes "shaped n c p a" "shaped n c p b"
  shows "ew op a b = Inr (map2 (map2 (map2 op)) a b)"
  unfolding ew_def
proof (rule bcast_same)
  fix x y assume "(x, y) \<in> set (zip a b)"
  then have "x \<in> set a" "y \<in> set b" by (auto dest: set_zip_leftD set_zip_rightD)
  with assms show "ew_sample op x y = Inr (map2 (map2 op) x y)"
    by (intro ew_sample_same [where p = p]) (auto simp: shaped_def list_all_iff)
qed (use assms in \<open>simp add: shaped_def\<close>)

lemma ew_batch_mismatch:
  "length a \<noteq> length b \<Longrightarrow> length a \<noteq> 1 \<Longrightarrow> length b \<noteq> 1 \<Longrightarrow> ew op a b = Inl ShapeMismatch"
  unfolding ew_def by (rule bcast_mismatch)


lemma shaped_mask_iff: "shaped 1 1 p m \<longleftrightarrow> (\<exists>mp. m = [[mp]] \<and> length mp = p)"
proof
  assume "shaped 1 1 p m"
  then obtain s where "m = [s]" "length s = 1" "list_all (\<lambda>q. length q = p) s"
    by (auto simp: shaped_def length_Suc_conv)
  then show "\<exists>mp. m = [[mp]] \<and> length mp = p"
    by (auto simp: length_Suc_conv)
qed (auto simp: shaped_def)

lemma shaped_tmap [shape_simps]: "shaped n c p (tmap f t) = shaped n c p t"
  by (simp add: shaped_def tmap_def list_all_iff)

lemma shaped_zip3 [shape_simps]:
  "shaped n c p a \<Longrightarrow> shaped n c p b \<Longrightarrow> shaped n c p (map2 (map2 (map2 op)) a b)"
  by (auto simp: shaped_def list_all_length)

lemma planes_map_length: "(\<forall>q\<in>set s. length q = p) \<Longrightarrow> map length s = replicate (length s) p"
  by (induction s) auto

lemma planes_same_length: "list_all (\<lambda>q. length q = p) ps \<Longrightarrow> list_all (\<lambda>q. length q = length (hd ps)) ps"
  by (cases ps) auto

lemma shaped_mask_op [shape_simps]:
  "shaped n c p t \<Longrightarrow> length mp = p \<Longrightarrow> shaped n c p (map (map (\<lambda>q. map2 op q mp)) t)"
  by (auto simp: shaped_def list_all_iff)

lemma shaped_same_sample_shape:
  assumes sh: "shaped n c p t"
  shows "same_sample_shape t"
proof -
  have all: "map length s = replicate c p" if "s \<in> set t" for s
  proof -
    from sh that have "length s = c" "\<forall>q\<in>set s. length q = p"
      by (auto simp: shaped_def list_all_iff)
    then show ?thesis using planes_map_length by metis
  qed
  show ?thesis
    by (cases t) (auto simp: same_sample_shape_def list_all_iff all)
qed

lemma cat_many0_replicate:
  "0 < k \<Longrightarrow> same_sample_shape t \<Longrightarrow> cat_many0 (replicate k t) = Inr (concat (replicate k t))"
  by (cases t; cases k) (auto simp: cat_many0_def same_sample_shape_def list_all_iff)

lemma shaped_concat_replicate [shape_simps]:
  "shaped n c p t \<Longrightarrow> shaped (k * n) c p (concat (replicate k t))"
  by (induction k) (auto simp: shaped_def)

lemma shaped_append [shape_simps]:
  "shaped n c p a \<Longrightarrow> shaped n' c p b \<Longrightarrow> shaped (n + n') c p (a @ b)"
  by (simp add: shaped_def)

lemma cat0_shaped:
  "shaped n c p a \<Longrightarrow> shaped n' c p b \<Longrightarrow> cat0 a b = Inr (a @ b)"
proof -
  assume "shaped n c p a" "shaped n' c p b"
  then have "shaped (n + n') c p (a @ b)" by (rule shaped_append)
  then show ?thesis by (simp add: cat0_def cat_many0_def shaped_same_sample_shape)
qed

lemma cat1_shaped:
  assumes "shaped n c p a" "shaped n' c' p b"
  shows "cat1 a b = (if n = n' then Inr (map2 (@) a b) else Inl ShapeMismatch)"
proof -
  have "list_all (\<lambda>q. length q = p) (concat a @ concat b)"
    using assms by (auto simp: shaped_def list_all_iff)
  then have "list_all (\<lambda>q. length q = length (hd (concat a @ concat b))) (concat a @ concat b)"
    by (rule planes_same_length)
  with assms show ?thesis by (auto simp: cat1_def shaped_def Let_def)
qed

lemma shaped_cat1 [shape_simps]:
  "shaped n c p a \<Longrightarrow> shaped n c' p b \<Longrightarrow> shaped n (c + c') p (map2 (@) a b)"
  by (auto simp: shaped_def list_all_length nth_append)

lemma unpack2_two [simp]: "unpack2 [x, y] = Inr (x, y)"
  by (simp add: unpack2_def)

lemma split_cat_roundtrip:
  "length xs = k \<Longrightarrow> length ys = k \<Longrightarrow> 0 < k \<Longrightarrow> unpack2 (chunks k (xs @ ys)) = Inr (xs, ys)"
proof -
  assume a: "length xs = k" "length ys = k" "0 < k"
  then have "chunks k ys = ys # chunks k []" using chunks_append_full [of ys k "[]"] by simp
  with a show ?thesis by (simp add: chunks_append_full)
qed



lemma shaped_eqI:
  assumes "shaped n c p a" "shaped n c p b"
    and "\<And>k ch j. k < n \<Longrightarrow> ch < c \<Longrightarrow> j < p \<Longrightarrow> a ! k ! ch ! j = b ! k ! ch ! j"
  shows "a = b"
proof (rule nth_equalityI)
  show "length a = length b" using assms(1,2) by (simp add: shaped_def)
next
  fix k assume k: "k < length a"
  show "a ! k = b ! k"
  proof (rule nth_equalityI)
    show "length (a ! k) = length (b ! k)"
      using assms(1,2) k by (simp add: shaped_def list_all_length)
  next
    fix ch assume ch: "ch < length (a ! k)"
    show "a ! k ! ch = b ! k ! ch"
    proof (rule nth_equalityI)
      show "length (a ! k ! ch) = length (b ! k ! ch)"
        using assms(1,2) k ch by (simp add: shaped_def list_all_length)
    next
      fix j assume "j < length (a ! k ! ch)"
      then show "a ! k ! ch ! j = b ! k ! ch ! j"
        using assms k ch by (auto simp: shaped_def list_all_length)
    qed
  qed
qed

lemma zip3_nth:
  "shaped n c p a \<Longrightarrow> shaped n c p b \<Longrightarrow> k < n \<Longrightarrow> ch < c \<Longrightarrow> j < p \<Longrightarrow>
   map2 (map2 (map2 op)) a b ! k ! ch ! j = op (a ! k ! ch ! j) (b ! k ! ch ! j)"
  by (simp add: shaped_def list_all_length)

end
