(* ===== verification/Masking.thy ===== *)
theory Masking
  imports Tensor
begin

text \<open>
  Masking and compositing in \<open>src/gan.py\<close>: the choice between the regular
  (bounding-box) and the irregular (brush-stroke) mask (line 52), the
  incomplete batch \<open>batch_real * (1 - msk)\<close> fed to the generator (line 53),
  the composite \<open>batch_predicted * msk + batch_incomplete * (1 - msk)\<close>
  shown to the discriminator (line 60), and \<open>GAN.inpaint_image\<close> (lines
  94--97).  A mask has shape \<open>(1, 1, p)\<close>, that is \<open>[[mp]]\<close>, and is
  broadcast over the batch and the channels; 1 marks a pixel to fill.  The
  generator is a parameter: \<open>gen w x m\<close> is the forward pass of a generator
  with weights \<open>w\<close>, returning the coarse output, the refined output and the
  offset flow, as \<open>x1, x2, _ = self.gen(xin, msk)\<close>.
\<close>

type_synonym 'w generator = "'w \<Rightarrow> tensor \<Rightarrow> tensor \<Rightarrow> tensor \<times> tensor \<times> tensor"

datatype mask_choice = Regular | Irregular

definition select_mask :: "mask_choice \<Rightarrow> tensor \<Rightarrow> tensor \<Rightarrow> tensor" where
  "select_mask ch regular_mask irregular_mask =
     (case ch of Regular \<Rightarrow> regular_mask | Irregular \<Rightarrow> irregular_mask)"

definition incomplete :: "tensor \<Rightarrow> tensor \<Rightarrow> error + tensor" where
  "incomplete batch_real msk = t_mul batch_real (rsub 1 msk)"

definition composite :: "tensor \<Rightarrow> tensor \<Rightarrow> tensor \<Rightarrow> error + tensor" where
  "composite batch_predicted batch_incomplete msk =
     bindE (t_mul batch_predicted msk) (\<lambda>a.
     bindE (t_mul batch_incomplete (rsub 1 msk)) (\<lambda>b.
     t_add a b))"

definition inpaint_image :: "'w generator \<Rightarrow> 'w \<Rightarrow> tensor \<Rightarrow> tensor \<Rightarrow> error + tensor" where
  "inpaint_image gen w img msk =
     bindE (t_mul img (rsub 1 msk)) (\<lambda>image_incomplete.
       (case gen w image_incomplete msk of (_, prediction, _) \<Rightarrow> Inr prediction))"

definition binary_mask :: "tensor \<Rightarrow> bool" where
  "binary_mask m \<longleftrightarrow> list_all (list_all (list_all (\<lambda>x. x = 0 \<or> x = 1))) m"

text \<open>Scaling every plane of a batch pixelwise by \<open>g\<close> of the mask: the
  closed form of multiplying by a broadcast mask.\<close>

definition scale_by :: "(real \<Rightarrow> real) \<Rightarrow> plane \<Rightarrow> tensor \<Rightarrow> tensor" where
  "scale_by g mp t = map (map (\<lambda>q. map2 (\<lambda>x m. x * g m) q mp)) t"

subsection \<open>Closed forms\<close>

lemma rsub_mask [simp]: "rsub c [[mp]] = [[map (\<lambda>x. c - x) mp]]"
  by (simp add: rsub_def tmap_def)

lemma shaped_scale_by [shape_simps]:
  "shaped n c p t \<Longrightarrow> length mp = p \<Longrightarrow> shaped n c p (scale_by g mp t)"
  by (auto simp: scale_by_def shaped_def list_all_iff)

lemma mul_mask_eq:
  "shaped n c p t \<Longrightarrow> length mp = p \<Longrightarrow> t_mul t [[map g mp]] = Inr (scale_by g mp t)"
  by (simp add: t_mul_def ew_mask scale_by_def zip_map2 map_zip_map2 case_prod_beta)

lemma incomplete_eq:
  "shaped n c p r \<Longrightarrow> length mp = p \<Longrightarrow> incomplete r [[mp]] = Inr (scale_by (\<lambda>m. 1 - m) mp r)"
  using mul_mask_eq [of n c p r mp "\<lambda>m. 1 - m"] by (simp add: incomplete_def)

lemma composite_eq:
  assumes "shaped n c p pr" "shaped n c p inc" "length mp = p"
  shows "composite pr inc [[mp]] =
           Inr (map2 (map2 (map2 (+))) (scale_by id mp pr) (scale_by (\<lambda>m. 1 - m) mp inc))"
proof -
  have "t_mul pr [[mp]] = Inr (scale_by id mp pr)"
    using mul_mask_eq [of n c p pr mp id] assms by simp
  moreover have "t_mul inc (rsub 1 [[mp]]) = Inr (scale_by (\<lambda>m. 1 - m) mp inc)"
    using mul_mask_eq [of n c p inc mp "\<lambda>m. 1 - m"] assms by simp
  moreover have "t_add (scale_by id mp pr) (scale_by (\<lambda>m. 1 - m) mp inc) =
      Inr (map2 (map2 (map2 (+))) (scale_by id mp pr) (scale_by (\<lambda>m. 1 - m) mp inc))"
    unfolding t_add_def using assms by (intro ew_same [where n = n and c = c and p = p]) (simp_all add: shaped_scale_by)
  ultimately show ?thesis by (simp add: composite_def)
qed

lemma scale_by_nth:
  "shaped n c p t \<Longrightarrow> length mp = p \<Longrightarrow> k < n \<Longrightarrow> ch < c \<Longrightarrow> j < p \<Longrightarrow>
   scale_by g mp t ! k ! ch ! j = t ! k ! ch ! j * g (mp ! j)"
  by (simp add: scale_by_def shaped_def list_all_length)

subsection \<open>Properties of masking and compositing\<close>

lemma binary_mask_single: "binary_mask [[mp]] \<longleftrightarrow> (\<forall>x\<in>set mp. x = 0 \<or> x = 1)"
  by (simp add: binary_mask_def list_all_iff)

lemma fake_eq:
  assumes "shaped n c p r" "shaped n c p pr" "length mp = p"
  shows "bindE (incomplete r [[mp]]) (\<lambda>inc. composite pr inc [[mp]]) =
    Inr (map2 (map2 (map2 (+))) (scale_by id mp pr) (scale_by (\<lambda>m. 1 - m) mp (scale_by (\<lambda>m. 1 - m) mp r)))"
  using assms by (simp add: incomplete_eq composite_eq shaped_scale_by)

lemma fake_nth:
  assumes "shaped n c p r" "shaped n c p pr" "length mp = p" "k < n" "ch < c" "j < p"
  shows "map2 (map2 (map2 (+))) (scale_by id mp pr) (scale_by (\<lambda>m. 1 - m) mp (scale_by (\<lambda>m. 1 - m) mp r)) ! k ! ch ! j
     = pr ! k ! ch ! j * mp ! j + r ! k ! ch ! j * (1 - mp ! j) * (1 - mp ! j)"
proof -
  have r1: "shaped n c p (scale_by (\<lambda>m. 1 - m) mp r)" using assms by (simp add: shaped_scale_by)
  have s: "shaped n c p (scale_by id mp pr)" "shaped n c p (scale_by (\<lambda>m. 1 - m) mp (scale_by (\<lambda>m. 1 - m) mp r))"
    using assms r1 by (simp_all add: shaped_scale_by)
  show ?thesis
    using zip3_nth [OF s assms(4-6)] scale_by_nth [OF r1 assms(3-6)] scale_by_nth [OF assms(1) assms(3-6)]
      scale_by_nth [OF assms(2) assms(3-6)]
    by simp
qed

lemma fake_pixels:
  assumes "shaped n c p r" "shaped n c p pr" "length mp = p"
  shows "\<exists>f. bindE (incomplete r [[mp]]) (\<lambda>inc. composite pr inc [[mp]]) = Inr f \<and> shaped n c p f \<and>
     (\<forall>k<n. \<forall>ch<c. \<forall>j<p. f ! k ! ch ! j = pr ! k ! ch ! j * mp ! j + r ! k ! ch ! j * (1 - mp ! j) * (1 - mp ! j))"
  using assms by (auto simp: fake_eq fake_nth shaped_zip3 shaped_scale_by)

lemma blend_binary: "m = 0 \<or> m = 1 \<Longrightarrow> a * m + b * (1 - m) * (1 - m) = (if m = 1 then a else (b::real))"
  by auto

lemma blend_square_iff:
  "a * m + b * (1 - m) * (1 - m) = a * m + b * (1 - m) \<longleftrightarrow> m = 0 \<or> m = 1 \<or> b = (0::real)"
proof -
  have "b * (1 - m) * (1 - m) - b * (1 - m) = - (b * (1 - m) * m)" by (simp add: algebra_simps)
  then have "a * m + b * (1 - m) * (1 - m) = a * m + b * (1 - m) \<longleftrightarrow> b * (1 - m) * m = 0" by linarith
  then show ?thesis by auto
qed

text \<open>Claim C8: for a binary mask, the composite shown to the discriminator
  (\<open>batch_fake\<close>, gan.py line 60) takes the generator's prediction at every
  masked pixel and the real image at every other pixel, for every sample and
  channel of the batch, and has the shape of the batch.\<close>

theorem composite_binary:
  assumes "shaped n c p r" "shaped n c p pr" "length mp = p" "binary_mask [[mp]]"
  shows "\<exists>f. bindE (incomplete r [[mp]]) (\<lambda>inc. composite pr inc [[mp]]) = Inr f \<and> shaped n c p f \<and>
     (\<forall>k<n. \<forall>ch<c. \<forall>j<p. f ! k ! ch ! j = (if mp ! j = 1 then pr ! k ! ch ! j else r ! k ! ch ! j))"
proof -
  have bin: "\<forall>j<p. mp ! j = 0 \<or> mp ! j = 1"
    using assms(3,4) by (auto simp: binary_mask_single)
  from fake_pixels [OF assms(1-3)] obtain f where
    f: "bindE (incomplete r [[mp]]) (\<lambda>inc. composite pr inc [[mp]]) = Inr f" "shaped n c p f"
      "\<forall>k<n. \<forall>ch<c. \<forall>j<p. f ! k ! ch ! j = pr ! k ! ch ! j * mp ! j + r ! k ! ch ! j * (1 - mp ! j) * (1 - mp ! j)"
    by blast
  then show ?thesis using bin blend_binary by metis
qed

text \<open>Claim C23: at every pixel of every sample and channel, the composite of
  line 60 weights the real image by \<open>(1 - m)\<^sup>2\<close>, since \<open>batch_incomplete\<close>
  already carries a factor \<open>1 - mask\<close>; it is the blend
  \<open>pred * m + real * (1 - m)\<close> of prediction and image exactly when the mask
  value there is 0 or 1, or the real pixel is 0.\<close>

theorem composite_soft_mask_weight:
  assumes "shaped n c p r" "shaped n c p pr" "length mp = p" "k < n" "ch < c" "j < p"
  shows "\<exists>f. bindE (incomplete r [[mp]]) (\<lambda>inc. composite pr inc [[mp]]) = Inr f \<and>
     f ! k ! ch ! j = pr ! k ! ch ! j * mp ! j + r ! k ! ch ! j * (1 - mp ! j) * (1 - mp ! j) \<and>
     (f ! k ! ch ! j = pr ! k ! ch ! j * mp ! j + r ! k ! ch ! j * (1 - mp ! j) \<longleftrightarrow>
      mp ! j = 0 \<or> mp ! j = 1 \<or> r ! k ! ch ! j = 0)"
proof -
  from fake_pixels [OF assms(1-3)] obtain f where
    f: "bindE (incomplete r [[mp]]) (\<lambda>inc. composite pr inc [[mp]]) = Inr f"
      "f ! k ! ch ! j = pr ! k ! ch ! j * mp ! j + r ! k ! ch ! j * (1 - mp ! j) * (1 - mp ! j)"
    using assms(4-6) by blast
  then show ?thesis using blend_square_iff by simp
qed

text \<open>Claim C22: \<open>inpaint_image\<close> does not depend on the pixels under a
  binary mask: two images that agree outside the mask get the same
  prediction, whatever the generator.\<close>

theorem inpaint_ignores_masked_pixels:
  assumes "shaped n c p img1" "shaped n c p img2" "length mp = p" "binary_mask [[mp]]"
    and "\<forall>k<n. \<forall>ch<c. \<forall>j<p. mp ! j = 0 \<longrightarrow> img1 ! k ! ch ! j = img2 ! k ! ch ! j"
  shows "inpaint_image gen w img1 [[mp]] = inpaint_image gen w img2 [[mp]]"
proof -
  have bin: "mp ! j = 0 \<or> mp ! j = 1" if "j < p" for j
    using assms(3,4) that by (auto simp: binary_mask_single)
  have "scale_by (\<lambda>m. 1 - m) mp img1 = scale_by (\<lambda>m. 1 - m) mp img2"
  proof (rule shaped_eqI)
    fix k ch j assume "k < n" "ch < c" "j < p"
    with assms bin show "scale_by (\<lambda>m. 1 - m) mp img1 ! k ! ch ! j = scale_by (\<lambda>m. 1 - m) mp img2 ! k ! ch ! j"
      by (auto simp: scale_by_nth)
  qed (use assms in \<open>simp_all add: shaped_scale_by\<close>)
  with assms show ?thesis
    using mul_mask_eq [of n c p img1 mp "\<lambda>m. 1 - m"] mul_mask_eq [of n c p img2 mp "\<lambda>m. 1 - m"]
    by (simp add: inpaint_image_def)
qed


theorem composite_binary_witness:
  "shaped 1 1 2 [[[3, 4]]] \<and> shaped 1 1 2 [[[7, 8]]] \<and> length [1, 0::real] = 2 \<and> binary_mask [[[1, 0]]] \<and>
   (\<exists>f. bindE (incomplete [[[3, 4]]] [[[1, 0]]]) (\<lambda>inc. composite [[[7, 8]]] inc [[[1, 0]]]) = Inr f \<and>
      shaped 1 1 2 f \<and>
      (\<forall>k<1. \<forall>ch<1. \<forall>j<2. f ! k ! ch ! j =
         (if [1, 0::real] ! j = 1 then [[[7, 8]]] ! k ! ch ! j else [[[3, 4::real]]] ! k ! ch ! j)))"
proof -
  have h: "shaped 1 1 2 [[[3, 4]]]" "shaped 1 1 2 [[[7, 8]]]" "length [1, 0::real] = 2"
      "binary_mask [[[1, 0]]]"
    by (simp_all add: shaped_def binary_mask_def)
  show ?thesis using h composite_binary [OF h] by blast
qed

theorem inpaint_ignores_masked_pixels_witness:
  "inpaint_image (\<lambda>w x m. (x, x, x)) () [[[5, 4]]] [[[1, 0]]] =
   inpaint_image (\<lambda>w x m. (x, x, x)) () [[[9, 4]]] [[[1, 0]]]"
proof -
  have h: "shaped 1 1 2 [[[5, 4]]]" "shaped 1 1 2 [[[9, 4]]]" "length [1, 0::real] = 2"
      "binary_mask [[[1, 0]]]"
    by (simp_all add: shaped_def binary_mask_def)
  have agree: "\<forall>k<1. \<forall>ch<1. \<forall>j<2. [1, 0::real] ! j = 0 \<longrightarrow>
      [[[5, 4::real]]] ! k ! ch ! j = [[[9, 4]]] ! k ! ch ! j"
    by (auto simp: less_Suc_eq numeral_2_eq_2)
  show ?thesis by (rule inpaint_ignores_masked_pixels [OF h agree])
qed

theorem composite_soft_mask_weight_witness:
  "\<exists>f. bindE (incomplete [[[1]]] [[[1 / 2]]]) (\<lambda>inc. composite [[[0]]] inc [[[1 / 2]]]) = Inr f \<and>
     f ! 0 ! 0 ! 0 = 1 / 4 \<and> f ! 0 ! 0 ! 0 \<noteq> 1 / 2"
proof -
  have sh: "shaped 1 1 1 [[[1]]]" "shaped 1 1 1 [[[0]]]" "length [1 / 2 :: real] = 1"
    by (simp_all add: shaped_def)
  show ?thesis using composite_soft_mask_weight [OF sh, of 0 0 0] by simp
qed

end
