(* ===== verification/Losses.thy ===== *)
theory Losses
  imports Tensor
begin

text \<open>
  The three losses of a training iteration.  \<open>gan_hinge_loss\<close> lives in
  \<open>util_ops.py\<close>, which is not among the sources: it is modelled from the
  spec's ``hinge-loss adversarial objective'' in its DeepFill form, where
  the discriminator loss is the mean of \<open>relu(1 - pos)\<close> and \<open>relu(1 + neg)\<close>
  (weighted one half each) and the generator loss is \<open>-mean(neg)\<close>; it
  returns the pair \<open>(g_loss, d_loss)\<close>, of which \<open>src/gan.py\<close> line 66
  keeps the second.  The reconstruction loss of lines 73--74 and the
  generator's adversarial loss of line 79 are modelled from the source.  The
  discriminator output for a batch is one row of scores per sample.  The
  lemmas show that the losses are non-negative and when they vanish: the
  discriminator loss is 0 exactly when every real score is at least the real
  label 1 and every fake score at most the fake label -1, and the L1 loss is
  0 exactly when both generator outputs reproduce the real batch.
\<close>

type_synonym scores = "real list list"

definition relu :: "real \<Rightarrow> real" where
  "relu x = max 0 x"

definition gan_hinge_loss :: "scores \<Rightarrow> scores \<Rightarrow> real \<times> real" where
  "gan_hinge_loss pos neg =
     (let hinge_pos = mean (map (\<lambda>x. relu (1 - x)) (concat pos));
          hinge_neg = mean (map (\<lambda>x. relu (1 + x)) (concat neg));
          d_loss = 1/2 * hinge_pos + 1/2 * hinge_neg;
          g_loss = - mean (concat neg)
      in (g_loss, d_loss))"

definition l1_loss :: "real \<Rightarrow> tensor \<Rightarrow> tensor \<Rightarrow> tensor \<Rightarrow> error + real" where
  "l1_loss l1_loss_alpha batch_real x1 x2 =
     bindE (t_sub batch_real x1) (\<lambda>e1.
     bindE (t_sub batch_real x2) (\<lambda>e2.
     Inr (l1_loss_alpha * (t_mean (t_abs e1) + t_mean (t_abs e2)))))"

definition g_adv_loss :: "scores \<Rightarrow> real" where
  "g_adv_loss labels_neg = - mean (concat labels_neg)"

subsection \<open>Means of non-negative values\<close>

lemma mean_nonneg: "(\<And>x. x \<in> set xs \<Longrightarrow> 0 \<le> x) \<Longrightarrow> 0 \<le> mean xs"
  by (simp add: mean_def sum_list_nonneg)

lemma mean_eq_0_iff:
  "xs \<noteq> [] \<Longrightarrow> (\<And>x. x \<in> set xs \<Longrightarrow> 0 \<le> x) \<Longrightarrow> mean xs = 0 \<longleftrightarrow> (\<forall>x\<in>set xs. x = 0)"
  by (simp add: mean_def sum_list_nonneg_eq_0_iff)

lemma relu_nonneg [simp]: "0 \<le> relu x"
  by (simp add: relu_def)

lemma relu_eq_0 [simp]: "relu x = 0 \<longleftrightarrow> x \<le> 0"
  by (auto simp: relu_def max_def)

lemma hinge_mean_nonneg: "0 \<le> mean (map (\<lambda>x. relu (f x)) xs)"
  by (rule mean_nonneg) auto

lemma hinge_mean_eq_0:
  "xs \<noteq> [] \<Longrightarrow> mean (map (\<lambda>x. relu (f x)) xs) = 0 \<longleftrightarrow> (\<forall>x\<in>set xs. f x \<le> 0)"
  by (subst mean_eq_0_iff) auto

lemma t_mean_abs_nonneg: "0 \<le> t_mean (t_abs t)"
  by (auto simp: t_mean_def t_abs_def tmap_def intro!: mean_nonneg)

lemma t_mean_abs_eq_0:
  assumes "concat (concat t) \<noteq> []"
  shows "t_mean (t_abs t) = 0 \<longleftrightarrow> (\<forall>s\<in>set t. \<forall>q\<in>set s. \<forall>x\<in>set q. x = 0)"
proof -
  have "concat (concat (t_abs t)) = map abs (concat (concat t))"
    by (simp add: t_abs_def tmap_def map_concat)
  moreover have ne: "map abs (concat (concat t)) \<noteq> []" using assms by simp
  then have "mean (map abs (concat (concat t))) = 0 \<longleftrightarrow> (\<forall>x\<in>set (concat (concat t)). x = 0)"
    by (subst mean_eq_0_iff) auto
  ultimately show ?thesis by (simp add: t_mean_def)
qed

subsection \<open>The discriminator's hinge loss\<close>

text \<open>Claim C16: on non-empty score batches the discriminator loss is 0 exactly
  when every score of a real sample is at least the real label 1 and every
  score of a fake sample is at most the fake label -1 (the labels of
  \<open>GAN.__init__\<close>, lines 30--31).\<close>

theorem hinge_d_loss_zero_iff:
  assumes "concat pos \<noteq> []" "concat neg \<noteq> []"
  shows "snd (gan_hinge_loss pos neg) = 0 \<longleftrightarrow>
           (\<forall>x\<in>set (concat pos). 1 \<le> x) \<and> (\<forall>x\<in>set (concat neg). x \<le> -1)"
proof -
  let ?hp = "mean (map (\<lambda>x. relu (1 - x)) (concat pos))"
  let ?hn = "mean (map (\<lambda>x. relu (1 + x)) (concat neg))"
  have "0 \<le> ?hp" "0 \<le> ?hn" by (simp_all add: hinge_mean_nonneg)
  then have "1/2 * ?hp + 1/2 * ?hn = 0 \<longleftrightarrow> ?hp = 0 \<and> ?hn = 0" by linarith
  moreover have "?hp = 0 \<longleftrightarrow> (\<forall>x\<in>set (concat pos). 1 \<le> x)"
    using hinge_mean_eq_0 [OF assms(1), of "\<lambda>x. 1 - x"] by simp
  moreover have "?hn = 0 \<longleftrightarrow> (\<forall>x\<in>set (concat neg). x \<le> -1)"
  proof -
    have "\<And>x::real. 1 + x \<le> 0 \<longleftrightarrow> x \<le> -1" by arith
    then show ?thesis using hinge_mean_eq_0 [OF assms(2), of "\<lambda>x. 1 + x"] by simp
  qed
  ultimately show ?thesis by (simp add: gan_hinge_loss_def Let_def)
qed


subsection \<open>The generator's reconstruction loss\<close>

lemma shaped_all_iff:
  assumes sh: "shaped n c p t"
  shows "(\<forall>s\<in>set t. \<forall>q\<in>set s. \<forall>x\<in>set q. P x) \<longleftrightarrow> (\<forall>k<n. \<forall>ch<c. \<forall>j<p. P (t ! k ! ch ! j))"
proof
  assume all: "\<forall>s\<in>set t. \<forall>q\<in>set s. \<forall>x\<in>set q. P x"
  show "\<forall>k<n. \<forall>ch<c. \<forall>j<p. P (t ! k ! ch ! j)"
  proof (intro allI impI)
    fix k ch j assume "k < n" "ch < c" "j < p"
    with sh have "t ! k \<in> set t" "t ! k ! ch \<in> set (t ! k)" "t ! k ! ch ! j \<in> set (t ! k ! ch)"
      by (simp_all add: shaped_def list_all_length)
    with all show "P (t ! k ! ch ! j)" by blast
  qed
next
  assume idx: "\<forall>k<n. \<forall>ch<c. \<forall>j<p. P (t ! k ! ch ! j)"
  show "\<forall>s\<in>set t. \<forall>q\<in>set s. \<forall>x\<in>set q. P x"
  proof (intro ballI)
    fix s q x assume "s \<in> set t" "q \<in> set s" "x \<in> set q"
    then obtain k ch j where "k < length t" "s = t ! k" "ch < length s" "q = s ! ch"
        "j < length q" "x = q ! j"
      by (auto simp: in_set_conv_nth)
    with sh idx show "P x" by (simp add: shaped_def list_all_length)
  qed
qed

lemma shaped_concat_ne:
  assumes "shaped n c p t" "0 < n" "0 < c" "0 < p"
  shows "concat (concat t) \<noteq> []"
proof -
  from assms have "t ! 0 \<in> set t" "t ! 0 ! 0 \<in> set (t ! 0)" "t ! 0 ! 0 ! 0 \<in> set (t ! 0 ! 0)"
    by (simp_all add: shaped_def list_all_length)
  then have "t ! 0 ! 0 ! 0 \<in> set (concat (concat t))" by auto
  then show ?thesis by (metis empty_iff empty_set)
qed

lemma diff_all_zero_iff:
  assumes "shaped n c p a" "shaped n c p b"
  shows "(\<forall>s\<in>set (map2 (map2 (map2 (-))) a b). \<forall>q\<in>set s. \<forall>x\<in>set q. x = 0) \<longleftrightarrow> a = b"
proof -
  let ?e = "map2 (map2 (map2 (-))) a b"
  have sh: "shaped n c p ?e" using assms by (rule shaped_zip3)
  have "(\<forall>s\<in>set ?e. \<forall>q\<in>set s. \<forall>x\<in>set q. x = 0) \<longleftrightarrow> (\<forall>k<n. \<forall>ch<c. \<forall>j<p. ?e ! k ! ch ! j = 0)"
    by (rule shaped_all_iff [OF sh])
  also have "\<dots> \<longleftrightarrow> (\<forall>k<n. \<forall>ch<c. \<forall>j<p. a ! k ! ch ! j - b ! k ! ch ! j = (0::real))"
    by (simp add: zip3_nth [OF assms])
  also have "\<dots> \<longleftrightarrow> a = b"
    using shaped_eqI [OF assms] by auto
  finally show ?thesis .
qed

lemma sub_abs_mean:
  assumes "shaped n c p a" "shaped n c p b" "0 < n" "0 < c" "0 < p"
  shows "\<exists>e. t_sub a b = Inr e \<and> 0 \<le> t_mean (t_abs e) \<and> (t_mean (t_abs e) = 0 \<longleftrightarrow> b = a)"
proof -
  let ?e = "map2 (map2 (map2 (-))) a b"
  have e: "t_sub a b = Inr ?e" using assms(1,2) by (simp add: t_sub_def ew_same)
  have sh: "shaped n c p ?e" using assms(1,2) by (rule shaped_zip3)
  have "t_mean (t_abs ?e) = 0 \<longleftrightarrow> a = b"
    using t_mean_abs_eq_0 [OF shaped_concat_ne [OF sh assms(3-5)]] diff_all_zero_iff [OF assms(1,2)]
    by simp
  with e show ?thesis using t_mean_abs_nonneg by auto
qed

text \<open>Claim C17: the reconstruction loss of lines 73--74 on batches of one shape
  is defined, non-negative, and 0 exactly when both the coarse and the
  refined generator output equal the real batch.\<close>

theorem l1_loss_zero_iff:
  assumes "shaped n c p r" "shaped n c p x1" "shaped n c p x2" "0 < n" "0 < c" "0 < p" "0 < alpha"
  shows "\<exists>l. l1_loss alpha r x1 x2 = Inr l \<and> 0 \<le> l \<and> (l = 0 \<longleftrightarrow> x1 = r \<and> x2 = r)"
proof -
  obtain e1 where e1: "t_sub r x1 = Inr e1" "0 \<le> t_mean (t_abs e1)" "t_mean (t_abs e1) = 0 \<longleftrightarrow> x1 = r"
    using sub_abs_mean [OF assms(1,2,4-6)] by blast
  obtain e2 where e2: "t_sub r x2 = Inr e2" "0 \<le> t_mean (t_abs e2)" "t_mean (t_abs e2) = 0 \<longleftrightarrow> x2 = r"
    using sub_abs_mean [OF assms(1,3,4-6)] by blast
  have "alpha * (t_mean (t_abs e1) + t_mean (t_abs e2)) = 0 \<longleftrightarrow> x1 = r \<and> x2 = r"
    using e1(2,3) e2(2,3) assms(7) by (auto simp: add_nonneg_eq_0_iff)
  moreover have "0 \<le> alpha * (t_mean (t_abs e1) + t_mean (t_abs e2))"
    using e1(2) e2(2) assms(7) by simp
  ultimately show ?thesis using e1(1) e2(1) by (simp add: l1_loss_def)
qed


theorem hinge_d_loss_zero_iff_witness:
  "concat [[1, 2::real]] \<noteq> [] \<and> concat [[- 1::real]] \<noteq> [] \<and>
   (snd (gan_hinge_loss [[1, 2]] [[- 1]]) = 0 \<longleftrightarrow>
     (\<forall>x\<in>set (concat [[1, 2::real]]). 1 \<le> x) \<and> (\<forall>x\<in>set (concat [[- 1::real]]). x \<le> -1))"
proof -
  have h: "concat [[1, 2::real]] \<noteq> []" "concat [[- 1::real]] \<noteq> []" by simp_all
  show ?thesis using h hinge_d_loss_zero_iff [OF h] by blast
qed

theorem l1_loss_zero_iff_witness:
  "\<exists>l. l1_loss 1 [[[1, 2]]] [[[1, 2]]] [[[1, 3]]] = Inr l \<and> 0 \<le> l \<and>
     (l = 0 \<longleftrightarrow> [[[1, 2]]] = [[[1, 2::real]]] \<and> [[[1, 3]]] = [[[1, 2::real]]])"
proof -
  have h: "shaped 1 1 2 [[[1, 2]]]" "shaped 1 1 2 [[[1, 2]]]" "shaped 1 1 2 [[[1, 3]]]"
      "0 < (1::nat)" "0 < (1::nat)" "0 < (2::nat)" "0 < (1::real)"
    by (simp_all add: shaped_def)
  show ?thesis by (rule l1_loss_zero_iff [OF h])
qed

end
