(* ===== verification/Training.thy ===== *)
theory Training
  imports Masking Losses
begin

text \<open>
  One training iteration of \<open>GAN.train_gan\<close> (\<open>src/gan.py\<close> lines 46--89)
  and the object state it changes.  The networks and the optimizers belong to
  PyTorch and are parameters, gathered in the record \<open>lib\<close>: the forward
  passes of the generator and the discriminator, and the Adam steps, which map
  an optimizer state, the weights and the gradient buffer to the new optimizer
  state and weights.  Autograd is modelled by what the orchestration decides:
  the gradient buffer of each network is the list of the losses whose
  \<open>backward()\<close> has reached it since its last \<open>zero_grad()\<close>, and the
  saved buffers of each forward pass are alive until a \<open>backward()\<close> without
  \<open>retain_graph\<close> frees them; a backward through freed buffers raises.  The
  record \<open>gan_state\<close> holds the fields of the \<open>GAN\<close> object and the locals of
  \<open>train_gan\<close> (\<open>G_losses\<close>, \<open>D_losses\<close>, \<open>iters\<close>), and a trace of the
  effects in the order the code performs them.
\<close>

datatype net = Gen | Dis
datatype loss_tag = DLoss | GLoss
type_synonym contrib = "loss_tag \<times> nat"

text \<open>The forward passes of iteration \<open>i\<close> whose buffers autograd saves.\<close>

datatype node = GenFwd nat | DisMixed nat | DisFake nat

datatype event =
    ZeroGrad net
  | Forward node
  | Backward contrib
  | Step net "contrib list"
  | Print nat nat nat real real

record gan_config =
  num_epochs :: nat
  batch_size :: nat
  lr :: real
  beta1 :: real
  beta2 :: real
  l1_loss_alpha :: real
  real_label :: int
  fake_label :: int

record ('g, 'd, 'og, 'od) lib =
  gen_fwd :: "'g generator"
  dis_fwd :: "'d \<Rightarrow> tensor \<Rightarrow> scores"
  adam_G :: "'og \<Rightarrow> 'g \<Rightarrow> contrib list \<Rightarrow> 'og \<times> 'g"
  adam_D :: "'od \<Rightarrow> 'd \<Rightarrow> contrib list \<Rightarrow> 'od \<times> 'd"

text \<open>The device the object is given (\<open>'cpu'\<close>, \<open>'cuda'\<close>; line 15) and the
  only tensor type it uses, \<open>self.dtype\<close> (line 16).\<close>

type_synonym device = string

datatype dtype = Float32

record ('g, 'd, 'og, 'od) gan_state =
  device :: device
  dtype :: dtype
  gen_w :: 'g
  dis_w :: 'd
  optimizerG :: 'og
  optimizerD :: 'od
  gen_training :: bool
  dis_training :: bool
  grad_G :: "contrib list"
  grad_D :: "contrib list"
  graphs :: "node list"
  G_losses :: "real list"
  D_losses :: "real list"
  iters :: nat
  trace :: "event list"

text \<open>The masks one iteration draws (\<open>random_bbox\<close>, \<open>bbox2mask\<close>,
  \<open>brush_stroke_mask\<close> and \<open>random.choice\<close>, lines 49--52).\<close>

record mask_draw =
  regular :: tensor
  irregular :: tensor
  pick :: mask_choice

text \<open>The hyperparameters of \<open>GAN.__init__\<close>, lines 21--31.\<close>

definition gan_hyperparameters :: gan_config where
  "gan_hyperparameters =
     \<lparr>num_epochs = 10, batch_size = 4, lr = 1 / 10000, beta1 = 1 / 2, beta2 = 999 / 1000,
      l1_loss_alpha = 1, real_label = 1, fake_label = -1\<rparr>"

subsection \<open>Autograd and optimizer effects\<close>

definition node_net :: "node \<Rightarrow> net" where
  "node_net nd = (case nd of GenFwd _ \<Rightarrow> Gen | DisMixed _ \<Rightarrow> Dis | DisFake _ \<Rightarrow> Dis)"

definition log_event :: "event \<Rightarrow> ('g, 'd, 'og, 'od) gan_state \<Rightarrow> ('g, 'd, 'og, 'od) gan_state" where
  "log_event e s = s\<lparr>trace := trace s @ [e]\<rparr>"

definition zero_grad :: "net \<Rightarrow> ('g, 'd, 'og, 'od) gan_state \<Rightarrow> ('g, 'd, 'og, 'od) gan_state" where
  "zero_grad n s =
     log_event (ZeroGrad n) (case n of Gen \<Rightarrow> s\<lparr>grad_G := []\<rparr> | Dis \<Rightarrow> s\<lparr>grad_D := []\<rparr>)"

definition forward :: "node \<Rightarrow> ('g, 'd, 'og, 'od) gan_state \<Rightarrow> ('g, 'd, 'og, 'od) gan_state" where
  "forward nd s = log_event (Forward nd) (s\<lparr>graphs := graphs s @ [nd]\<rparr>)"

definition backward ::
  "node list \<Rightarrow> contrib \<Rightarrow> bool \<Rightarrow> ('g, 'd, 'og, 'od) gan_state \<Rightarrow> error + ('g, 'd, 'og, 'od) gan_state" where
  "backward deps c retain_graph s =
     (if list_all (\<lambda>nd. nd \<in> set (graphs s)) deps then
        Inr (log_event (Backward c)
          (s\<lparr>grad_G := (if list_ex (\<lambda>nd. node_net nd = Gen) deps then grad_G s @ [c] else grad_G s),
             grad_D := (if list_ex (\<lambda>nd. node_net nd = Dis) deps then grad_D s @ [c] else grad_D s),
             graphs := (if retain_graph then graphs s else filter (\<lambda>nd. nd \<notin> set deps) (graphs s))\<rparr>))
      else Inl BackwardFreed)"

definition step_D ::
  "('g, 'd, 'og, 'od) lib \<Rightarrow> ('g, 'd, 'og, 'od) gan_state \<Rightarrow> ('g, 'd, 'og, 'od) gan_state" where
  "step_D L s =
     (case adam_D L (optimizerD s) (dis_w s) (grad_D s) of
        (o', w') \<Rightarrow> log_event (Step Dis (grad_D s)) (s\<lparr>optimizerD := o', dis_w := w'\<rparr>))"

definition step_G ::
  "('g, 'd, 'og, 'od) lib \<Rightarrow> ('g, 'd, 'og, 'od) gan_state \<Rightarrow> ('g, 'd, 'og, 'od) gan_state" where
  "step_G L s =
     (case adam_G L (optimizerG s) (gen_w s) (grad_G s) of
        (o', w') \<Rightarrow> log_event (Step Gen (grad_G s)) (s\<lparr>optimizerG := o', gen_w := w'\<rparr>))"

subsection \<open>The iteration\<close>

text \<open>Lines 55--70: the generator's forward pass, the composite and the mixed
  batch, the discriminator's hinge loss, its backward pass (keeping the graph)
  and the discriminator's step.  Returns \<open>x1\<close>, \<open>x2\<close>, \<open>batch_fake\<close>, the
  loss and the new state.\<close>

definition dis_update ::
  "('g, 'd, 'og, 'od) lib \<Rightarrow> gan_config \<Rightarrow> tensor \<Rightarrow> tensor \<Rightarrow> tensor \<Rightarrow> ('g, 'd, 'og, 'od) gan_state \<Rightarrow>
   error + (tensor \<times> tensor \<times> tensor \<times> real \<times> ('g, 'd, 'og, 'od) gan_state)" where
  "dis_update L cfg batch_real msk batch_incomplete s =
     (let i = iters s;
          s1 = zero_grad Dis s;
          (x1, x2, _) = gen_fwd L (gen_w s1) batch_incomplete msk;
          s2 = forward (GenFwd i) s1
      in bindE (composite x2 batch_incomplete msk) (\<lambda>batch_fake.
         bindE (cat0 batch_real batch_fake) (\<lambda>batch_mixed.
         bindE (cat_many0 (replicate (batch_size cfg * 2) msk)) (\<lambda>masks.
         bindE (cat1 batch_mixed masks) (\<lambda>batch_mixed.
         let labels_mixed = dis_fwd L (dis_w s2) batch_mixed;
             s3 = forward (DisMixed i) s2
         in bindE (unpack2 (chunks (length labels_mixed div 2) labels_mixed)) (\<lambda>(labels_pos, labels_neg).
         let d_loss = snd (gan_hinge_loss labels_pos labels_neg);
             s4 = s3\<lparr>D_losses := D_losses s3 @ [d_loss]\<rparr>
         in bindE (backward [DisMixed i, GenFwd i] (DLoss, i) True s4) (\<lambda>s5.
         Inr (x1, x2, batch_fake, d_loss, step_D L s5))))))))"

text \<open>Lines 71--85: the reconstruction loss, the discriminator's score of the
  fakes after its step, the generator's backward pass (freeing the graph) and
  the generator's step.  Returns the logged adversarial loss and the state.\<close>

definition gen_update ::
  "('g, 'd, 'og, 'od) lib \<Rightarrow> gan_config \<Rightarrow> tensor \<Rightarrow> tensor \<Rightarrow> tensor \<Rightarrow> tensor \<Rightarrow> tensor \<Rightarrow>
   ('g, 'd, 'og, 'od) gan_state \<Rightarrow> error + (real \<times> ('g, 'd, 'og, 'od) gan_state)" where
  "gen_update L cfg batch_real msk x1 x2 batch_fake s =
     (let i = iters s;
          s1 = zero_grad Gen s
      in bindE (l1_loss (l1_loss_alpha cfg) batch_real x1 x2) (\<lambda>l1.
         bindE (cat_many0 (replicate (batch_size cfg) msk)) (\<lambda>masks.
         bindE (cat1 batch_fake masks) (\<lambda>batch_fake.
         let labels_neg = dis_fwd L (dis_w s1) batch_fake;
             s2 = forward (DisFake i) s1;
             g_loss = g_adv_loss labels_neg;
             s3 = s2\<lparr>G_losses := G_losses s2 @ [g_loss]\<rparr>
         in bindE (backward [DisFake i, GenFwd i] (GLoss, i) False s3) (\<lambda>s4.
         Inr (g_loss, step_G L s4))))))"

text \<open>The loop body, lines 46--89, for the batch \<open>batch_real\<close> of epoch
  \<open>epoch\<close> and the masks \<open>d\<close> drawn for it.\<close>

definition train_step ::
  "('g, 'd, 'og, 'od) lib \<Rightarrow> gan_config \<Rightarrow> nat \<Rightarrow> tensor \<Rightarrow> mask_draw \<Rightarrow>
   ('g, 'd, 'og, 'od) gan_state \<Rightarrow> error + ('g, 'd, 'og, 'od) gan_state" where
  "train_step L cfg epoch batch_real d s =
     (let msk = select_mask (pick d) (regular d) (irregular d)
      in bindE (incomplete batch_real msk) (\<lambda>batch_incomplete.
         bindE (dis_update L cfg batch_real msk batch_incomplete s) (\<lambda>(x1, x2, batch_fake, d_loss, s1).
         bindE (gen_update L cfg batch_real msk x1 x2 batch_fake s1) (\<lambda>(g_loss, s2).
         Inr ((log_event (Print (epoch + 1) (num_epochs cfg) (iters s2 + 1) g_loss d_loss) s2)
                \<lparr>iters := iters s2 + 1\<rparr>)))))"


subsection \<open>A concrete instance\<close>

text \<open>A stand-in for the networks, used by the witnesses: the generator
  returns its input as both outputs, the discriminator scores a sample by the
  sum of its pixels, and the optimizers leave the weights alone.\<close>

definition demo_lib :: "(unit, unit, unit, unit) lib" where
  "demo_lib =
     \<lparr>gen_fwd = (\<lambda>w x m. (x, x, x)), dis_fwd = (\<lambda>w t. map (\<lambda>s. [sum_list (concat s)]) t),
      adam_G = (\<lambda>q w g. (q, w)), adam_D = (\<lambda>q w g. (q, w))\<rparr>"

definition demo_state :: "(unit, unit, unit, unit) gan_state" where
  "demo_state =
     \<lparr>device = ''cpu'', dtype = Float32, gen_w = (), dis_w = (), optimizerG = (), optimizerD = (), gen_training = True,
      dis_training = True, grad_G = [], grad_D = [], graphs = [], G_losses = [], D_losses = [],
      iters = 0, trace = []\<rparr>"

definition demo_draw :: mask_draw where
  "demo_draw = \<lparr>regular = [[[1, 0]]], irregular = [[[0, 1]]], pick = Regular\<rparr>"

subsection \<open>Effects of one iteration\<close>

lemma log_event_fields [simp]:
  "gen_w (log_event e s) = gen_w s" "dis_w (log_event e s) = dis_w s"
  "iters (log_event e s) = iters s" "graphs (log_event e s) = graphs s"
  "grad_G (log_event e s) = grad_G s" "grad_D (log_event e s) = grad_D s"
  "G_losses (log_event e s) = G_losses s" "D_losses (log_event e s) = D_losses s"
  "trace (log_event e s) = trace s @ [e]"
  by (simp_all add: log_event_def)

lemma zero_grad_Dis: "zero_grad Dis s = s\<lparr>grad_D := [], trace := trace s @ [ZeroGrad Dis]\<rparr>"
  by (simp add: zero_grad_def log_event_def)

lemma zero_grad_Gen: "zero_grad Gen s = s\<lparr>grad_G := [], trace := trace s @ [ZeroGrad Gen]\<rparr>"
  by (simp add: zero_grad_def log_event_def)

lemma forward_eq: "forward nd s = s\<lparr>graphs := graphs s @ [nd], trace := trace s @ [Forward nd]\<rparr>"
  by (simp add: forward_def log_event_def)

lemma backward_alive:
  "list_all (\<lambda>nd. nd \<in> set (graphs s)) deps \<Longrightarrow>
   backward deps c retain_graph s =
     Inr (s\<lparr>grad_G := (if list_ex (\<lambda>nd. node_net nd = Gen) deps then grad_G s @ [c] else grad_G s),
            grad_D := (if list_ex (\<lambda>nd. node_net nd = Dis) deps then grad_D s @ [c] else grad_D s),
            graphs := (if retain_graph then graphs s else filter (\<lambda>nd. nd \<notin> set deps) (graphs s)),
            trace := trace s @ [Backward c]\<rparr>)"
  by (simp add: backward_def log_event_def)

lemma backward_freed:
  "\<not> list_all (\<lambda>nd. nd \<in> set (graphs s)) deps \<Longrightarrow> backward deps c retain_graph s = Inl BackwardFreed"
  by (simp add: backward_def)

lemma node_net_simps [simp]:
  "node_net (GenFwd i) = Gen" "node_net (DisMixed i) = Dis" "node_net (DisFake i) = Dis"
  by (simp_all add: node_net_def)

lemma split_mixed_scores:
  "length labels = 2 * b \<Longrightarrow> 0 < b \<Longrightarrow>
   unpack2 (chunks (length labels div 2) labels) = Inr (take b labels, drop b labels)"
  using split_cat_roundtrip [of "take b labels" b "drop b labels"] by simp

lemma dis_update_ok:
  assumes sh: "shaped b c p batch_real" "shaped b c p inc" "length mp = p"
    and bs: "batch_size cfg = b" "0 < b"
    and gen: "gen_fwd L (gen_w s) inc [[mp]] = (x1, x2, fl)" "shaped b c p x2"
    and dis: "\<And>w t. length (dis_fwd L w t) = length t"
  shows "\<exists>bf dl. dis_update L cfg batch_real [[mp]] inc s =
      Inr (x1, x2, bf, dl, step_D L (s\<lparr>D_losses := D_losses s @ [dl],
             grad_G := grad_G s @ [(DLoss, iters s)],
             grad_D := [(DLoss, iters s)],
             graphs := graphs s @ [GenFwd (iters s), DisMixed (iters s)],
             trace := trace s @ [ZeroGrad Dis, Forward (GenFwd (iters s)), Forward (DisMixed (iters s)),
                                 Backward (DLoss, iters s)]\<rparr>))
      \<and> shaped b c p bf"
proof -
  obtain bf where bf: "composite x2 inc [[mp]] = Inr bf" "shaped b c p bf"
    using composite_eq [OF gen(2) sh(2) sh(3)] gen(2) sh(2,3)
    by (simp add: shaped_zip3 shaped_scale_by)
  have mixed: "cat0 batch_real bf = Inr (batch_real @ bf)" "shaped (b + b) c p (batch_real @ bf)"
    using sh(1) bf(2) by (simp_all add: cat0_shaped shaped_append)
  have msh: "shaped 1 1 p [[mp]]" using sh(3) by (simp add: shaped_def)
  have masks: "cat_many0 (replicate (b * 2) [[mp]]) = Inr (replicate (b * 2) [mp])"
      "shaped (b * 2) 1 p (replicate (b * 2) [mp])"
    using bs msh cat_many0_replicate [of "b * 2" "[[mp]]"] sh(3)
    by (simp_all add: same_sample_shape_def shaped_def list_all_iff)
  have c1: "cat1 (batch_real @ bf) (replicate (b * 2) [mp]) =
      Inr (map2 (@) (batch_real @ bf) (replicate (b * 2) [mp]))"
    using cat1_shaped [OF mixed(2) masks(2)] by simp
  let ?bm = "map2 (@) (batch_real @ bf) (replicate (b * 2) [mp])"
  have len: "length ?bm = 2 * b" using mixed(2) masks(2) by (simp add: shaped_def)
  have hl: "length (dis_fwd L (dis_w s) ?bm) = 2 * b" using dis len by simp
  note sp = split_mixed_scores [OF hl bs(2)]
  show ?thesis
    using bf mixed(1) masks(1) c1 bs gen
    by (simp add: dis_update_def Let_def zero_grad_Dis forward_eq backward_alive sp)
qed


lemma l1_loss_shaped:
  "shaped n c p r \<Longrightarrow> shaped n c p x1 \<Longrightarrow> shaped n c p x2 \<Longrightarrow> \<exists>l. l1_loss alpha r x1 x2 = Inr l"
  by (simp add: l1_loss_def t_sub_def ew_same)

lemma gen_update_ok:
  assumes sh: "shaped b c p batch_real" "shaped b c p x1" "shaped b c p x2" "shaped b c p bf" "length mp = p"
    and bs: "batch_size cfg = b" "0 < b"
    and alive: "GenFwd (iters s) \<in> set (graphs s)"
  shows "\<exists>g. gen_update L cfg batch_real [[mp]] x1 x2 bf s =
      Inr (g, step_G L (s\<lparr>G_losses := G_losses s @ [g],
             grad_G := [(GLoss, iters s)],
             grad_D := grad_D s @ [(GLoss, iters s)],
             graphs := filter (\<lambda>nd. nd \<notin> set [DisFake (iters s), GenFwd (iters s)]) (graphs s @ [DisFake (iters s)]),
             trace := trace s @ [ZeroGrad Gen, Forward (DisFake (iters s)), Backward (GLoss, iters s)]\<rparr>))"
proof -
  obtain l where l: "l1_loss (l1_loss_alpha cfg) batch_real x1 x2 = Inr l"
    using l1_loss_shaped [OF sh(1-3)] by blast
  have masks: "cat_many0 (replicate b [[mp]]) = Inr (replicate b [mp])"
      "shaped b 1 p (replicate b [mp])"
    using bs sh(5) cat_many0_replicate [of b "[[mp]]"]
    by (simp_all add: same_sample_shape_def shaped_def list_all_iff)
  have c1: "cat1 bf (replicate b [mp]) = Inr (map2 (@) bf (replicate b [mp]))"
    using cat1_shaped [OF sh(4) masks(2)] by simp
  show ?thesis
    using l masks(1) c1 bs alive
    by (simp add: gen_update_def Let_def zero_grad_Gen forward_eq backward_alive)
qed


lemma step_D_fields [simp]:
  "iters (step_D L s) = iters s" "graphs (step_D L s) = graphs s"
  "grad_G (step_D L s) = grad_G s" "grad_D (step_D L s) = grad_D s"
  "G_losses (step_D L s) = G_losses s" "D_losses (step_D L s) = D_losses s"
  "gen_w (step_D L s) = gen_w s" "trace (step_D L s) = trace s @ [Step Dis (grad_D s)]"
  "device (step_D L s) = device s" "dtype (step_D L s) = dtype s"
  "gen_training (step_D L s) = gen_training s" "dis_training (step_D L s) = dis_training s"
  by (simp_all add: step_D_def log_event_def split: prod.split)

lemma step_G_fields [simp]:
  "iters (step_G L s) = iters s" "graphs (step_G L s) = graphs s"
  "grad_G (step_G L s) = grad_G s" "grad_D (step_G L s) = grad_D s"
  "G_losses (step_G L s) = G_losses s" "D_losses (step_G L s) = D_losses s"
  "dis_w (step_G L s) = dis_w s" "trace (step_G L s) = trace s @ [Step Gen (grad_G s)]"
  "device (step_G L s) = device s" "dtype (step_G L s) = dtype s"
  "gen_training (step_G L s) = gen_training s" "dis_training (step_G L s) = dis_training s"
  by (simp_all add: step_G_def log_event_def split: prod.split)

lemma train_step_ok:
  assumes sh: "shaped b c p batch_real"
    and m: "select_mask (pick dr) (regular dr) (irregular dr) = [[mp]]" "length mp = p"
    and bs: "batch_size cfg = b" "0 < b"
    and gen: "\<And>w x m. shaped b c p x \<Longrightarrow>
                shaped b c p (fst (gen_fwd L w x m)) \<and> shaped b c p (fst (snd (gen_fwd L w x m)))"
    and dis: "\<And>w t. length (dis_fwd L w t) = length t"
  shows "\<exists>s' g d. train_step L cfg ep batch_real dr s = Inr s' \<and>
    iters s' = Suc (iters s) \<and> G_losses s' = G_losses s @ [g] \<and> D_losses s' = D_losses s @ [d] \<and>
    trace s' = trace s @
      [ZeroGrad Dis, Forward (GenFwd (iters s)), Forward (DisMixed (iters s)), Backward (DLoss, iters s),
       Step Dis [(DLoss, iters s)], ZeroGrad Gen, Forward (DisFake (iters s)), Backward (GLoss, iters s),
       Step Gen [(GLoss, iters s)], Print (Suc ep) (num_epochs cfg) (Suc (iters s)) g d]"
proof -
  let ?inc = "scale_by (\<lambda>m. 1 - m) mp batch_real"
  have inc: "incomplete batch_real [[mp]] = Inr ?inc" using sh m(2) by (rule incomplete_eq)
  have shinc: "shaped b c p ?inc" using sh m(2) by (rule shaped_scale_by)
  obtain x1 x2 fl where g: "gen_fwd L (gen_w s) ?inc [[mp]] = (x1, x2, fl)"
    by (cases "gen_fwd L (gen_w s) ?inc [[mp]]") auto
  have shx: "shaped b c p x1" "shaped b c p x2" using gen [OF shinc, of "gen_w s" "[[mp]]"] g by simp_all
  obtain bf dl where du: "dis_update L cfg batch_real [[mp]] ?inc s =
      Inr (x1, x2, bf, dl, step_D L (s\<lparr>D_losses := D_losses s @ [dl],
             grad_G := grad_G s @ [(DLoss, iters s)],
             grad_D := [(DLoss, iters s)],
             graphs := graphs s @ [GenFwd (iters s), DisMixed (iters s)],
             trace := trace s @ [ZeroGrad Dis, Forward (GenFwd (iters s)), Forward (DisMixed (iters s)),
                                 Backward (DLoss, iters s)]\<rparr>))"
      and shbf: "shaped b c p bf"
    using dis_update_ok [OF sh shinc m(2) bs g shx(2) dis] by blast
  let ?s1 = "step_D L (s\<lparr>D_losses := D_losses s @ [dl],
             grad_G := grad_G s @ [(DLoss, iters s)],
             grad_D := [(DLoss, iters s)],
             graphs := graphs s @ [GenFwd (iters s), DisMixed (iters s)],
             trace := trace s @ [ZeroGrad Dis, Forward (GenFwd (iters s)), Forward (DisMixed (iters s)),
                                 Backward (DLoss, iters s)]\<rparr>)"
  have alive: "GenFwd (iters ?s1) \<in> set (graphs ?s1)" by simp
  obtain gl where gu: "gen_update L cfg batch_real [[mp]] x1 x2 bf ?s1 =
      Inr (gl, step_G L (?s1\<lparr>G_losses := G_losses ?s1 @ [gl],
             grad_G := [(GLoss, iters ?s1)],
             grad_D := grad_D ?s1 @ [(GLoss, iters ?s1)],
             graphs := filter (\<lambda>nd. nd \<notin> set [DisFake (iters ?s1), GenFwd (iters ?s1)]) (graphs ?s1 @ [DisFake (iters ?s1)]),
             trace := trace ?s1 @ [ZeroGrad Gen, Forward (DisFake (iters ?s1)), Backward (GLoss, iters ?s1)]\<rparr>))"
    using gen_update_ok [OF sh shx shbf m(2) bs alive] by blast
  show ?thesis
    using inc du gu m(1) by (simp add: train_step_def log_event_def)
qed

text \<open>Claim C6: on a full batch (as many samples as \<open>batch_size\<close>) with a
  mask of the image's size, and networks that keep the batch shape and score
  each sample, one iteration succeeds, logs one generator and one
  discriminator loss, advances \<open>iters\<close>, and performs its effects in this
  order: clear the discriminator's gradients, run the generator and the
  discriminator on the mixed batch, backpropagate the discriminator loss,
  step the discriminator's optimizer with exactly that loss's gradient, clear
  the generator's gradients, run the updated discriminator on the fakes,
  backpropagate the generator loss, step the generator's optimizer with
  exactly that loss's gradient, and print.\<close>

theorem train_step_effects:
  assumes sh: "shaped b c p batch_real"
    and m: "select_mask (pick dr) (regular dr) (irregular dr) = [[mp]]" "length mp = p"
    and bs: "batch_size cfg = b" "0 < b"
    and gen: "\<And>w x m. shaped b c p x \<Longrightarrow>
                shaped b c p (fst (gen_fwd L w x m)) \<and> shaped b c p (fst (snd (gen_fwd L w x m)))"
    and dis: "\<And>w t. length (dis_fwd L w t) = length t"
  shows "\<exists>s' g d. train_step L cfg ep batch_real dr s = Inr s' \<and>
    iters s' = Suc (iters s) \<and> G_losses s' = G_losses s @ [g] \<and> D_losses s' = D_losses s @ [d] \<and>
    trace s' = trace s @
      [ZeroGrad Dis, Forward (GenFwd (iters s)), Forward (DisMixed (iters s)), Backward (DLoss, iters s),
       Step Dis [(DLoss, iters s)], ZeroGrad Gen, Forward (DisFake (iters s)), Backward (GLoss, iters s),
       Step Gen [(GLoss, iters s)], Print (Suc ep) (num_epochs cfg) (Suc (iters s)) g d]"
  using assms by (rule train_step_ok)


lemma dis_update_partial:
  assumes sh: "shaped b c p batch_real" "shaped b c p inc" "length mp = p"
    and bs: "batch_size cfg \<noteq> b" "0 < batch_size cfg"
    and gen: "gen_fwd L (gen_w s) inc [[mp]] = (x1, x2, fl)" "shaped b c p x2"
  shows "dis_update L cfg batch_real [[mp]] inc s = Inl ShapeMismatch"
proof -
  let ?k = "batch_size cfg"
  obtain bf where bf: "composite x2 inc [[mp]] = Inr bf" "shaped b c p bf"
    using composite_eq [OF gen(2) sh(2) sh(3)] gen(2) sh(2,3)
    by (simp add: shaped_zip3 shaped_scale_by)
  have mixed: "cat0 batch_real bf = Inr (batch_real @ bf)" "shaped (b + b) c p (batch_real @ bf)"
    using sh(1) bf(2) by (simp_all add: cat0_shaped shaped_append)
  have masks: "cat_many0 (replicate (?k * 2) [[mp]]) = Inr (replicate (?k * 2) [mp])"
      "shaped (?k * 2) 1 p (replicate (?k * 2) [mp])"
    using bs sh(3) cat_many0_replicate [of "?k * 2" "[[mp]]"]
    by (simp_all add: same_sample_shape_def shaped_def list_all_iff)
  have "cat1 (batch_real @ bf) (replicate (?k * 2) [mp]) = Inl ShapeMismatch"
    using cat1_shaped [OF mixed(2) masks(2)] bs(1) by simp
  then show ?thesis
    using bf mixed(1) masks(1) gen(1)
    by (simp add: dis_update_def Let_def zero_grad_Dis forward_eq)
qed

lemma train_step_mismatch:
  assumes sh: "shaped b c p batch_real"
    and m: "select_mask (pick dr) (regular dr) (irregular dr) = [[mp]]" "length mp = p"
    and bs: "batch_size cfg \<noteq> b" "0 < batch_size cfg"
    and gen: "\<And>w x m. shaped b c p x \<Longrightarrow> shaped b c p (fst (snd (gen_fwd L w x m)))"
  shows "train_step L cfg ep batch_real dr s = Inl ShapeMismatch"
proof -
  let ?inc = "scale_by (\<lambda>m. 1 - m) mp batch_real"
  have inc: "incomplete batch_real [[mp]] = Inr ?inc" using sh m(2) by (rule incomplete_eq)
  have shinc: "shaped b c p ?inc" using sh m(2) by (rule shaped_scale_by)
  obtain x1 x2 fl where g: "gen_fwd L (gen_w s) ?inc [[mp]] = (x1, x2, fl)"
    by (cases "gen_fwd L (gen_w s) ?inc [[mp]]") auto
  have "shaped b c p x2" using gen [OF shinc, of "gen_w s" "[[mp]]"] g by simp
  with dis_update_partial [OF sh shinc m(2) bs g] inc m(1) show ?thesis
    by (simp add: train_step_def)
qed

text \<open>Claim C7: on a batch with fewer (or more) samples than \<open>batch_size\<close>,
  as the \<open>DataLoader\<close> yields last when the dataset size is not a multiple
  of it, the iteration raises a shape error: line 62 concatenates
  \<open>batch_size * 2\<close> copies of the mask with a mixed batch of twice the
  actual batch size.\<close>

theorem train_step_partial_batch:
  assumes sh: "shaped b c p batch_real"
    and m: "select_mask (pick dr) (regular dr) (irregular dr) = [[mp]]" "length mp = p"
    and bs: "batch_size cfg \<noteq> b" "0 < batch_size cfg"
    and gen: "\<And>w x m. shaped b c p x \<Longrightarrow> shaped b c p (fst (snd (gen_fwd L w x m)))"
  shows "train_step L cfg ep batch_real dr s = Inl ShapeMismatch"
  using assms by (rule train_step_mismatch)

theorem train_step_effects_witness:
  "\<exists>s' g d. train_step demo_lib gan_hyperparameters 0 (replicate 4 [[1, 2]]) demo_draw demo_state = Inr s' \<and>
    iters s' = Suc (iters demo_state) \<and> G_losses s' = G_losses demo_state @ [g] \<and>
    D_losses s' = D_losses demo_state @ [d] \<and>
    trace s' = trace demo_state @
      [ZeroGrad Dis, Forward (GenFwd (iters demo_state)), Forward (DisMixed (iters demo_state)),
       Backward (DLoss, iters demo_state), Step Dis [(DLoss, iters demo_state)], ZeroGrad Gen,
       Forward (DisFake (iters demo_state)), Backward (GLoss, iters demo_state),
       Step Gen [(GLoss, iters demo_state)],
       Print (Suc 0) (num_epochs gan_hyperparameters) (Suc (iters demo_state)) g d]"
proof -
  have h: "shaped 4 1 2 (replicate 4 [[1, 2]])"
      "select_mask (pick demo_draw) (regular demo_draw) (irregular demo_draw) = [[[1, 0]]]"
      "length [1, 0::real] = 2" "batch_size gan_hyperparameters = 4" "0 < (4::nat)"
    by (simp_all add: shaped_def list_all_iff demo_draw_def select_mask_def gan_hyperparameters_def)
  have gen: "\<And>w x m. shaped 4 1 2 x \<Longrightarrow>
      shaped 4 1 2 (fst (gen_fwd demo_lib w x m)) \<and> shaped 4 1 2 (fst (snd (gen_fwd demo_lib w x m)))"
    by (simp add: demo_lib_def)
  have dis: "\<And>w t. length (dis_fwd demo_lib w t) = length t"
    by (simp add: demo_lib_def)
  show ?thesis by (rule train_step_effects [OF h gen dis])
qed

theorem train_step_partial_batch_witness:
  "train_step demo_lib gan_hyperparameters 0 [[[1, 2]]] demo_draw demo_state = Inl ShapeMismatch"
proof -
  have h: "shaped 1 1 2 [[[1, 2]]]"
      "select_mask (pick demo_draw) (regular demo_draw) (irregular demo_draw) = [[[1, 0]]]"
      "length [1, 0::real] = 2" "batch_size gan_hyperparameters \<noteq> 1" "0 < batch_size gan_hyperparameters"
    by (simp_all add: shaped_def list_all_iff demo_draw_def select_mask_def gan_hyperparameters_def)
  have gen: "\<And>w x m. shaped 1 1 2 x \<Longrightarrow> shaped 1 1 2 (fst (snd (gen_fwd demo_lib w x m)))"
    by (simp add: demo_lib_def)
  show ?thesis by (rule train_step_partial_batch [OF h gen])
qed

end
