(* ===== verification/TrainLoop.thy ===== *)
theory TrainLoop
  imports Training
begin

text \<open>
  \<open>GAN.__init__\<close> (\<open>src/gan.py\<close> lines 14--35) and \<open>GAN.train_gan\<close>
  (lines 37--91).  \<open>tud.DataLoader(dataset, batch_size, shuffle=True)\<close>
  (line 39) yields, in each epoch, the dataset in a fresh random order cut into
  chunks of \<open>batch_size\<close> samples, the last one shorter when the size is not
  a multiple (\<open>drop_last\<close> is false); its \<open>RandomSampler\<close> and
  \<open>BatchSampler\<close> raise ValueError for an empty dataset or a batch size of 0,
  before any state changes.  For each batch of indices the
  loader reads every sample (\<open>dataset[i]\<close>, which may raise) and collates
  them by stacking the images (\<open>torch.stack\<close> raises unless they have one
  shape).  The dataset is read through \<open>fetch epoch index\<close>, since its
  random crop is drawn anew at every access; the order of each epoch and the
  masks of each iteration are inputs too.  The loop runs \<open>train_step\<close> on every batch of every epoch, stopping at
  the first raise.  \<open>opt_steps\<close> and \<open>printed\<close> read the optimizer steps and
  the printed (epoch, iteration) pairs off the trace.
\<close>

record train_data =
  n_items :: nat
  fetch :: "nat \<Rightarrow> nat \<Rightarrow> error + sample \<times> nat"
  orders :: "nat \<Rightarrow> nat list"
  draws :: "nat \<Rightarrow> mask_draw"

definition collate :: "(sample \<times> nat) list \<Rightarrow> error + tensor \<times> nat list" where
  "collate items =
     (if same_sample_shape (map fst items) then Inr (map fst items, map snd items) else Inl ShapeMismatch)"

definition dataloader :: "nat \<Rightarrow> nat list \<Rightarrow> nat list list" where
  "dataloader batch_sz order = chunks batch_sz order"

fun run_batches ::
  "('g, 'd, 'og, 'od) lib \<Rightarrow> gan_config \<Rightarrow> nat \<Rightarrow> (nat \<Rightarrow> error + sample \<times> nat) \<Rightarrow> (nat \<Rightarrow> mask_draw) \<Rightarrow>
   nat list list \<Rightarrow>
   ('g, 'd, 'og, 'od) gan_state \<Rightarrow> error + ('g, 'd, 'og, 'od) gan_state" where
  "run_batches L cfg epoch get dr [] s = Inr s"
| "run_batches L cfg epoch get dr (idxs # rest) s =
     bindE (mapE get idxs) (\<lambda>batch_data.
     bindE (collate batch_data) (\<lambda>(batch_real, _).
     bindE (train_step L cfg epoch batch_real (dr (iters s)) s) (run_batches L cfg epoch get dr rest)))"

fun run_epochs ::
  "('g, 'd, 'og, 'od) lib \<Rightarrow> gan_config \<Rightarrow> train_data \<Rightarrow> nat list \<Rightarrow>
   ('g, 'd, 'og, 'od) gan_state \<Rightarrow> error + ('g, 'd, 'og, 'od) gan_state" where
  "run_epochs L cfg D [] s = Inr s"
| "run_epochs L cfg D (epoch # epochs) s =
     bindE (run_batches L cfg epoch (fetch D epoch) (draws D) (dataloader (batch_size cfg) (orders D epoch)) s)
       (run_epochs L cfg D epochs)"

definition train_gan ::
  "('g, 'd, 'og, 'od) lib \<Rightarrow> gan_config \<Rightarrow> train_data \<Rightarrow> ('g, 'd, 'og, 'od) gan_state \<Rightarrow>
   error + ('g, 'd, 'og, 'od) gan_state" where
  "train_gan L cfg D s =
     (if n_items D = 0 \<or> batch_size cfg = 0 then Inl LoaderValueError
      else run_epochs L cfg D [0..<num_epochs cfg]
             (s\<lparr>G_losses := [], D_losses := [], iters := 0, gen_training := True, dis_training := True\<rparr>))"

text \<open>\<open>GAN.__init__\<close>: the device and dtype, fresh networks \<open>g0\<close>, \<open>d0\<close> (moving
  them to the device keeps their values) and Adam optimizers built from the
  learning rate and the betas; a new module is in training mode and has no
  gradients.\<close>

definition gan_init ::
  "device \<Rightarrow> 'g \<Rightarrow> 'd \<Rightarrow> (real \<Rightarrow> real \<times> real \<Rightarrow> 'og) \<Rightarrow> (real \<Rightarrow> real \<times> real \<Rightarrow> 'od) \<Rightarrow>
   gan_config \<times> ('g, 'd, 'og, 'od) gan_state" where
  "gan_init dev g0 d0 adamG adamD =
     (let cfg = gan_hyperparameters in
      (cfg, \<lparr>device = dev, dtype = Float32, gen_w = g0, dis_w = d0,
             optimizerG = adamG (lr cfg) (beta1 cfg, beta2 cfg),
             optimizerD = adamD (lr cfg) (beta1 cfg, beta2 cfg),
             gen_training = True, dis_training = True, grad_G = [], grad_D = [], graphs = [],
             G_losses = [], D_losses = [], iters = 0, trace = []\<rparr>))"

definition item_shaped :: "nat \<Rightarrow> nat \<Rightarrow> sample \<times> nat \<Rightarrow> bool" where
  "item_shaped c p it \<longleftrightarrow> length (fst it) = c \<and> list_all (\<lambda>q. length q = p) (fst it)"

definition item_ok :: "nat \<Rightarrow> nat \<Rightarrow> error + sample \<times> nat \<Rightarrow> bool" where
  "item_ok c p r = (case r of Inl _ \<Rightarrow> False | Inr it \<Rightarrow> item_shaped c p it)"

fun opt_steps :: "event list \<Rightarrow> (net \<times> contrib list) list" where
  "opt_steps [] = []"
| "opt_steps (Step n g # es) = (n, g) # opt_steps es"
| "opt_steps (_ # es) = opt_steps es"

fun printed :: "event list \<Rightarrow> (nat \<times> nat) list" where
  "printed [] = []"
| "printed (Print e _ i _ _ # es) = (e, i) # printed es"
| "printed (_ # es) = printed es"

text \<open>A dataset of four equal images for the witnesses.\<close>

definition demo_data :: "nat \<Rightarrow> train_data" where
  "demo_data n = \<lparr>n_items = n, fetch = (\<lambda>ep i. Inr ([[1, 2]], 0)), orders = (\<lambda>ep. [0..<n]),
                  draws = (\<lambda>k. demo_draw)\<rparr>"

subsection \<open>Runs of the loop\<close>


lemma opt_steps_append [simp]: "opt_steps (xs @ ys) = opt_steps xs @ opt_steps ys"
  by (induction xs rule: opt_steps.induct) simp_all

lemma printed_append [simp]: "printed (xs @ ys) = printed xs @ printed ys"
  by (induction xs rule: printed.induct) simp_all

lemma fetch_batch:
  "list_all (\<lambda>i. item_ok c p (get i)) ch \<Longrightarrow>
   \<exists>its. mapE get ch = Inr its \<and> length its = length ch \<and> list_all (item_shaped c p) its"
proof (induction ch)
  case Nil
  then show ?case by simp
next
  case (Cons i ch)
  then obtain it where it: "get i = Inr it" "item_shaped c p it"
    by (auto simp: item_ok_def split: sum.splits)
  from Cons obtain its where "mapE get ch = Inr its" "length its = length ch" "list_all (item_shaped c p) its"
    by auto
  with it show ?case by (intro exI [of _ "it # its"]) simp
qed

lemma collate_full:
  "length ch = b \<Longrightarrow> list_all (item_shaped c p) ch \<Longrightarrow>
   collate ch = Inr (map fst ch, map snd ch) \<and> shaped b c p (map fst ch)"
proof -
  assume a: "length ch = b" "list_all (item_shaped c p) ch"
  then have sh: "shaped b c p (map fst ch)"
    by (simp add: shaped_def item_shaped_def list_all_iff)
  then show ?thesis by (simp add: collate_def shaped_same_sample_shape)
qed

lemma run_batches_ok:
  assumes full: "\<forall>ch\<in>set chs. length ch = b \<and> list_all (\<lambda>i. item_ok c p (get i)) ch"
    and masks: "\<And>k. \<exists>mp. select_mask (pick (dr k)) (regular (dr k)) (irregular (dr k)) = [[mp]] \<and> length mp = p"
    and bs: "batch_size cfg = b" "0 < b"
    and gen: "\<And>w x m. shaped b c p x \<Longrightarrow>
                shaped b c p (fst (gen_fwd L w x m)) \<and> shaped b c p (fst (snd (gen_fwd L w x m)))"
    and dis: "\<And>w t. length (dis_fwd L w t) = length t"
  shows "\<exists>s'. run_batches L cfg ep get dr chs s = Inr s' \<and> iters s' = iters s + length chs \<and>
     length (G_losses s') = length (G_losses s) + length chs \<and>
     length (D_losses s') = length (D_losses s) + length chs \<and>
     opt_steps (trace s') = opt_steps (trace s) @ concat (map (\<lambda>k. [(Dis, [(DLoss, k)]), (Gen, [(GLoss, k)])]) [iters s..<iters s + length chs]) \<and>
     printed (trace s') = printed (trace s) @ map (\<lambda>k. (Suc ep, Suc k)) [iters s..<iters s + length chs]"
  using full
proof (induction chs arbitrary: s)
  case Nil
  then show ?case by simp
next
  case (Cons ch chs)
  from Cons.prems obtain its where its: "mapE get ch = Inr its" "length its = b" "list_all (item_shaped c p) its"
    using fetch_batch [of c p get ch] by auto
  have c: "collate its = Inr (map fst its, map snd its)" "shaped b c p (map fst its)"
    using collate_full [OF its(2,3)] by auto
  obtain mp where mp: "select_mask (pick (dr (iters s))) (regular (dr (iters s))) (irregular (dr (iters s))) = [[mp]]"
      "length mp = p"
    using masks by blast
  obtain s1 g d where s1: "train_step L cfg ep (map fst its) (dr (iters s)) s = Inr s1"
      "iters s1 = Suc (iters s)" "G_losses s1 = G_losses s @ [g]" "D_losses s1 = D_losses s @ [d]"
      "trace s1 = trace s @
      [ZeroGrad Dis, Forward (GenFwd (iters s)), Forward (DisMixed (iters s)), Backward (DLoss, iters s),
       Step Dis [(DLoss, iters s)], ZeroGrad Gen, Forward (DisFake (iters s)), Backward (GLoss, iters s),
       Step Gen [(GLoss, iters s)], Print (Suc ep) (num_epochs cfg) (Suc (iters s)) g d]"
    using train_step_ok [OF c(2) mp bs gen dis] by blast
  from Cons.prems have "\<forall>ch\<in>set chs. length ch = b \<and> list_all (\<lambda>i. item_ok c p (get i)) ch" by simp
  from Cons.IH [OF this, of s1] obtain s' where s': "run_batches L cfg ep get dr chs s1 = Inr s'"
      "iters s' = iters s1 + length chs"
      "length (G_losses s') = length (G_losses s1) + length chs"
      "length (D_losses s') = length (D_losses s1) + length chs"
      "opt_steps (trace s') = opt_steps (trace s1) @ concat (map (\<lambda>k. [(Dis, [(DLoss, k)]), (Gen, [(GLoss, k)])]) [iters s1..<iters s1 + length chs])"
      "printed (trace s') = printed (trace s1) @ map (\<lambda>k. (Suc ep, Suc k)) [iters s1..<iters s1 + length chs]"
    by blast
  have up: "[iters s..<iters s + length (ch # chs)] = iters s # [Suc (iters s)..<Suc (iters s) + length chs]"
  proof -
    have e: "iters s + length (ch # chs) = Suc (iters s) + length chs" by simp
    show ?thesis unfolding e by (rule upt_conv_Cons) simp
  qed
  show ?case
    unfolding up using its(1) c(1) s1 s' by (simp del: upt_Suc)
qed

lemma dataloader_items:
  "\<forall>i\<in>set order. item_ok c p (get i) \<Longrightarrow> ch \<in> set (dataloader b order) \<Longrightarrow>
   list_all (\<lambda>i. item_ok c p (get i)) ch"
  using chunks_subset [of ch b order] by (auto simp: dataloader_def list_all_iff)

lemma dataloader_full:
  assumes "0 < b" "b dvd length order" "\<forall>i\<in>set order. item_ok c p (get i)"
  shows "\<forall>ch\<in>set (dataloader b order). length ch = b \<and> list_all (\<lambda>i. item_ok c p (get i)) ch"
    and "length (dataloader b order) = length order div b"
proof -
  show "\<forall>ch\<in>set (dataloader b order). length ch = b \<and> list_all (\<lambda>i. item_ok c p (get i)) ch"
    using assms(2) chunks_dvd_all_full [of b order] dataloader_items [OF assms(3)]
    by (simp add: dataloader_def)
  show "length (dataloader b order) = length order div b"
    using assms(1,2) ceil_div_dvd [OF assms(1,2)] by (simp add: dataloader_def length_chunks)
qed

lemma run_epochs_ok:
  assumes full: "\<forall>ep\<in>set eps. (\<forall>ch\<in>set (dataloader b (orders D ep)).
                       length ch = b \<and> list_all (\<lambda>i. item_ok c p (fetch D ep i)) ch) \<and>
                     length (dataloader b (orders D ep)) = nb"
    and masks: "\<And>k. \<exists>mp. select_mask (pick (draws D k)) (regular (draws D k)) (irregular (draws D k)) = [[mp]] \<and>
                         length mp = p"
    and bs: "batch_size cfg = b" "0 < b"
    and gen: "\<And>w x m. shaped b c p x \<Longrightarrow>
                shaped b c p (fst (gen_fwd L w x m)) \<and> shaped b c p (fst (snd (gen_fwd L w x m)))"
    and dis: "\<And>w t. length (dis_fwd L w t) = length t"
  shows "\<exists>s'. run_epochs L cfg D eps s = Inr s' \<and> iters s' = iters s + length eps * nb \<and>
     length (G_losses s') = length (G_losses s) + length eps * nb \<and>
     length (D_losses s') = length (D_losses s) + length eps * nb \<and>
     opt_steps (trace s') = opt_steps (trace s) @
       concat (map (\<lambda>k. [(Dis, [(DLoss, k)]), (Gen, [(GLoss, k)])]) [iters s..<iters s + length eps * nb]) \<and>
     map snd (printed (trace s')) = map snd (printed (trace s)) @ map Suc [iters s..<iters s + length eps * nb] \<and>
     map fst (printed (trace s')) = map fst (printed (trace s)) @ concat (map (\<lambda>ep. replicate nb (Suc ep)) eps)"
  using full
proof (induction eps arbitrary: s)
  case Nil
  then show ?case by simp
next
  case (Cons ep eps)
  let ?chs = "dataloader b (orders D ep)"
  from Cons.prems have f: "\<forall>ch\<in>set ?chs. length ch = b \<and> list_all (\<lambda>i. item_ok c p (fetch D ep i)) ch"
      "length ?chs = nb"
    by simp_all
  obtain s1 where s1: "run_batches L cfg ep (fetch D ep) (draws D) ?chs s = Inr s1" "iters s1 = iters s + nb"
      "length (G_losses s1) = length (G_losses s) + nb" "length (D_losses s1) = length (D_losses s) + nb"
      "opt_steps (trace s1) = opt_steps (trace s) @
         concat (map (\<lambda>k. [(Dis, [(DLoss, k)]), (Gen, [(GLoss, k)])]) [iters s..<iters s + nb])"
      "printed (trace s1) = printed (trace s) @ map (\<lambda>k. (Suc ep, Suc k)) [iters s..<iters s + nb]"
    using run_batches_ok [where dr = "draws D" and ep = ep and s = s, OF f(1) masks bs gen dis] unfolding f(2) by blast
  from Cons.prems have "\<forall>ep\<in>set eps. (\<forall>ch\<in>set (dataloader b (orders D ep)).
        length ch = b \<and> list_all (\<lambda>i. item_ok c p (fetch D ep i)) ch) \<and> length (dataloader b (orders D ep)) = nb"
    by simp
  from Cons.IH [OF this, of s1] obtain s' where s': "run_epochs L cfg D eps s1 = Inr s'"
      "iters s' = iters s1 + length eps * nb"
      "length (G_losses s') = length (G_losses s1) + length eps * nb"
      "length (D_losses s') = length (D_losses s1) + length eps * nb"
      "opt_steps (trace s') = opt_steps (trace s1) @
         concat (map (\<lambda>k. [(Dis, [(DLoss, k)]), (Gen, [(GLoss, k)])]) [iters s1..<iters s1 + length eps * nb])"
      "map snd (printed (trace s')) = map snd (printed (trace s1)) @ map Suc [iters s1..<iters s1 + length eps * nb]"
      "map fst (printed (trace s')) = map fst (printed (trace s1)) @ concat (map (\<lambda>ep. replicate nb (Suc ep)) eps)"
    by blast
  have up: "[iters s..<iters s + length (ep # eps) * nb] =
            [iters s..<iters s + nb] @ [iters s + nb..<iters s + nb + length eps * nb]"
    using upt_add_eq_append [of "iters s" "iters s + nb" "length eps * nb"] by (simp add: add.assoc)
  have fsts: "map fst (map (\<lambda>k. (Suc ep, Suc k)) [iters s..<iters s + nb]) = replicate nb (Suc ep)"
  proof -
    have "map fst (map (\<lambda>k. (Suc ep, Suc k)) [iters s..<iters s + nb]) = map (\<lambda>k. Suc ep) [iters s..<iters s + nb]"
      by simp
    also have "\<dots> = replicate nb (Suc ep)" by (simp add: map_replicate_const)
    finally show ?thesis .
  qed
  show ?case
    unfolding up using s1 s' fsts bs(1) by (simp add: add.assoc o_def)
qed

lemma run_batches_append:
  "run_batches L cfg ep get dr (xs @ ys) s = bindE (run_batches L cfg ep get dr xs s) (run_batches L cfg ep get dr ys)"
proof (induction xs arbitrary: s)
  case Nil
  then show ?case by simp
next
  case (Cons x xs)
  then show ?case by (simp add: bindE_def split: sum.split prod.split)
qed

lemma dataloader_last_partial:
  assumes b: "0 < b" and nd: "\<not> b dvd length order" and items: "\<forall>i\<in>set order. item_ok c p (get i)"
  shows "\<exists>full last. dataloader b order = full @ [last] \<and>
           (\<forall>ch\<in>set full. length ch = b \<and> list_all (\<lambda>i. item_ok c p (get i)) ch) \<and>
           0 < length last \<and> length last \<noteq> b \<and> list_all (\<lambda>i. item_ok c p (get i)) last"
proof -
  let ?q = "length order div b"
  let ?ys = "take (b * ?q) order" and ?zs = "drop (b * ?q) order"
  have lys: "length ?ys = b * ?q" by (simp add: mult.commute)
  have lzs: "length ?zs = length order mod b" by (simp add: minus_div_mult_eq_mod [symmetric] mult.commute)
  have zpos: "0 < length ?zs" "length ?zs < b" using lzs nd b by (auto simp: dvd_eq_mod_eq_0)
  have split: "dataloader b order = chunks b ?ys @ [?zs]"
    using chunks_append_mult [OF lys b, of ?zs] chunks_short [of ?zs b] zpos
    by (simp add: dataloader_def)
  have all: "\<And>ch. ch \<in> set (dataloader b order) \<Longrightarrow> list_all (\<lambda>i. item_ok c p (get i)) ch"
    by (rule dataloader_items [OF items])
  have full: "\<forall>ch\<in>set (chunks b ?ys). length ch = b \<and> list_all (\<lambda>i. item_ok c p (get i)) ch"
  proof
    fix ch assume ch: "ch \<in> set (chunks b ?ys)"
    then have "length ch = b" using chunks_dvd_all_full [of b ?ys ch] lys by simp
    moreover have "ch \<in> set (dataloader b order)" using ch split by simp
    ultimately show "length ch = b \<and> list_all (\<lambda>i. item_ok c p (get i)) ch" using all by blast
  qed
  have "?zs \<in> set (dataloader b order)" using split by simp
  then have zl: "list_all (\<lambda>i. item_ok c p (get i)) ?zs" by (rule all)
  have ne: "length ?zs \<noteq> b" using zpos(2) by simp
  show ?thesis
    by (intro exI [of _ "chunks b ?ys"] exI [of _ ?zs] conjI split full zpos(1) ne zl)
qed

lemma train_gan_run:
  assumes bs: "batch_size cfg = b" "0 < b" "b dvd n_items D"
    and ord: "\<forall>ep<num_epochs cfg. length (orders D ep) = n_items D"
    and items: "\<forall>ep<num_epochs cfg. \<forall>i\<in>set (orders D ep). item_ok c p (fetch D ep i)"
    and masks: "\<And>k. \<exists>mp. select_mask (pick (draws D k)) (regular (draws D k)) (irregular (draws D k)) = [[mp]] \<and>
                         length mp = p"
    and gen: "\<And>w x m. shaped b c p x \<Longrightarrow>
                shaped b c p (fst (gen_fwd L w x m)) \<and> shaped b c p (fst (snd (gen_fwd L w x m)))"
    and dis: "\<And>w t. length (dis_fwd L w t) = length t"
    and ne: "0 < n_items D"
  shows "\<exists>s'. train_gan L cfg D s = Inr s' \<and> iters s' = num_epochs cfg * (n_items D div b) \<and>
     length (G_losses s') = iters s' \<and> length (D_losses s') = iters s' \<and>
     opt_steps (trace s') = opt_steps (trace s) @
       concat (map (\<lambda>k. [(Dis, [(DLoss, k)]), (Gen, [(GLoss, k)])]) [0..<iters s']) \<and>
     map snd (printed (trace s')) = map snd (printed (trace s)) @ [1..<Suc (iters s')] \<and>
     map fst (printed (trace s')) = map fst (printed (trace s)) @
       concat (map (\<lambda>ep. replicate (n_items D div b) (Suc ep)) [0..<num_epochs cfg])"
proof -
  let ?nb = "n_items D div b"
  let ?s0 = "s\<lparr>G_losses := [], D_losses := [], iters := 0, gen_training := True, dis_training := True\<rparr>"
  have full: "\<forall>ep\<in>set [0..<num_epochs cfg]. (\<forall>ch\<in>set (dataloader b (orders D ep)).
        length ch = b \<and> list_all (\<lambda>i. item_ok c p (fetch D ep i)) ch) \<and> length (dataloader b (orders D ep)) = ?nb"
  proof
    fix ep assume ep: "ep \<in> set [0..<num_epochs cfg]"
    then have len: "length (orders D ep) = n_items D" using ord by simp
    then have "b dvd length (orders D ep)" using bs(3) by simp
    moreover have "\<forall>i\<in>set (orders D ep). item_ok c p (fetch D ep i)" using items ep by simp
    ultimately have "\<forall>ch\<in>set (dataloader b (orders D ep)). length ch = b \<and> list_all (\<lambda>i. item_ok c p (fetch D ep i)) ch"
        "length (dataloader b (orders D ep)) = length (orders D ep) div b"
      using dataloader_full [OF bs(2)] by blast+
    with len show "(\<forall>ch\<in>set (dataloader b (orders D ep)). length ch = b \<and> list_all (\<lambda>i. item_ok c p (fetch D ep i)) ch) \<and>
        length (dataloader b (orders D ep)) = ?nb" by simp
  qed
  obtain s' where s': "run_epochs L cfg D [0..<num_epochs cfg] ?s0 = Inr s'"
      "iters s' = iters ?s0 + length [0..<num_epochs cfg] * ?nb"
      "length (G_losses s') = length (G_losses ?s0) + length [0..<num_epochs cfg] * ?nb"
      "length (D_losses s') = length (D_losses ?s0) + length [0..<num_epochs cfg] * ?nb"
      "opt_steps (trace s') = opt_steps (trace ?s0) @
         concat (map (\<lambda>k. [(Dis, [(DLoss, k)]), (Gen, [(GLoss, k)])])
           [iters ?s0..<iters ?s0 + length [0..<num_epochs cfg] * ?nb])"
      "map snd (printed (trace s')) = map snd (printed (trace ?s0)) @
         map Suc [iters ?s0..<iters ?s0 + length [0..<num_epochs cfg] * ?nb]"
      "map fst (printed (trace s')) = map fst (printed (trace ?s0)) @
         concat (map (\<lambda>ep. replicate ?nb (Suc ep)) [0..<num_epochs cfg])"
    using run_epochs_ok [OF full masks bs(1,2) gen dis, of ?s0] by blast
  then show ?thesis using ne bs(1,2) by (simp add: train_gan_def map_Suc_upt)
qed

lemma train_gan_fails:
  assumes bs: "batch_size cfg = b" "0 < b" "\<not> b dvd n_items D" "0 < num_epochs cfg"
    and ord: "\<forall>ep<num_epochs cfg. length (orders D ep) = n_items D"
    and items: "\<forall>ep<num_epochs cfg. \<forall>i\<in>set (orders D ep). item_ok c p (fetch D ep i)"
    and masks: "\<And>k. \<exists>mp. select_mask (pick (draws D k)) (regular (draws D k)) (irregular (draws D k)) = [[mp]] \<and>
                         length mp = p"
    and gen: "\<And>n w x m. shaped n c p x \<Longrightarrow>
                shaped n c p (fst (gen_fwd L w x m)) \<and> shaped n c p (fst (snd (gen_fwd L w x m)))"
    and dis: "\<And>w t. length (dis_fwd L w t) = length t"
  shows "train_gan L cfg D s = Inl ShapeMismatch"
proof -
  let ?s0 = "s\<lparr>G_losses := [], D_losses := [], iters := 0, gen_training := True, dis_training := True\<rparr>"
  have "\<not> b dvd length (orders D 0)" using ord bs(3,4) by simp
  moreover have "\<forall>i\<in>set (orders D 0). item_ok c p (fetch D 0 i)" using items bs(4) by simp
  ultimately obtain full last where dl: "dataloader b (orders D 0) = full @ [last]"
      and f: "\<forall>ch\<in>set full. length ch = b \<and> list_all (\<lambda>i. item_ok c p (fetch D 0 i)) ch"
      and l: "0 < length last" "length last \<noteq> b" "list_all (\<lambda>i. item_ok c p (fetch D 0 i)) last"
    using dataloader_last_partial [OF bs(2)] by blast
  obtain s1 where s1: "run_batches L cfg 0 (fetch D 0) (draws D) full ?s0 = Inr s1"
    using run_batches_ok [where dr = "draws D" and ep = 0 and s = ?s0, OF f masks bs(1,2) gen [where n = b] dis] by blast
  obtain its where its: "mapE (fetch D 0) last = Inr its" "length its = length last" "list_all (item_shaped c p) its"
    using fetch_batch [OF l(3)] by blast
  have c: "collate its = Inr (map fst its, map snd its)" "shaped (length its) c p (map fst its)"
    using collate_full [OF refl its(3)] by simp_all
  obtain mp where mp: "select_mask (pick (draws D (iters s1))) (regular (draws D (iters s1)))
      (irregular (draws D (iters s1))) = [[mp]]" "length mp = p"
    using masks by blast
  have neq: "batch_size cfg \<noteq> length its" and pos: "0 < batch_size cfg" using bs(1,2) l(2) its(2) by simp_all
  have g2: "\<And>w x m. shaped (length its) c p x \<Longrightarrow> shaped (length its) c p (fst (snd (gen_fwd L w x m)))"
    using gen by blast
  have "train_step L cfg 0 (map fst its) (draws D (iters s1)) s1 = Inl ShapeMismatch"
    by (rule train_step_mismatch [OF c(2) mp neq pos g2])
  then have "run_batches L cfg 0 (fetch D 0) (draws D) [last] s1 = Inl ShapeMismatch"
    using its(1) c(1) by simp
  then have "run_batches L cfg 0 (fetch D 0) (draws D) (dataloader (batch_size cfg) (orders D 0)) ?s0 = Inl ShapeMismatch"
    using dl s1 bs(1) by (simp add: run_batches_append)
  moreover have "[0..<num_epochs cfg] = 0 # [1..<num_epochs cfg]" using bs(4) by (simp add: upt_conv_Cons)
  moreover have "n_items D \<noteq> 0" using bs(3) by (metis dvd_0_right)
  ultimately show ?thesis using bs(1,2) by (simp add: train_gan_def)
qed

lemma demo_data_items:
  "\<forall>ep<num_epochs gan_hyperparameters. \<forall>i\<in>set (orders (demo_data n) ep). item_ok 1 2 (fetch (demo_data n) ep i)"
  by (simp add: demo_data_def item_ok_def item_shaped_def)

text \<open>Claim C1: when \<open>batch_size\<close> divides the dataset size (and the networks
  keep the batch shape), \<open>train_gan\<close> returns after
  \<open>num_epochs * (size div batch_size)\<close> iterations, with one logged generator
  loss and one logged discriminator loss per iteration; the optimizer steps
  alternate discriminator then generator, each receiving exactly the gradient
  of its own loss of that iteration; and the printed iteration numbers run
  1, 2, ... across epochs (the global counter, not the per-epoch index \<open>i\<close>),
  each epoch printed as often as it has batches.\<close>

theorem train_gan_ok:
  assumes bs: "batch_size cfg = b" "0 < b" "b dvd n_items D"
    and ord: "\<forall>ep<num_epochs cfg. length (orders D ep) = n_items D"
    and items: "\<forall>ep<num_epochs cfg. \<forall>i\<in>set (orders D ep). item_ok c p (fetch D ep i)"
    and masks: "\<And>k. \<exists>mp. select_mask (pick (draws D k)) (regular (draws D k)) (irregular (draws D k)) = [[mp]] \<and>
                         length mp = p"
    and gen: "\<And>w x m. shaped b c p x \<Longrightarrow>
                shaped b c p (fst (gen_fwd L w x m)) \<and> shaped b c p (fst (snd (gen_fwd L w x m)))"
    and dis: "\<And>w t. length (dis_fwd L w t) = length t"
    and ne: "0 < n_items D"
  shows "\<exists>s'. train_gan L cfg D s = Inr s' \<and> iters s' = num_epochs cfg * (n_items D div b) \<and>
     length (G_losses s') = iters s' \<and> length (D_losses s') = iters s' \<and>
     opt_steps (trace s') = opt_steps (trace s) @
       concat (map (\<lambda>k. [(Dis, [(DLoss, k)]), (Gen, [(GLoss, k)])]) [0..<iters s']) \<and>
     map snd (printed (trace s')) = map snd (printed (trace s)) @ [1..<Suc (iters s')] \<and>
     map fst (printed (trace s')) = map fst (printed (trace s)) @
       concat (map (\<lambda>ep. replicate (n_items D div b) (Suc ep)) [0..<num_epochs cfg])"
  using assms by (rule train_gan_run)

theorem train_gan_ok_witness:
  "\<exists>s'. train_gan demo_lib gan_hyperparameters (demo_data 4) demo_state = Inr s' \<and>
     iters s' = num_epochs gan_hyperparameters * (n_items (demo_data 4) div 4) \<and>
     length (G_losses s') = iters s' \<and> length (D_losses s') = iters s' \<and>
     opt_steps (trace s') = opt_steps (trace demo_state) @
       concat (map (\<lambda>k. [(Dis, [(DLoss, k)]), (Gen, [(GLoss, k)])]) [0..<iters s']) \<and>
     map snd (printed (trace s')) = map snd (printed (trace demo_state)) @ [1..<Suc (iters s')] \<and>
     map fst (printed (trace s')) = map fst (printed (trace demo_state)) @
       concat (map (\<lambda>ep. replicate (n_items (demo_data 4) div 4) (Suc ep)) [0..<num_epochs gan_hyperparameters])"
proof -
  have bs: "batch_size gan_hyperparameters = 4" "0 < (4::nat)" "4 dvd n_items (demo_data 4)"
    by (simp_all add: gan_hyperparameters_def demo_data_def)
  have ord: "\<forall>ep<num_epochs gan_hyperparameters. length (orders (demo_data 4) ep) = n_items (demo_data 4)"
    by (simp add: demo_data_def)
  have items: "\<forall>ep<num_epochs gan_hyperparameters. \<forall>i\<in>set (orders (demo_data 4) ep).
      item_ok 1 2 (fetch (demo_data 4) ep i)"
    by (rule demo_data_items)
  have masks: "\<And>k. \<exists>mp. select_mask (pick (draws (demo_data 4) k)) (regular (draws (demo_data 4) k))
      (irregular (draws (demo_data 4) k)) = [[mp]] \<and> length mp = 2"
    by (simp add: demo_data_def demo_draw_def select_mask_def)
  have gen: "\<And>w x m. shaped 4 1 2 x \<Longrightarrow>
      shaped 4 1 2 (fst (gen_fwd demo_lib w x m)) \<and> shaped 4 1 2 (fst (snd (gen_fwd demo_lib w x m)))"
    by (simp add: demo_lib_def)
  have dis: "\<And>w t. length (dis_fwd demo_lib w t) = length t"
    by (simp add: demo_lib_def)
  have ne: "0 < n_items (demo_data 4)" by (simp add: demo_data_def)
  show ?thesis by (rule train_gan_ok [OF bs ord items masks gen dis ne])
qed

end
