(* ===== verification/OpsData.thy ===== *)
theory OpsData
  imports TrainLoop "HOL-Library.Word" "HOL-Library.Multiset" "HOL-Library.List_Lexorder" "HOL-Library.Char_ord"
begin

text \<open>
  \<open>src/ops_data.py\<close>: loading an image folder (\<open>import_data\<close>), the
  transform pipeline \<open>preprocess\<close> installs, the dataset access the
  \<open>DataLoader\<close> of \<open>GAN.train_gan\<close> performs, and the saving and loading of
  the generator's weights (\<open>export_model\<close>, \<open>import_model\<close>).  The library
  calls are modelled by what torchvision and PyTorch do: \<open>RandomCrop\<close>
  (raises when the image is smaller than the crop, else cuts a window at a
  random offset), \<open>ToTensor\<close> (bytes \<open>HWC\<close> to reals \<open>CHW\<close> divided by 255),
  \<open>Normalize\<close> (per channel \<open>(x - mean) / std\<close>), \<open>ImageFolder\<close> (one
  class per subdirectory, in sorted order), \<open>torch.save\<close>/\<open>torch.load\<close> (a
  store from paths to saved state dicts) and the strict \<open>load_state_dict\<close>.
  Pixels are RGB triples of \<open>8 word\<close>s, an image a list of rows.
\<close>

type_synonym rgb = "8 word \<times> 8 word \<times> 8 word"
type_synonym pil_image = "rgb list list"

definition img_width :: "pil_image \<Rightarrow> nat" where
  "img_width img = (case img of [] \<Rightarrow> 0 | row # _ \<Rightarrow> length row)"

definition rect :: "pil_image \<Rightarrow> bool" where
  "rect img \<longleftrightarrow> list_all (\<lambda>row. length row = img_width img) img"

definition chan :: "nat \<Rightarrow> rgb \<Rightarrow> 8 word" where
  "chan k px = (if k = 0 then fst px else if k = 1 then fst (snd px) else snd (snd px))"

text \<open>\<open>transforms.RandomCrop(size)\<close> with \<open>get_params\<close>: a ValueError when
  the image is smaller than the crop; otherwise the top and left offsets
  \<open>torch.randint(0, h - image_size + 1)\<close> and \<open>torch.randint(0, w - image_size + 1)\<close>, given
  here by the random draws \<open>draw\<close> reduced into that range (for an image of the
  crop's size both are 0, the shortcut of \<open>get_params\<close>).\<close>

definition random_crop :: "nat \<Rightarrow> nat \<times> nat \<Rightarrow> pil_image \<Rightarrow> error + pil_image" where
  "random_crop image_size draw img =
     (let h = length img; w = img_width img in
      if h < image_size \<or> w < image_size then Inl CropTooLarge
      else let i = fst draw mod (h - image_size + 1); j = snd draw mod (w - image_size + 1)
           in Inr (map (\<lambda>row. take image_size (drop j row)) (take image_size (drop i img))))"

text \<open>\<open>transforms.ToTensor()\<close> on an RGB image: channel \<open>k\<close> becomes a plane
  of the row-major pixels, each byte divided by 255.\<close>

definition to_tensor :: "pil_image \<Rightarrow> sample" where
  "to_tensor img = map (\<lambda>k. concat (map (map (\<lambda>px. real (unat (chan k px)) / 255)) img)) [0..<3]"

text \<open>\<open>transforms.Normalize(mean, std)\<close> (\<open>F.normalize\<close>): a ValueError when a
  standard deviation is 0; \<open>mean\<close> and \<open>std\<close> are viewed as \<open>(-1, 1, 1)\<close>
  and broadcast over the channels, so each has one entry or one per channel.\<close>

definition chan_param :: "real list \<Rightarrow> nat \<Rightarrow> real" where
  "chan_param xs k = (if length xs = 1 then hd xs else xs ! k)"

definition normalize_tensor :: "real list \<Rightarrow> real list \<Rightarrow> sample \<Rightarrow> error + sample" where
  "normalize_tensor mu sd t =
     (if 0 \<in> set sd then Inl ZeroStd
      else if (length mu = 1 \<or> length mu = length t) \<and> (length sd = 1 \<or> length sd = length t)
      then Inr (map (\<lambda>k. map (\<lambda>x. (x - chan_param mu k) / chan_param sd k) (t ! k)) [0..<length t])
      else Inl ShapeMismatch)"

text \<open>The \<open>transforms.Compose\<close> that \<open>preprocess\<close> installs (lines 15--19).\<close>

definition preprocess_transform :: "nat \<Rightarrow> nat \<times> nat \<Rightarrow> pil_image \<Rightarrow> error + sample" where
  "preprocess_transform image_size draw img =
     bindE (random_crop image_size draw img) (\<lambda>c.
     normalize_tensor [1/2, 1/2, 1/2] [1/2, 1/2, 1/2] (to_tensor c))"

text \<open>Reading an image back from a preprocessed tensor: the inverse of
  \<open>Normalize\<close> and \<open>ToTensor\<close> (\<open>x \<mapsto> (x + 1) / 2 * 255\<close>, rounded to a
  byte), the planes cut into rows of \<open>w\<close> pixels.  Not code of the
  repository: it states that preprocessing keeps every pixel.\<close>

definition byte_of :: "real \<Rightarrow> 8 word" where
  "byte_of x = word_of_nat (nat (round ((x + 1) / 2 * 255)))"

definition from_tensor :: "nat \<Rightarrow> sample \<Rightarrow> pil_image" where
  "from_tensor w t =
     (case t of
        [r, g, b] \<Rightarrow> map (\<lambda>(xs, ys, zs). zip xs (zip ys zs))
                     (zip (chunks w (map byte_of r)) (zip (chunks w (map byte_of g)) (chunks w (map byte_of b))))
      | _ \<Rightarrow> [])"

text \<open>What the pipeline promises, pixel by pixel: for the window at the
  offsets \<open>RandomCrop\<close> draws, channel \<open>k\<close> of the result holds at index
  \<open>q\<close> the byte at row \<open>i + q div size\<close> and column \<open>j + q mod size\<close>, scaled
  to \<open>2 * byte / 255 - 1\<close>.  A specification, not code of the repository.\<close>

definition preprocess_spec :: "nat \<Rightarrow> nat \<times> nat \<Rightarrow> pil_image \<Rightarrow> sample" where
  "preprocess_spec image_size draw img =
     (let i = fst draw mod (length img - image_size + 1); j = snd draw mod (img_width img - image_size + 1)
      in map (\<lambda>k. map (\<lambda>q. 2 * (real (unat (chan k (img ! (i + q div image_size) ! (j + q mod image_size)))) / 255) - 1)
                    [0..<image_size * image_size]) [0..<3])"

text \<open>\<open>import_data\<close> (lines 10--11), \<open>datasets.ImageFolder(root)\<close>: the
  classes are the subdirectories of the root in sorted order, class \<open>k\<close>
  labels the images of the \<open>k\<close>-th of them; a missing root, a root without
  subdirectories, or a class without images raises FileNotFoundError.  A
  folder store maps a root to its subdirectories, each with its images in the
  order \<open>make_dataset\<close> lists them (sorted file names, non-image files
  skipped).\<close>

type_synonym folder_store = "string \<rightharpoonup> (string \<times> pil_image list) list"

record image_folder =
  classes :: "string list"
  samples :: "(pil_image \<times> nat) list"
  transform :: "(nat \<times> nat \<Rightarrow> pil_image \<Rightarrow> error + sample) option"

definition class_files :: "(string \<times> pil_image list) list \<Rightarrow> string \<Rightarrow> pil_image list" where
  "class_files subdirs c = (case map_of subdirs c of Some imgs \<Rightarrow> imgs | None \<Rightarrow> [])"

definition import_data :: "folder_store \<Rightarrow> string \<Rightarrow> error + image_folder" where
  "import_data fs data_root =
     (case fs data_root of
        None \<Rightarrow> Inl FileNotFound
      | Some subdirs \<Rightarrow>
          (let cls = sort (remdups (map fst subdirs)) in
           if cls = [] \<or> \<not> list_all (\<lambda>c. class_files subdirs c \<noteq> []) cls then Inl FileNotFound
           else Inr \<lparr>classes = cls,
                     samples = concat (map (\<lambda>(k, c). map (\<lambda>img. (img, k)) (class_files subdirs c))
                                          (zip [0..<length cls] cls)),
                     transform = None\<rparr>))"

text \<open>\<open>preprocess\<close> (lines 14--19) sets the dataset's transform.\<close>

definition preprocess :: "image_folder \<Rightarrow> nat \<Rightarrow> image_folder" where
  "preprocess dataset image_size = dataset\<lparr>transform := Some (preprocess_transform image_size)\<rparr>"

text \<open>\<open>DatasetFolder.__getitem__\<close>, the access the \<open>DataLoader\<close> of
  \<open>train_gan\<close> makes for each index of a batch: the image and its class, the
  transform applied with this access's random draw.  Without a transform the
  sample is the PIL image itself, which the \<open>DataLoader\<close>'s
  \<open>default_collate\<close> rejects with a TypeError; the model raises it at the
  access.\<close>

definition getitem :: "image_folder \<Rightarrow> nat \<times> nat \<Rightarrow> nat \<Rightarrow> error + sample \<times> nat" where
  "getitem ds draw index =
     (if index < length (samples ds) then
        (case samples ds ! index of
           (img, target) \<Rightarrow>
             (case transform ds of
                None \<Rightarrow> Inl CollateTypeError
              | Some tf \<Rightarrow> bindE (tf draw img) (\<lambda>sample. Inr (sample, target))))
      else Inl IndexOutOfRange)"

text \<open>The dataset as \<open>train_gan\<close>'s loop reads it (line 39): its size, its
  access with the crop draw of each epoch and index, the order the shuffling
  sampler draws for each epoch, and the masks of each iteration.\<close>

definition loader_data ::
  "image_folder \<Rightarrow> (nat \<Rightarrow> nat \<Rightarrow> nat \<times> nat) \<Rightarrow> (nat \<Rightarrow> nat list) \<Rightarrow> (nat \<Rightarrow> mask_draw) \<Rightarrow> train_data" where
  "loader_data ds crops perms masks =
     \<lparr>n_items = length (samples ds), fetch = (\<lambda>ep i. getitem ds (crops ep i) i), orders = perms, draws = masks\<rparr>"

text \<open>\<open>export_model\<close> and \<open>import_model\<close> (lines 22--28).  A state dict is
  an ordered map from parameter names to (shape, values); a model is given by
  its state dict; the file store maps paths to what \<open>torch.save\<close> wrote.
  \<open>load_state_dict\<close> is strict: the names must be the model's and each shape
  the model's, else a RuntimeError; then every parameter takes the saved
  value.  \<open>import_model\<close> builds a fresh \<open>Generator()\<close>, whose state dict is
  the parameter \<open>generator\<close>.\<close>

type_synonym param = "nat list \<times> real list"
type_synonym state_dict = "(string \<times> param) list"
type_synonym file_store = "string \<rightharpoonup> state_dict"

definition export_model :: "state_dict \<Rightarrow> string \<Rightarrow> file_store \<Rightarrow> file_store" where
  "export_model model model_path fs = fs(model_path \<mapsto> model)"

definition torch_load :: "file_store \<Rightarrow> string \<Rightarrow> error + state_dict" where
  "torch_load fs model_path = (case fs model_path of None \<Rightarrow> Inl FileNotFound | Some sd \<Rightarrow> Inr sd)"

definition load_state_dict :: "state_dict \<Rightarrow> state_dict \<Rightarrow> error + state_dict" where
  "load_state_dict model sd =
     (if set (map fst sd) = set (map fst model) \<and>
         list_all (\<lambda>(k, sh, _). case map_of sd k of Some (sh', _) \<Rightarrow> sh' = sh | None \<Rightarrow> False) model
      then Inr (map (\<lambda>(k, v). (k, case map_of sd k of Some v' \<Rightarrow> v' | None \<Rightarrow> v)) model)
      else Inl StateDictMismatch)"

definition import_model :: "state_dict \<Rightarrow> file_store \<Rightarrow> string \<Rightarrow> error + state_dict" where
  "import_model generator fs model_path = bindE (torch_load fs model_path) (load_state_dict generator)"

text \<open>The architecture of a state dict: its names and shapes, in order.\<close>

definition arch :: "state_dict \<Rightarrow> (string \<times> nat list) list" where
  "arch sd = map (\<lambda>(k, sh, _). (k, sh)) sd"

text \<open>Fixtures for the witnesses: a generator with two parameters, trained
  weights of that architecture and weights of a resized one, a folder of two
  classes of 1 x 1 images, and masks of one pixel.\<close>

definition demo_generator :: state_dict where
  "demo_generator = [(''conv.weight'', ([2], [0, 0])), (''conv.bias'', ([1], [0]))]"

definition demo_weights :: state_dict where
  "demo_weights = [(''conv.weight'', ([2], [1/2, -1])), (''conv.bias'', ([1], [3]))]"

definition demo_resized :: state_dict where
  "demo_resized = [(''conv.weight'', ([3], [1, 2, 3])), (''conv.bias'', ([1], [0]))]"

definition demo_folders :: folder_store where
  "demo_folders = [''data'' \<mapsto> [(''faces'', [[[(4, 5, 6)]], [[(7, 8, 9)]]]), (''cars'', [[[(1, 2, 3)]], [[(0, 0, 0)]]])]]"

definition demo_draw1 :: mask_draw where
  "demo_draw1 = \<lparr>regular = [[[1]]], irregular = [[[0]]], pick = Irregular\<rparr>"

definition demo_dataset :: image_folder where
  "demo_dataset =
     \<lparr>classes = [''cars'', ''faces''],
      samples = [([[(1, 2, 3)]], 0), ([[(0, 0, 0)]], 0), ([[(4, 5, 6)]], 1), ([[(7, 8, 9)]], 1)],
      transform = None\<rparr>"

subsection \<open>The transform pipeline\<close>

lemma rect_rows: "rect img \<Longrightarrow> row \<in> set img \<Longrightarrow> length row = img_width img"
  by (simp add: rect_def list_all_iff)

lemma take_drop_length:
  "j \<le> w - k \<Longrightarrow> k \<le> (w :: nat) \<Longrightarrow> length r = w \<Longrightarrow> length (take k (drop j r)) = k"
  by simp

lemma crop_window:
  assumes "rect img" "i \<le> length img - k" "k \<le> length img" "j \<le> img_width img - k" "k \<le> img_width img"
  defines "c \<equiv> map (\<lambda>row. take k (drop j row)) (take k (drop i img))"
  shows "length c = k" "list_all (\<lambda>row. length row = k) c" "set (concat c) \<subseteq> set (concat img)"
proof -
  show "length c = k" using assms(2,3) by (simp add: c_def)
  have "\<And>r. r \<in> set img \<Longrightarrow> length (take k (drop j r)) = k"
    using take_drop_length [OF assms(4,5)] rect_rows [OF assms(1)] by blast
  then show "list_all (\<lambda>row. length row = k) c"
    by (auto simp: c_def list_all_iff dest: in_set_takeD in_set_dropD)
  show "set (concat c) \<subseteq> set (concat img)"
    by (auto simp: c_def dest!: in_set_takeD in_set_dropD)
qed

lemma mod_Suc_le: "x mod Suc n \<le> (n :: nat)"
  using mod_less_divisor [of "Suc n" x] by simp

lemma random_crop_ok:
  assumes "rect img" "image_size \<le> length img" "image_size \<le> img_width img"
  shows "\<exists>c. random_crop image_size draw img = Inr c \<and> length c = image_size \<and>
             list_all (\<lambda>row. length row = image_size) c \<and> set (concat c) \<subseteq> set (concat img)"
proof -
  let ?i = "fst draw mod Suc (length img - image_size)" and ?j = "snd draw mod Suc (img_width img - image_size)"
  note w = crop_window [OF assms(1) mod_Suc_le [of "fst draw"] assms(2) mod_Suc_le [of "snd draw"] assms(3)]
  have "random_crop image_size draw img =
        Inr (map (\<lambda>row. take image_size (drop ?j row)) (take image_size (drop ?i img)))"
    using assms(2,3) by (simp add: random_crop_def Let_def)
  with w show ?thesis by blast
qed

lemma random_crop_err:
  "random_crop image_size draw img = Inl e \<longleftrightarrow> e = CropTooLarge \<and> (length img < image_size \<or> img_width img < image_size)"
  by (auto simp: random_crop_def Let_def)

lemma concat_rows_length:
  "length c = n \<Longrightarrow> list_all (\<lambda>row. length row = m) c \<Longrightarrow> length (concat (map (map f) c)) = n * m"
  by (induction c arbitrary: n) (auto simp: length_concat)

lemma to_tensor_shape:
  assumes "length c = n" "list_all (\<lambda>row. length row = m) c"
  shows "length (to_tensor c) = 3" "list_all (\<lambda>q. length q = n * m) (to_tensor c)"
proof -
  show "length (to_tensor c) = 3" by (simp add: to_tensor_def)
  have len: "\<And>f. length (concat (map (map f) c)) = n * m"
    using concat_rows_length [OF assms] .
  show "list_all (\<lambda>q. length q = n * m) (to_tensor c)" by (simp add: to_tensor_def list_all_iff len)
qed

lemma unat_byte_le: "unat (w :: 8 word) \<le> 255"
  using unsigned_less [of w, where 'a = nat] by simp

lemma real_byte_range: "0 \<le> (unsigned (w :: 8 word) :: real) \<and> (unsigned w :: real) \<le> 255"
proof -
  have "real (unat w) \<le> real 255" using unat_byte_le [of w] by (rule of_nat_mono)
  moreover have "0 \<le> real (unat w)" by (rule of_nat_0_le_iff)
  ultimately show ?thesis by simp
qed

lemma to_tensor_range:
  "q \<in> set (to_tensor c) \<Longrightarrow> x \<in> set q \<Longrightarrow> 0 \<le> x \<and> x \<le> 1"
  using real_byte_range by (auto simp: to_tensor_def)

lemma nth_const3: "i < 3 \<Longrightarrow> [a, a, a] ! i = a"
  by (auto simp: less_Suc_eq nth_Cons')

lemma normalize_half:
  "length t = 3 \<Longrightarrow> normalize_tensor [1/2, 1/2, 1/2] [1/2, 1/2, 1/2] t = Inr (map (map (\<lambda>x. 2 * x - 1)) t)"
  by (auto simp: normalize_tensor_def chan_param_def nth_const3 intro!: nth_equalityI)

lemma preprocess_transform_eq:
  "random_crop image_size draw img = Inr c \<Longrightarrow>
   preprocess_transform image_size draw img = Inr (map (map (\<lambda>x. 2 * x - 1)) (to_tensor c))"
  by (simp add: preprocess_transform_def normalize_half to_tensor_def)

lemma preprocess_transform_ok:
  assumes "rect img" "image_size \<le> length img" "image_size \<le> img_width img"
  shows "\<exists>t. preprocess_transform image_size draw img = Inr t \<and> length t = 3 \<and>
           list_all (\<lambda>q. length q = image_size * image_size) t \<and>
           (\<forall>q\<in>set t. \<forall>x\<in>set q. -1 \<le> x \<and> x \<le> 1)"
proof -
  obtain c where c: "random_crop image_size draw img = Inr c" "length c = image_size"
      "list_all (\<lambda>row. length row = image_size) c"
    using random_crop_ok [OF assms] by blast
  note sh = to_tensor_shape [OF c(2,3)]
  have range: "\<forall>q\<in>set (map (map (\<lambda>x. 2 * x - 1)) (to_tensor c)). \<forall>x\<in>set q. -1 \<le> x \<and> x \<le> 1"
    using to_tensor_range [of _ c] by fastforce
  show ?thesis
    using preprocess_transform_eq [OF c(1)] sh range by (simp add: list_all_iff)
qed

lemma preprocess_transform_err:
  "preprocess_transform image_size draw img = Inl e \<longleftrightarrow>
   e = CropTooLarge \<and> (length img < image_size \<or> img_width img < image_size)"
proof (cases "random_crop image_size draw img")
  case (Inl e')
  then show ?thesis using random_crop_err [of image_size draw img] by (simp add: preprocess_transform_def Inl)
next
  case (Inr c)
  then show ?thesis using random_crop_err [of image_size draw img] by (auto simp: preprocess_transform_eq)
qed

lemma chan_simps:
  "chan 0 px = fst px" "chan 1 px = fst (snd px)" "chan (Suc 0) px = fst (snd px)"
  "chan 2 px = snd (snd px)" "chan (Suc (Suc 0)) px = snd (snd px)"
  by (simp_all add: chan_def)

lemma byte_of_inv: "byte_of (2 * (unsigned (w :: 8 word) :: real) / 255 - 1) = w"
proof -
  have "round (of_nat (unat w) :: real) = int (unat w)" by (rule round_of_nat)
  then have "round (unsigned w :: real) = int (unat w)" by (simp only: of_nat_unat)
  then show ?thesis by (simp add: byte_of_def)
qed

lemma plane_inv:
  "map byte_of (map (\<lambda>x. 2 * x - 1) (concat (map (map (\<lambda>px. real (unat (g px)) / 255)) c))) =
   concat (map (map g) c)"
  by (simp add: map_concat byte_of_inv o_def)

lemma zip_rows:
  "map (\<lambda>(xs, ys, zs). zip xs (zip ys zs))
     (zip (map (map fst) c) (zip (map (map (\<lambda>px. fst (snd px))) c) (map (map (\<lambda>px. snd (snd px))) c))) = c"
proof -
  have row: "\<And>row. zip (map fst row) (zip (map (\<lambda>px. fst (snd px)) row) (map (\<lambda>px. snd (snd px)) row)) = row"
    by (induct_tac row) auto
  show ?thesis by (induction c) (simp_all add: row)
qed

lemma chunks_rows:
  "length c = k \<Longrightarrow> list_all (\<lambda>row. length row = k) c \<Longrightarrow> chunks k (concat (map (map f) c)) = map (map f) c"
  by (cases "k = 0") (simp_all add: chunks_concat list_all_iff)

lemma to_tensor_planes:
  "to_tensor c = [concat (map (map (\<lambda>px. real (unat (fst px)) / 255)) c),
                  concat (map (map (\<lambda>px. real (unat (fst (snd px))) / 255)) c),
                  concat (map (map (\<lambda>px. real (unat (snd (snd px))) / 255)) c)]"
  by (simp add: to_tensor_def upt_rec chan_simps)

text \<open>Claim C9: preprocessing loses no pixel: on a rectangular image, whenever
  the transform pipeline returns a tensor, reading it back (undoing
  \<open>Normalize\<close> and \<open>ToTensor\<close> and rounding to bytes) gives exactly the crop
  that \<open>RandomCrop\<close> cut.\<close>

theorem preprocess_roundtrip:
  assumes "rect img" "preprocess_transform image_size draw img = Inr t"
  shows "\<exists>c. random_crop image_size draw img = Inr c \<and> from_tensor image_size t = c"
proof -
  have "\<not> (length img < image_size \<or> img_width img < image_size)"
    using assms(2) preprocess_transform_err [of image_size draw img] by auto
  then obtain c where c: "random_crop image_size draw img = Inr c" "length c = image_size"
      "list_all (\<lambda>row. length row = image_size) c"
    using random_crop_ok [OF assms(1)] by (meson not_less)
  have t: "t = map (map (\<lambda>x. 2 * x - 1)) (to_tensor c)"
    using assms(2) preprocess_transform_eq [OF c(1)] by simp
  have "from_tensor image_size t = c"
    unfolding t to_tensor_planes
    by (simp only: from_tensor_def list.map list.case plane_inv [where g = fst] plane_inv [where g = "\<lambda>px. fst (snd px)"]
        plane_inv [where g = "\<lambda>px. snd (snd px)"] chunks_rows [OF c(2,3)] zip_rows)
  with c(1) show ?thesis by blast
qed

subsection \<open>Saving and loading the generator\<close>

lemma map_fst_arch [simp]: "map fst (arch sd) = map fst sd"
  by (induction sd) (auto simp: arch_def)

lemma map_of_arch: "map_of (arch sd) k = map_option fst (map_of sd k)"
  by (induction sd) (auto simp: arch_def)

lemma arch_map:
  "(\<And>x. x \<in> set g \<Longrightarrow> fst (F x) = fst x \<and> fst (snd (F x)) = fst (snd x)) \<Longrightarrow> arch (map F g) = arch g"
  by (induction g) (auto simp: arch_def split_def)

lemma map_of_distinct_mem: "distinct (map fst xs) \<Longrightarrow> (k, v) \<in> set xs \<Longrightarrow> map_of xs k = Some v"
  by (simp add: map_of_eq_Some_iff)

text \<open>The guard of \<open>load_state_dict\<close>, for dicts without repeated names,
  says that the saved names and shapes are the model's.\<close>

lemma load_guard_iff:
  assumes dg: "distinct (map fst g)" and ds: "distinct (map fst sd)"
  shows "(set (map fst sd) = set (map fst g) \<and>
          list_all (\<lambda>(k, sh, _). case map_of sd k of Some (sh', _) \<Rightarrow> sh' = sh | None \<Rightarrow> False) g) \<longleftrightarrow>
         map_of (arch sd) = map_of (arch g)"
proof
  assume a: "set (map fst sd) = set (map fst g) \<and>
          list_all (\<lambda>(k, sh, _). case map_of sd k of Some (sh', _) \<Rightarrow> sh' = sh | None \<Rightarrow> False) g"
  show "map_of (arch sd) = map_of (arch g)"
  proof
    fix k
    show "map_of (arch sd) k = map_of (arch g) k"
    proof (cases "map_of g k")
      case None
      then have "k \<notin> set (map fst sd)" using a by (simp add: map_of_eq_None_iff)
      then have "map_of sd k = None" by (simp add: map_of_eq_None_iff)
      with None show ?thesis by (simp add: map_of_arch)
    next
      case (Some p)
      then have "(k, p) \<in> set g" by (rule map_of_SomeD)
      with a have "case map_of sd k of Some (sh', _) \<Rightarrow> sh' = fst p | None \<Rightarrow> False"
        by (cases p) (fastforce simp: list_all_iff)
      then obtain v' where "map_of sd k = Some (fst p, v')"
        by (auto split: option.splits)
      with Some show ?thesis by (simp add: map_of_arch)
    qed
  qed
next
  assume e: "map_of (arch sd) = map_of (arch g)"
  have "dom (map_of (arch sd)) = dom (map_of (arch g))" using e by simp
  then have keys: "set (map fst sd) = set (map fst g)"
    by (metis dom_map_of_conv_image_fst map_fst_arch set_map)
  have "\<And>k sh v. (k, sh, v) \<in> set g \<Longrightarrow> \<exists>v'. map_of sd k = Some (sh, v')"
  proof -
    fix k sh v assume "(k, sh, v) \<in> set g"
    then have "map_of g k = Some (sh, v)" by (rule map_of_distinct_mem [OF dg])
    then have "map_option fst (map_of sd k) = Some sh" using fun_cong [OF e, of k] by (simp add: map_of_arch)
    then show "\<exists>v'. map_of sd k = Some (sh, v')" by auto
  qed
  then have "list_all (\<lambda>(k, sh, _). case map_of sd k of Some (sh', _) \<Rightarrow> sh' = sh | None \<Rightarrow> False) g"
    by (fastforce simp: list_all_iff)
  with keys show "set (map fst sd) = set (map fst g) \<and>
          list_all (\<lambda>(k, sh, _). case map_of sd k of Some (sh', _) \<Rightarrow> sh' = sh | None \<Rightarrow> False) g" by simp
qed

lemma load_state_dict_arch:
  "load_state_dict g sd = Inr m \<Longrightarrow> arch m = arch g"
proof -
  assume l: "load_state_dict g sd = Inr m"
  then have guard: "list_all (\<lambda>(k, sh, _). case map_of sd k of Some (sh', _) \<Rightarrow> sh' = sh | None \<Rightarrow> False) g"
      and m: "m = map (\<lambda>(k, v). (k, case map_of sd k of Some v' \<Rightarrow> v' | None \<Rightarrow> v)) g"
    by (auto simp: load_state_dict_def split: if_splits)
  have "\<And>x. x \<in> set g \<Longrightarrow> fst (snd ((\<lambda>(k, v). (k, case map_of sd k of Some v' \<Rightarrow> v' | None \<Rightarrow> v)) x)) = fst (snd x)"
    using guard by (fastforce simp: list_all_iff split: option.splits)
  then show "arch m = arch g" unfolding m by (intro arch_map) (auto simp: split_def)
qed

lemma load_state_dict_same:
  assumes "map_of (arch sd) = map_of (arch g)" "map fst sd = map fst g" "distinct (map fst sd)"
  shows "load_state_dict g sd = Inr sd"
proof -
  have dg: "distinct (map fst g)" using assms(2,3) by simp
  have guard: "set (map fst sd) = set (map fst g) \<and>
          list_all (\<lambda>(k, sh, _). case map_of sd k of Some (sh', _) \<Rightarrow> sh' = sh | None \<Rightarrow> False) g"
    using load_guard_iff [OF dg assms(3)] assms(1) by simp
  have len: "length g = length sd" using arg_cong [OF assms(2), of length] by simp
  have "map (\<lambda>(k, v). (k, case map_of sd k of Some v' \<Rightarrow> v' | None \<Rightarrow> v)) g = sd"
  proof (rule nth_equalityI)
    show "length (map (\<lambda>(k, v). (k, case map_of sd k of Some v' \<Rightarrow> v' | None \<Rightarrow> v)) g) = length sd" using len by simp
  next
    fix i assume "i < length (map (\<lambda>(k, v). (k, case map_of sd k of Some v' \<Rightarrow> v' | None \<Rightarrow> v)) g)"
    then have i: "i < length sd" "i < length g" using len by simp_all
    have k: "fst (g ! i) = fst (sd ! i)" using nth_map [OF i(2), of fst] nth_map [OF i(1), of fst] assms(2) by simp
    have "map_of sd (fst (sd ! i)) = Some (snd (sd ! i))"
      using map_of_distinct_mem [OF assms(3), of "fst (sd ! i)" "snd (sd ! i)"] nth_mem [OF i(1)] by simp
    then show "map (\<lambda>(k, v). (k, case map_of sd k of Some v' \<Rightarrow> v' | None \<Rightarrow> v)) g ! i = sd ! i"
      using i(2) k by (simp add: split_def prod_eq_iff)
  qed
  with guard show ?thesis by (simp add: load_state_dict_def)
qed

lemma arch_keys: "arch m = arch g \<Longrightarrow> map fst m = map fst g"
  by (metis map_fst_arch)

text \<open>Claim C11: saving a model and importing it again from the same path gives
  back the same weights, for a model of the generator's architecture (the same
  parameter names and shapes, in the same order, without repeated names).\<close>

theorem import_export_roundtrip:
  assumes "arch model = arch generator" "distinct (map fst model)"
  shows "import_model generator (export_model model model_path fs) model_path = Inr model"
proof -
  have "load_state_dict generator model = Inr model"
    using load_state_dict_same [of model generator] assms arch_keys [OF assms(1)] by simp
  then show ?thesis by (simp add: import_model_def export_model_def torch_load_def)
qed

text \<open>Claim C18: whatever file \<open>import_model\<close> loads successfully, the model it
  returns has the fresh generator's parameter names and shapes, in its order.\<close>

theorem import_model_arch:
  "import_model generator fs model_path = Inr model \<Longrightarrow> arch model = arch generator"
  by (auto simp: import_model_def torch_load_def split: option.splits intro: load_state_dict_arch)

text \<open>Claim C19: \<open>import_model\<close> raises exactly in two cases: FileNotFoundError
  when nothing was saved at the path, and a RuntimeError when the saved names
  and shapes differ from the generator's (for dicts without repeated names).\<close>

theorem import_model_error:
  assumes "distinct (map fst generator)" "\<forall>sd. fs model_path = Some sd \<longrightarrow> distinct (map fst sd)"
  shows "import_model generator fs model_path = Inl e \<longleftrightarrow>
         (case fs model_path of
            None \<Rightarrow> e = FileNotFound
          | Some sd \<Rightarrow> e = StateDictMismatch \<and> map_of (arch sd) \<noteq> map_of (arch generator))"
proof (cases "fs model_path")
  case None
  then show ?thesis by (auto simp: import_model_def torch_load_def)
next
  case (Some sd)
  then have "distinct (map fst sd)" using assms(2) by simp
  from load_guard_iff [OF assms(1) this] Some show ?thesis
    by (auto simp: import_model_def torch_load_def load_state_dict_def)
qed

theorem preprocess_roundtrip_witness:
  "\<exists>c. random_crop 1 (3, 5) [[(0, 128, 255), (7, 8, 9)], [(1, 2, 3), (4, 5, 6)]] = Inr c \<and>
       from_tensor 1 [[8/255 - 1], [10/255 - 1], [12/255 - 1]] = c"
proof -
  have r: "rect [[(0, 128, 255), (7, 8, 9)], [(1, 2, 3), (4, 5, 6)]]"
    by (simp add: rect_def img_width_def)
  have t: "preprocess_transform 1 (3, 5) [[(0, 128, 255), (7, 8, 9)], [(1, 2, 3), (4, 5, 6)]] =
           Inr [[8/255 - 1], [10/255 - 1], [12/255 - 1]]"
  proof -
    have c: "random_crop 1 (3, 5) [[(0, 128, 255), (7, 8, 9)], [(1, 2, 3), (4, 5, 6)]] = Inr [[(4, 5, 6)]]"
      by (simp add: random_crop_def img_width_def numeral_2_eq_2 [symmetric])
    show ?thesis
      unfolding preprocess_transform_eq [OF c] to_tensor_planes by simp
  qed
  show ?thesis by (rule preprocess_roundtrip [OF r t])
qed

theorem import_export_roundtrip_witness:
  "import_model demo_generator (export_model demo_weights ''gen.pt'' Map.empty) ''gen.pt'' = Inr demo_weights"
proof -
  have "arch demo_weights = arch demo_generator" "distinct (map fst demo_weights)"
    by (simp_all add: arch_def demo_weights_def demo_generator_def)
  then show ?thesis by (rule import_export_roundtrip)
qed

theorem import_model_arch_witness:
  "import_model demo_generator [''gen.pt'' \<mapsto> demo_weights] ''gen.pt'' = Inr demo_weights \<and>
   arch demo_weights = arch demo_generator"
proof -
  have l: "import_model demo_generator [''gen.pt'' \<mapsto> demo_weights] ''gen.pt'' = Inr demo_weights"
    by (simp add: import_model_def torch_load_def load_state_dict_def demo_weights_def demo_generator_def)
  with import_model_arch [OF l] show ?thesis by simp
qed

theorem import_model_error_witness:
  "import_model demo_generator [''gen.pt'' \<mapsto> demo_resized] ''gen.pt'' = Inl StateDictMismatch \<and>
   import_model demo_generator [''gen.pt'' \<mapsto> demo_resized] ''other.pt'' = Inl FileNotFound"
proof -
  have d: "distinct (map fst demo_generator)" by (simp add: demo_generator_def)
  have s1: "\<forall>sd. [''gen.pt'' \<mapsto> demo_resized] ''gen.pt'' = Some sd \<longrightarrow> distinct (map fst sd)"
    by (simp add: demo_resized_def)
  have s2: "\<forall>sd. [''gen.pt'' \<mapsto> demo_resized] ''other.pt'' = Some sd \<longrightarrow> distinct (map fst sd)"
    by simp
  have m: "map_of (arch demo_resized) \<noteq> map_of (arch demo_generator)"
  proof
    assume "map_of (arch demo_resized) = map_of (arch demo_generator)"
    then have "map_of (arch demo_resized) ''conv.weight'' = map_of (arch demo_generator) ''conv.weight''" by simp
    then show False by (simp add: arch_def demo_resized_def demo_generator_def)
  qed
  show ?thesis
    using import_model_error [where fs = "[''gen.pt'' \<mapsto> demo_resized]" and model_path = "''gen.pt''",
        OF d s1, of StateDictMismatch]
      import_model_error [where fs = "[''gen.pt'' \<mapsto> demo_resized]" and model_path = "''other.pt''",
        OF d s2, of FileNotFound] m
    by simp
qed

subsection \<open>The image folder and its access\<close>

lemma labelled_mem:
  "(img, k) \<in> set (concat (map (\<lambda>(k, c). map (\<lambda>img. (img, k)) (f c)) (zip [0..<length cls] cls))) \<longleftrightarrow>
   k < length cls \<and> img \<in> set (f (cls ! k))"
proof
  assume "(img, k) \<in> set (concat (map (\<lambda>(k, c). map (\<lambda>img. (img, k)) (f c)) (zip [0..<length cls] cls)))"
  then obtain j c where "(j, c) \<in> set (zip [0..<length cls] cls)" "img \<in> set (f c)" "k = j" by auto
  then show "k < length cls \<and> img \<in> set (f (cls ! k))" by (auto simp: set_zip)
next
  assume a: "k < length cls \<and> img \<in> set (f (cls ! k))"
  then have "(k, cls ! k) \<in> set (zip [0..<length cls] cls)" by (auto simp: in_set_zip intro!: exI [of _ k])
  with a show "(img, k) \<in> set (concat (map (\<lambda>(k, c). map (\<lambda>img. (img, k)) (f c)) (zip [0..<length cls] cls)))"
    by force
qed

lemma labelled_length:
  "length (concat (map (\<lambda>(k, c). map (\<lambda>img. (img, k)) (f c)) (zip [0..<length cls] cls))) =
   sum_list (map (\<lambda>c. length (f c)) cls)"
proof -
  have "map (\<lambda>(k, c). length (f c)) (zip [0..<length cls] cls) = map (\<lambda>c. length (f c)) cls"
    by (rule nth_equalityI) simp_all
  then show ?thesis by (simp add: length_concat o_def split_def)
qed

lemma import_data_facts:
  assumes "import_data fs data_root = Inr ds"
  shows "\<exists>subdirs. fs data_root = Some subdirs \<and> sorted (classes ds) \<and> distinct (classes ds) \<and>
           set (classes ds) = set (map fst subdirs) \<and> transform ds = None \<and>
           (\<forall>(img, k)\<in>set (samples ds). k < length (classes ds) \<and> img \<in> set (class_files subdirs (classes ds ! k))) \<and>
           (\<forall>k<length (classes ds). \<exists>img. (img, k) \<in> set (samples ds)) \<and>
           length (samples ds) = sum_list (map (\<lambda>c. length (class_files subdirs c)) (classes ds))"
proof -
  obtain subdirs where fs: "fs data_root = Some subdirs" using assms by (auto simp: import_data_def split: option.splits)
  let ?cls = "sort (remdups (map fst subdirs))"
  have ne: "list_all (\<lambda>c. class_files subdirs c \<noteq> []) ?cls"
    and ds: "ds = \<lparr>classes = ?cls,
                  samples = concat (map (\<lambda>(k, c). map (\<lambda>img. (img, k)) (class_files subdirs c)) (zip [0..<length ?cls] ?cls)),
                  transform = None\<rparr>"
    using assms fs by (auto simp: import_data_def Let_def split: if_splits)
  have mem: "\<And>img k. (img, k) \<in> set (samples ds) \<longleftrightarrow> k < length ?cls \<and> img \<in> set (class_files subdirs (?cls ! k))"
    by (simp only: ds image_folder.select_convs labelled_mem)
  have len: "length (samples ds) = sum_list (map (\<lambda>c. length (class_files subdirs c)) ?cls)"
    by (simp only: ds image_folder.select_convs labelled_length)
  have cl: "classes ds = ?cls" "transform ds = None" by (simp_all add: ds)
  have every: "\<forall>k<length ?cls. \<exists>img. (img, k) \<in> set (samples ds)"
  proof (intro allI impI)
    fix k assume k: "k < length ?cls"
    then have "class_files subdirs (?cls ! k) \<noteq> []" using ne by (simp add: list_all_length)
    then obtain img where "img \<in> set (class_files subdirs (?cls ! k))" by (meson list.set_sel(1))
    with k mem show "\<exists>img. (img, k) \<in> set (samples ds)" by blast
  qed
  show ?thesis
    using fs every mem len unfolding cl by auto
qed

text \<open>Claim C20: a dataset that \<open>import_data\<close> returns lists its classes sorted
  and without repetition, one per subdirectory of the root; every sample is an
  image of the subdirectory its label names, every class has a sample, the
  samples are as many as the images of all classes, and no transform is set
  yet.\<close>

theorem import_data_classes:
  assumes "import_data fs data_root = Inr ds"
  shows "\<exists>subdirs. fs data_root = Some subdirs \<and> sorted (classes ds) \<and> distinct (classes ds) \<and>
           set (classes ds) = set (map fst subdirs) \<and> transform ds = None \<and>
           (\<forall>(img, k)\<in>set (samples ds). k < length (classes ds) \<and> img \<in> set (class_files subdirs (classes ds ! k))) \<and>
           (\<forall>k<length (classes ds). \<exists>img. (img, k) \<in> set (samples ds)) \<and>
           length (samples ds) = sum_list (map (\<lambda>c. length (class_files subdirs c)) (classes ds))"
  using assms by (rule import_data_facts)

lemma getitem_preprocessed:
  assumes "i < length (samples ds)" "samples ds ! i = (img, k)"
    and "rect img" "image_size \<le> length img" "image_size \<le> img_width img"
  shows "item_ok 3 (image_size * image_size) (getitem (preprocess ds image_size) draw i)"
proof -
  obtain t where t: "preprocess_transform image_size draw img = Inr t" "length t = 3"
      "list_all (\<lambda>q. length q = image_size * image_size) t"
    using preprocess_transform_ok [OF assms(3-5)] by blast
  then show ?thesis using assms(1,2) by (simp add: getitem_def preprocess_def item_ok_def item_shaped_def)
qed

lemma loader_items:
  assumes imgs: "\<forall>(img, _)\<in>set (samples ds). rect img \<and> image_size \<le> length img \<and> image_size \<le> img_width img"
    and range: "set (perms ep) \<subseteq> {..<length (samples ds)}"
  shows "\<forall>i\<in>set (perms ep).
           item_ok 3 (image_size * image_size) (fetch (loader_data (preprocess ds image_size) crops perms masks) ep i)"
proof
  fix i assume "i \<in> set (perms ep)"
  then have i: "i < length (samples ds)" using range by auto
  obtain img k where ik: "samples ds ! i = (img, k)" by (cases "samples ds ! i")
  then have "(img, k) \<in> set (samples ds)" using i by (metis nth_mem)
  then have "rect img \<and> image_size \<le> length img \<and> image_size \<le> img_width img" using imgs by auto
  then have "item_ok 3 (image_size * image_size) (getitem (preprocess ds image_size) (crops ep i) i)"
    using getitem_preprocessed [OF i ik] by blast
  then show "item_ok 3 (image_size * image_size) (fetch (loader_data (preprocess ds image_size) crops perms masks) ep i)"
    by (simp add: loader_data_def preprocess_def)
qed

lemma demo_folders_import: "import_data demo_folders ''data'' = Inr demo_dataset"
  by (simp add: import_data_def demo_folders_def demo_dataset_def class_files_def less_eq_char_def less_char_def)

theorem import_data_classes_witness:
  "\<exists>subdirs. demo_folders ''data'' = Some subdirs \<and> sorted (classes demo_dataset) \<and> distinct (classes demo_dataset) \<and>
     set (classes demo_dataset) = set (map fst subdirs) \<and> transform demo_dataset = None \<and>
     (\<forall>(img, k)\<in>set (samples demo_dataset). k < length (classes demo_dataset) \<and>
        img \<in> set (class_files subdirs (classes demo_dataset ! k))) \<and>
     (\<forall>k<length (classes demo_dataset). \<exists>img. (img, k) \<in> set (samples demo_dataset)) \<and>
     length (samples demo_dataset) = sum_list (map (\<lambda>c. length (class_files subdirs c)) (classes demo_dataset))"
proof -
  show ?thesis by (rule import_data_classes [OF demo_folders_import])
qed

lemma nth_concat_rows:
  "list_all (\<lambda>r. length r = s) rows \<Longrightarrow> q < length rows * s \<Longrightarrow> concat rows ! q = rows ! (q div s) ! (q mod s)"
proof (induction rows arbitrary: q)
  case Nil
  then show ?case by simp
next
  case (Cons r rows)
  then have lr: "length r = s" and pos: "0 < s" by auto
  show ?case
  proof (cases "q < s")
    case True
    then show ?thesis using lr by (simp add: nth_append)
  next
    case False
    then have q: "q - s < length rows * s" using Cons.prems(2) by simp
    have "concat (r # rows) ! q = concat rows ! (q - s)" using False lr by (simp add: nth_append)
    also have "\<dots> = rows ! ((q - s) div s) ! ((q - s) mod s)" using Cons q by simp
    also have "\<dots> = (r # rows) ! (q div s) ! (q mod s)"
    proof -
      have "q div s = Suc ((q - s) div s)" using False pos by (simp add: le_div_geq)
      moreover have "q mod s = (q - s) mod s" using False pos by (simp add: le_mod_geq)
      ultimately show ?thesis by simp
    qed
    finally show ?thesis .
  qed
qed

lemma crop_pixel:
  assumes "rect img" "i \<le> length img - k" "k \<le> length img" "j \<le> img_width img - k" "k \<le> img_width img"
    and "r < k" "c < k"
  shows "map (\<lambda>row. take k (drop j row)) (take k (drop i img)) ! r ! c = img ! (i + r) ! (j + c)"
proof -
  have "i + r < length img" using assms by linarith
  then have "length (img ! (i + r)) = img_width img" using rect_rows [OF assms(1)] nth_mem by blast
  then show ?thesis using assms by simp
qed

lemma crop_plane:
  assumes win: "rect img" "i \<le> length img - k" "k \<le> length img" "j \<le> img_width img - k" "k \<le> img_width img"
  defines "c \<equiv> map (\<lambda>row. take k (drop j row)) (take k (drop i img))"
  shows "concat (map (map f) c) = map (\<lambda>q. f (img ! (i + q div k) ! (j + q mod k))) [0..<k * k]"
proof (rule nth_equalityI)
  note w = crop_window [OF win, folded c_def]
  have rows: "list_all (\<lambda>r. length r = k) (map (map f) c)" using w(2) by (simp add: list_all_iff)
  have len: "length (concat (map (map f) c)) = k * k" by (rule concat_rows_length [OF w(1,2)])
  then show "length (concat (map (map f) c)) = length (map (\<lambda>q. f (img ! (i + q div k) ! (j + q mod k))) [0..<k * k])"
    by simp
  fix q assume "q < length (concat (map (map f) c))"
  then have q: "q < k * k" using len by simp
  then have pos: "0 < k" by (cases k) auto
  have rlt: "q div k < length c" using q w(1) by (simp add: less_mult_imp_div_less)
  have clt: "q mod k < length (c ! (q div k))" using rlt w(2) pos by (simp add: list_all_length)
  have e0: "concat (map (map f) c) ! q = map (map f) c ! (q div k) ! (q mod k)"
    by (rule nth_concat_rows [OF rows]) (metis length_map w(1) q)
  have px: "c ! (q div k) ! (q mod k) = img ! (i + q div k) ! (j + q mod k)"
    unfolding c_def using rlt w(1) pos by (intro crop_pixel [OF win]) (simp_all add: less_mult_imp_div_less q)
  have e2: "map (\<lambda>q. f (img ! (i + q div k) ! (j + q mod k))) [0..<k * k] ! q = f (img ! (i + q div k) ! (j + q mod k))"
    using q by simp
  show "concat (map (map f) c) ! q = map (\<lambda>q. f (img ! (i + q div k) ! (j + q mod k))) [0..<k * k] ! q"
    by (simp only: e0 nth_map [OF rlt] nth_map [OF clt] px e2)
qed

text \<open>Claim C10: on a rectangular image at least as large as the crop, the
  transform pipeline implements its pixel-by-pixel specification: the list
  operations of \<open>RandomCrop\<close>, \<open>ToTensor\<close> and \<open>Normalize\<close> compute exactly
  \<open>preprocess_spec\<close>.\<close>

theorem preprocess_refines_spec:
  assumes "rect img" "image_size \<le> length img" "image_size \<le> img_width img"
  shows "preprocess_transform image_size draw img = Inr (preprocess_spec image_size draw img)"
proof -
  let ?i = "fst draw mod Suc (length img - image_size)" and ?j = "snd draw mod Suc (img_width img - image_size)"
  have c: "random_crop image_size draw img =
           Inr (map (\<lambda>row. take image_size (drop ?j row)) (take image_size (drop ?i img)))"
    using assms(2,3) by (simp add: random_crop_def Let_def)
  note plane = crop_plane [OF assms(1) mod_Suc_le [of "fst draw"] assms(2) mod_Suc_le [of "snd draw"] assms(3)]
  show ?thesis
    unfolding preprocess_transform_eq [OF c] to_tensor_def plane preprocess_spec_def Let_def
    by (simp add: o_def del: upt_Suc)
qed

theorem preprocess_refines_spec_witness:
  "preprocess_transform 1 (3, 5) [[(0, 128, 255), (7, 8, 9)], [(1, 2, 3), (4, 5, 6)]] =
   Inr (preprocess_spec 1 (3, 5) [[(0, 128, 255), (7, 8, 9)], [(1, 2, 3), (4, 5, 6)]])"
  by (rule preprocess_refines_spec) (simp_all add: rect_def img_width_def)

lemma getitem_Inr:
  "getitem (preprocess ds image_size) draw i = Inr (t, k) \<Longrightarrow>
   i < length (samples ds) \<and> (\<exists>img. samples ds ! i = (img, k) \<and> preprocess_transform image_size draw img = Inr t)"
  by (auto simp: getitem_def preprocess_def bindE_eq_Inr split: prod.splits if_splits)

lemma preprocess_transform_dims:
  "preprocess_transform image_size draw img = Inr t \<Longrightarrow> image_size \<le> length img \<and> image_size \<le> img_width img"
proof (rule ccontr)
  assume t: "preprocess_transform image_size draw img = Inr t"
    and "\<not> (image_size \<le> length img \<and> image_size \<le> img_width img)"
  then have "preprocess_transform image_size draw img = Inl CropTooLarge"
    using preprocess_transform_err [of image_size draw img CropTooLarge] by auto
  with t show False by simp
qed

text \<open>Claim C21: every item the \<open>DataLoader\<close> can read from an imported and
  preprocessed folder of rectangular images is well typed for the training
  loop: a tensor of 3 channels of \<open>size * size\<close> pixels with values in
  [-1, 1], and a label that indexes a class of the folder.\<close>

theorem loaded_item_type:
  assumes "import_data fs data_root = Inr ds" "\<forall>(img, _)\<in>set (samples ds). rect img"
    and "getitem (preprocess ds image_size) draw i = Inr (t, k)"
  shows "k < length (classes ds) \<and> length t = 3 \<and> list_all (\<lambda>q. length q = image_size * image_size) t \<and>
         (\<forall>q\<in>set t. \<forall>x\<in>set q. -1 \<le> x \<and> x \<le> 1)"
proof -
  obtain img where i: "i < length (samples ds)" "samples ds ! i = (img, k)"
      "preprocess_transform image_size draw img = Inr t"
    using getitem_Inr [OF assms(3)] by blast
  have mem: "(img, k) \<in> set (samples ds)" using i(1,2) by (metis nth_mem)
  have lbl: "k < length (classes ds)" using import_data_facts [OF assms(1)] mem by auto
  have "rect img" using assms(2) mem by auto
  from preprocess_transform_ok [OF this preprocess_transform_dims [OF i(3), THEN conjunct1]
      preprocess_transform_dims [OF i(3), THEN conjunct2], of draw] i(3) lbl
  show ?thesis by auto
qed

theorem loaded_item_type_witness:
  "1 < length (classes demo_dataset) \<and> length [[8/255 - 1], [10/255 - 1], [12/255 - 1 :: real]] = 3 \<and>
   list_all (\<lambda>q. length q = 1 * 1) [[8/255 - 1], [10/255 - 1], [12/255 - 1 :: real]] \<and>
   list_all (list_all (\<lambda>x. -1 \<le> x \<and> x \<le> 1)) [[8/255 - 1], [10/255 - 1], [12/255 - 1 :: real]]"
proof -
  have r: "\<forall>(img, _)\<in>set (samples demo_dataset). rect img" by (simp add: demo_dataset_def rect_def img_width_def)
  have c: "random_crop 1 (0, 0) [[(4, 5, 6)]] = Inr [[(4, 5, 6)]]" by (simp add: random_crop_def img_width_def)
  have g: "getitem (preprocess demo_dataset 1) (0, 0) 2 = Inr ([[8/255 - 1], [10/255 - 1], [12/255 - 1]], 1)"
  proof -
    have "preprocess_transform 1 (0, 0) [[(4, 5, 6)]] = Inr [[8/255 - 1], [10/255 - 1], [12/255 - 1]]"
      unfolding preprocess_transform_eq [OF c] to_tensor_planes by simp
    then show ?thesis by (simp add: getitem_def preprocess_def demo_dataset_def)
  qed
  from loaded_item_type [OF demo_folders_import r g] show ?thesis by (simp add: list_all_iff)
qed

end
