(* ===== verification/LoopInvariants.thy ===== *)
theory LoopInvariants
  imports TrainLoop
begin

text \<open>
  Invariants of every successful run of \<open>GAN.train_gan\<close> (\<open>src/gan.py\<close>
  lines 37--91), whatever the networks, the data and the masks: the relation
  \<open>run_ok s s'\<close> says that from \<open>s\<close> to \<open>s'\<close> each iteration logged one
  generator and one discriminator loss, stepped the discriminator with the
  gradient of its own hinge loss and then the generator with the gradient of
  its own loss only, and printed the next iteration number.  It holds of one
  successful \<open>train_step\<close>, is reflexive and transitive, and so lifts to
  \<open>run_batches\<close>, \<open>run_epochs\<close> and \<open>train_gan\<close>.  The same one-iteration
  lemmas give the value an iteration logs in \<open>G_losses\<close>; the relation also
  keeps the device, the dtype and the training flags, so a run leaves both
  networks in training mode.
\<close>

definition step_record :: "nat \<Rightarrow> (net \<times> contrib list) list" where
  "step_record k = [(Dis, [(DLoss, k)]), (Gen, [(GLoss, k)])]"

definition run_ok :: "('g, 'd, 'og, 'od) gan_state \<Rightarrow> ('g, 'd, 'og, 'od) gan_state \<Rightarrow> bool" where
  "run_ok s s' \<longleftrightarrow>
     device s' = device s \<and> dtype s' = dtype s \<and>
     gen_training s' = gen_training s \<and> dis_training s' = dis_training s \<and> iters s \<le> iters s' \<and>
     length (G_losses s') = length (G_losses s) + (iters s' - iters s) \<and>
     length (D_losses s') = length (D_losses s) + (iters s' - iters s) \<and>
     opt_steps (trace s') = opt_steps (trace s) @ concat (map step_record [iters s..<iters s']) \<and>
     map snd (printed (trace s')) = map snd (printed (trace s)) @ [Suc (iters s)..<Suc (iters s')]"

subsection \<open>One iteration\<close>

lemma backward_Inr:
  "backward deps c r s = Inr s' \<Longrightarrow>
   iters s' = iters s \<and> G_losses s' = G_losses s \<and> D_losses s' = D_losses s \<and>
   trace s' = trace s @ [Backward c] \<and> dis_w s' = dis_w s \<and> optimizerD s' = optimizerD s \<and>
   device s' = device s \<and> dtype s' = dtype s \<and> gen_training s' = gen_training s \<and> dis_training s' = dis_training s \<and>
   grad_D s' = (if list_ex (\<lambda>nd. node_net nd = Dis) deps then grad_D s @ [c] else grad_D s) \<and>
   grad_G s' = (if list_ex (\<lambda>nd. node_net nd = Gen) deps then grad_G s @ [c] else grad_G s)"
  by (auto simp: backward_def log_event_def split: if_splits)

lemma dis_update_inv:
  assumes "dis_update L cfg br msk bi s = Inr (x1, x2, bf, d, s')"
  shows "iters s' = iters s \<and> G_losses s' = G_losses s \<and> D_losses s' = D_losses s @ [d] \<and>
         device s' = device s \<and> dtype s' = dtype s \<and> gen_training s' = gen_training s \<and> dis_training s' = dis_training s \<and>
         opt_steps (trace s') = opt_steps (trace s) @ [(Dis, [(DLoss, iters s)])] \<and>
         printed (trace s') = printed (trace s)"
  using assms
  by (auto simp: dis_update_def Let_def bindE_eq_Inr zero_grad_Dis forward_eq
      dest!: backward_Inr split: prod.splits)

lemma gen_update_inv:
  assumes "gen_update L cfg br msk x1 x2 bf s = Inr (g, s')"
  shows "iters s' = iters s \<and> G_losses s' = G_losses s @ [g] \<and> D_losses s' = D_losses s \<and>
         device s' = device s \<and> dtype s' = dtype s \<and> gen_training s' = gen_training s \<and> dis_training s' = dis_training s \<and>
         opt_steps (trace s') = opt_steps (trace s) @ [(Gen, [(GLoss, iters s)])] \<and>
         printed (trace s') = printed (trace s)"
  using assms
  by (auto simp: gen_update_def Let_def bindE_eq_Inr zero_grad_Gen forward_eq
      dest!: backward_Inr split: prod.splits)

lemma train_step_inv:
  assumes "train_step L cfg ep br d s = Inr s'"
  shows "run_ok s s' \<and> iters s' = Suc (iters s)"
proof -
  obtain bi x1 x2 bf dl s1 g s2 where
      dis: "dis_update L cfg br (select_mask (pick d) (regular d) (irregular d)) bi s = Inr (x1, x2, bf, dl, s1)"
    and gen: "gen_update L cfg br (select_mask (pick d) (regular d) (irregular d)) x1 x2 bf s1 = Inr (g, s2)"
    and s': "s' = (log_event (Print (ep + 1) (num_epochs cfg) (iters s2 + 1) g dl) s2)\<lparr>iters := iters s2 + 1\<rparr>"
    using assms by (auto simp: train_step_def Let_def bindE_eq_Inr split: prod.splits)
  note a = dis_update_inv [OF dis] and b = gen_update_inv [OF gen]
  have "iters s' = Suc (iters s)" using a b s' by (simp add: log_event_def)
  moreover have "run_ok s s'"
    using a b s' by (simp add: run_ok_def log_event_def step_record_def)
  ultimately show ?thesis by simp
qed

subsection \<open>Runs\<close>

lemma run_ok_refl: "run_ok s s"
  by (simp add: run_ok_def)

lemma run_ok_trans:
  assumes "run_ok s1 s2" "run_ok s2 s3"
  shows "run_ok s1 s3"
proof -
  have le: "iters s1 \<le> iters s2" "iters s2 \<le> iters s3" using assms by (simp_all add: run_ok_def)
  have up: "[iters s1..<iters s3] = [iters s1..<iters s2] @ [iters s2..<iters s3]"
    using le upt_add_eq_append [of "iters s1" "iters s2" "iters s3 - iters s2"] by simp
  have up': "[Suc (iters s1)..<Suc (iters s3)] = [Suc (iters s1)..<Suc (iters s2)] @ [Suc (iters s2)..<Suc (iters s3)]"
    using le upt_add_eq_append [of "Suc (iters s1)" "Suc (iters s2)" "iters s3 - iters s2"] by simp
  show ?thesis
    using assms le unfolding run_ok_def up up' by auto
qed

lemma run_batches_inv:
  "run_batches L cfg ep get dr chs s = Inr s' \<Longrightarrow> run_ok s s'"
proof (induction chs arbitrary: s)
  case Nil
  then show ?case by (simp add: run_ok_refl)
next
  case (Cons ch chs)
  then obtain items br s1 where
      "train_step L cfg ep br (dr (iters s)) s = Inr s1" "run_batches L cfg ep get dr chs s1 = Inr s'"
    by (auto simp: bindE_eq_Inr split: prod.splits)
  with Cons.IH show ?case using train_step_inv run_ok_trans by blast
qed

lemma run_epochs_inv:
  "run_epochs L cfg D eps s = Inr s' \<Longrightarrow> run_ok s s'"
proof (induction eps arbitrary: s)
  case Nil
  then show ?case by (simp add: run_ok_refl)
next
  case (Cons ep eps)
  then obtain s1 where
      "run_batches L cfg ep (fetch D ep) (draws D) (dataloader (batch_size cfg) (orders D ep)) s = Inr s1"
      "run_epochs L cfg D eps s1 = Inr s'"
    by (auto simp: bindE_eq_Inr)
  with Cons.IH show ?case using run_batches_inv run_ok_trans by blast
qed

lemma train_gan_run_ok:
  assumes "train_gan L cfg D s = Inr s'"
  shows "run_ok (s\<lparr>G_losses := [], D_losses := [], iters := 0, gen_training := True, dis_training := True\<rparr>) s'"
  using assms run_epochs_inv by (simp add: train_gan_def split: if_splits)

text \<open>Claim C2: every run of \<open>train_gan\<close> that returns, with any networks,
  data and masks, has logged exactly one generator loss and one discriminator
  loss per iteration; its optimizer steps alternate discriminator then
  generator, the discriminator's step receiving only its hinge loss's gradient
  and the generator's only its own loss's gradient (the \<open>zero_grad\<close> calls
  clear what the other backward pass left); and it printed the iteration
  numbers 1, 2, ... in order.\<close>

theorem train_gan_returns_inv:
  assumes "train_gan L cfg D s = Inr s'"
  shows "length (G_losses s') = iters s' \<and> length (D_losses s') = iters s' \<and>
         opt_steps (trace s') = opt_steps (trace s) @ concat (map step_record [0..<iters s']) \<and>
         map snd (printed (trace s')) = map snd (printed (trace s)) @ [1..<Suc (iters s')]"
  using train_gan_run_ok [OF assms] by (simp add: run_ok_def)

lemma train_gan_device:
  assumes "train_gan L cfg D s = Inr s'"
  shows "device s' = device s \<and> dtype s' = dtype s"
  using train_gan_run_ok [OF assms] by (simp add: run_ok_def)

lemma demo_train_gan_runs: "\<exists>s'. train_gan demo_lib gan_hyperparameters (demo_data 4) s = Inr s'"
proof -
  have bs: "batch_size gan_hyperparameters = 4" "0 < (4::nat)" "4 dvd n_items (demo_data 4)"
    by (simp_all add: gan_hyperparameters_def demo_data_def)
  have ord: "\<forall>ep<num_epochs gan_hyperparameters. length (orders (demo_data 4) ep) = n_items (demo_data 4)"
    by (simp add: demo_data_def)
  have masks: "\<And>k. \<exists>mp. select_mask (pick (draws (demo_data 4) k)) (regular (draws (demo_data 4) k))
      (irregular (draws (demo_data 4) k)) = [[mp]] \<and> length mp = 2"
    by (simp add: demo_data_def demo_draw_def select_mask_def)
  have gen: "\<And>w x m. shaped 4 1 2 x \<Longrightarrow>
      shaped 4 1 2 (fst (gen_fwd demo_lib w x m)) \<and> shaped 4 1 2 (fst (snd (gen_fwd demo_lib w x m)))"
    by (simp add: demo_lib_def)
  have dis: "\<And>w t. length (dis_fwd demo_lib w t) = length t"
    by (simp add: demo_lib_def)
  have ne: "0 < n_items (demo_data 4)" by (simp add: demo_data_def)
  show ?thesis using train_gan_run [OF bs ord demo_data_items masks gen dis ne] by blast
qed

theorem train_gan_returns_inv_witness:
  "\<exists>s'. train_gan demo_lib gan_hyperparameters (demo_data 4) demo_state = Inr s' \<and>
     length (G_losses s') = iters s' \<and> length (D_losses s') = iters s' \<and>
     opt_steps (trace s') = opt_steps (trace demo_state) @ concat (map step_record [0..<iters s']) \<and>
     map snd (printed (trace s')) = map snd (printed (trace demo_state)) @ [1..<Suc (iters s')]"
proof -
  obtain s' where r: "train_gan demo_lib gan_hyperparameters (demo_data 4) demo_state = Inr s'"
    using demo_train_gan_runs by blast
  with train_gan_returns_inv [OF r] show ?thesis by blast
qed






text \<open>Claim C15: \<open>train_gan\<close> puts both networks in training mode (lines 43--44)
  and nothing in the loop switches them back: every run that returns leaves
  the generator and the discriminator in training mode, so a later
  \<open>inpaint_image\<close> runs the generator in training mode.\<close>

theorem train_gan_train_mode:
  assumes "train_gan L cfg D s = Inr s'"
  shows "gen_training s' \<and> dis_training s'"
  using train_gan_run_ok [OF assms] by (simp add: run_ok_def)

theorem train_gan_train_mode_witness:
  "\<exists>s'. train_gan demo_lib gan_hyperparameters (demo_data 4)
          (demo_state\<lparr>gen_training := False, dis_training := False\<rparr>) = Inr s' \<and>
        gen_training s' \<and> dis_training s'"
proof -
  obtain s' where r: "train_gan demo_lib gan_hyperparameters (demo_data 4)
      (demo_state\<lparr>gen_training := False, dis_training := False\<rparr>) = Inr s'"
    using demo_train_gan_runs by blast
  with train_gan_train_mode [OF r] show ?thesis by blast
qed

end
