(* ===== verification/Progress.thy ===== *)
theory Progress
  imports LoopInvariants "HOL-Library.Monad_Syntax"
begin

text \<open>
  The progress line \<open>GAN.train_gan\<close> prints after every iteration
  (\<open>src/gan.py\<close> lines 87--88):
  \<open>"Epoch {:2d}/{:2d}, iteration {:<4d}: g_loss = {:.5f}, d_loss = {:.5f}"\<close>.
  The format specifications are modelled as Python's \<open>str.format\<close> defines
  them: \<open>nat_str\<close> is \<open>str\<close> of a non-negative int, \<open>{:2d}\<close> pads on the
  left and \<open>{:<4d}\<close> on the right with spaces and never truncates, and
  \<open>{:.5f}\<close> prints the sign, the integer part and five decimals of the value
  rounded half to even (the loss is a real here, so the rounding is that of
  its exact value; NaN and infinities are not modelled).  \<open>stdout\<close> is the
  text of the \<open>Print\<close> events of the trace.  A reader \<open>read_progress\<close>,
  written as parser functions in the option monad, recovers the printed
  numbers; it inverts the formatter, and the decimals it reads are within
  \<open>5e-6\<close> of the losses.
\<close>

subsection \<open>Python's format specifications\<close>

definition digit_char :: "nat \<Rightarrow> char" where
  "digit_char d = char_of (48 + d)"

text \<open>\<open>str(n)\<close> of a non-negative int.\<close>

fun nat_str :: "nat \<Rightarrow> string" where
  "nat_str n = (if n < 10 then [digit_char n] else nat_str (n div 10) @ [digit_char (n mod 10)])"

declare nat_str.simps [simp del]

definition pad_left :: "char \<Rightarrow> nat \<Rightarrow> string \<Rightarrow> string" where
  "pad_left c w s = replicate (w - length s) c @ s"

definition pad_right :: "char \<Rightarrow> nat \<Rightarrow> string \<Rightarrow> string" where
  "pad_right c w s = s @ replicate (w - length s) c"

text \<open>\<open>{:wd}\<close> (numbers align right) and \<open>{:<wd}\<close>.\<close>

definition fmt_d :: "nat \<Rightarrow> nat \<Rightarrow> string" where
  "fmt_d w n = pad_left CHR '' '' w (nat_str n)"

definition fmt_left_d :: "nat \<Rightarrow> nat \<Rightarrow> string" where
  "fmt_left_d w n = pad_right CHR '' '' w (nat_str n)"

text \<open>Python rounds a float to the nearest representable decimal, ties to
  even, and \<open>{:.5f}\<close> keeps the sign of a negative value even when it rounds
  to zero.\<close>

definition round_half_even :: "real \<Rightarrow> int" where
  "round_half_even r =
     (let f = \<lfloor>r\<rfloor>; d = r - of_int f in
      if d < 1 / 2 then f else if 1 / 2 < d then f + 1 else if even f then f else f + 1)"

definition fixed5_digits :: "real \<Rightarrow> nat" where
  "fixed5_digits x = nat (round_half_even (\<bar>x\<bar> * 10 ^ 5))"

definition fmt_f5 :: "real \<Rightarrow> string" where
  "fmt_f5 x =
     (let q = fixed5_digits x in
      (if x < 0 then ''-'' else []) @ nat_str (q div 10 ^ 5) @ ''.'' @
        pad_left CHR ''0'' 5 (nat_str (q mod 10 ^ 5)))"

text \<open>The value \<open>{:.5f}\<close> prints.\<close>

definition fixed5_value :: "real \<Rightarrow> real" where
  "fixed5_value x = (if x < 0 then -1 else 1) * real (fixed5_digits x) / 10 ^ 5"

subsection \<open>The progress line, lines 87--88\<close>

definition progress_line :: "nat \<Rightarrow> nat \<Rightarrow> nat \<Rightarrow> real \<Rightarrow> real \<Rightarrow> string" where
  "progress_line e n i g d =
     ''Epoch '' @ fmt_d 2 e @ ''/'' @ fmt_d 2 n @ '', iteration '' @ fmt_left_d 4 i @
     '': g_loss = '' @ fmt_f5 g @ '', d_loss = '' @ fmt_f5 d"

fun stdout :: "event list \<Rightarrow> string list" where
  "stdout [] = []"
| "stdout (Print e n i g d # es) = progress_line e n i g d # stdout es"
| "stdout (_ # es) = stdout es"

subsection \<open>Reading a progress line back\<close>

definition is_digit :: "char \<Rightarrow> bool" where
  "is_digit c \<longleftrightarrow> 48 \<le> (of_char c :: nat) \<and> (of_char c :: nat) \<le> 57"

definition digits_val :: "string \<Rightarrow> nat" where
  "digits_val ds = foldl (\<lambda>acc c. 10 * acc + (of_char c - 48)) 0 ds"

fun expect :: "string \<Rightarrow> string \<Rightarrow> string option" where
  "expect [] s = Some s"
| "expect (c # cs) (d # ds) = (if c = d then expect cs ds else None)"
| "expect (c # cs) [] = None"

definition skip_spaces :: "string \<Rightarrow> string" where
  "skip_spaces s = dropWhile (\<lambda>c. c = CHR '' '') s"

definition read_nat :: "string \<Rightarrow> (nat \<times> string) option" where
  "read_nat s =
     (let ds = takeWhile is_digit s in
      if ds = [] then None else Some (digits_val ds, dropWhile is_digit s))"

definition read_fixed :: "string \<Rightarrow> (real \<times> string) option" where
  "read_fixed s =
     (let neg = (s \<noteq> [] \<and> hd s = CHR ''-''); s1 = (if neg then tl s else s) in
      do {
        (a, s2) \<leftarrow> read_nat s1;
        s3 \<leftarrow> expect ''.'' s2;
        let fs = takeWhile is_digit s3;
        if fs = [] then None
        else Some ((if neg then -1 else 1) * (real a + real (digits_val fs) / 10 ^ length fs),
                   dropWhile is_digit s3)
      })"

definition read_progress :: "string \<Rightarrow> (nat \<times> nat \<times> nat \<times> real \<times> real) option" where
  "read_progress l =
     do {
       r \<leftarrow> expect ''Epoch '' l;
       (e, r) \<leftarrow> read_nat (skip_spaces r);
       r \<leftarrow> expect ''/'' r;
       (n, r) \<leftarrow> read_nat (skip_spaces r);
       r \<leftarrow> expect '', iteration '' r;
       (i, r) \<leftarrow> read_nat r;
       r \<leftarrow> expect '': g_loss = '' (skip_spaces r);
       (g, r) \<leftarrow> read_fixed r;
       r \<leftarrow> expect '', d_loss = '' r;
       (d, r) \<leftarrow> read_fixed r;
       if r = [] then Some (e, n, i, g, d) else None
     }"

subsection \<open>Digits\<close>

lemma digit_char_digit: "d < 10 \<Longrightarrow> is_digit (digit_char d)"
  by (simp add: digit_char_def is_digit_def)

lemma of_char_digit_char: "d < 10 \<Longrightarrow> of_char (digit_char d) - 48 = d"
  by (simp add: digit_char_def)

lemma nat_str_digits: "list_all is_digit (nat_str n)"
  by (induction n rule: nat_str.induct) (subst nat_str.simps, simp add: digit_char_digit)

lemma nat_str_ne: "nat_str n \<noteq> []"
  by (subst nat_str.simps) simp

lemma digits_val_snoc: "digits_val (xs @ [c]) = 10 * digits_val xs + (of_char c - 48)"
  by (simp add: digits_val_def)

lemma digits_val_nat_str: "digits_val (nat_str n) = n"
proof (induction n rule: nat_str.induct)
  case (1 n)
  show ?case
  proof (cases "n < 10")
    case True
    then show ?thesis by (simp add: nat_str.simps [of n] digits_val_def of_char_digit_char)
  next
    case False
    then show ?thesis using 1 by (simp add: nat_str.simps [of n] digits_val_snoc of_char_digit_char)
  qed
qed

lemma length_nat_str: "n < 10 ^ Suc k \<Longrightarrow> length (nat_str n) \<le> Suc k"
proof (induction n arbitrary: k rule: nat_str.induct)
  case (1 n)
  show ?case
  proof (cases "n < 10")
    case True
    then show ?thesis by (simp add: nat_str.simps [of n])
  next
    case False
    then obtain k' where k: "k = Suc k'" using 1(2) by (cases k) auto
    have "n div 10 < 10 ^ Suc k'" using 1(2) k by auto
    then show ?thesis using 1(1) [OF False] False k by (simp add: nat_str.simps [of n])
  qed
qed

lemma digits_val_zeros: "digits_val (replicate k CHR ''0'' @ xs) = digits_val xs"
proof -
  have "foldl (\<lambda>acc c. 10 * acc + (of_char c - 48)) (0::nat) (replicate k CHR ''0'') = 0"
    by (induction k) simp_all
  then show ?thesis by (simp add: digits_val_def)
qed

lemma nat_str_hd: "nat_str n = c # cs \<Longrightarrow> is_digit c"
  using nat_str_digits [of n] by simp

subsection \<open>The reader inverts the formatter\<close>

lemma expect_append [simp]: "expect p (p @ s) = Some s"
  by (induction p) simp_all

lemma read_nat_nat_str:
  assumes "rest = [] \<or> \<not> is_digit (hd rest)"
  shows "read_nat (nat_str n @ rest) = Some (n, rest)"
proof -
  have all: "\<And>x. x \<in> set (nat_str n) \<Longrightarrow> is_digit x" using nat_str_digits [of n] by (simp add: list_all_iff)
  have "takeWhile is_digit rest = [] \<and> dropWhile is_digit rest = rest" using assms by (cases rest) auto
  then show ?thesis
    using all by (simp add: read_nat_def takeWhile_append2 dropWhile_append2 nat_str_ne digits_val_nat_str)
qed

lemma skip_spaces_pad:
  assumes "s = c # cs" "c \<noteq> CHR '' ''"
  shows "skip_spaces (replicate k CHR '' '' @ s) = s"
  using assms by (induction k) (simp_all add: skip_spaces_def)

lemma skip_spaces_nat_str: "skip_spaces (replicate k CHR '' '' @ nat_str n @ rest) = nat_str n @ rest"
proof -
  obtain c cs where cs: "nat_str n = c # cs" using nat_str_ne by (cases "nat_str n") auto
  have "c \<noteq> CHR '' ''" using nat_str_hd [OF cs] by (auto simp: is_digit_def)
  then show ?thesis using skip_spaces_pad [of "nat_str n @ rest" c "cs @ rest"] cs by simp
qed

subsection \<open>Fixed-point output\<close>

lemma round_half_even_bound: "\<bar>of_int (round_half_even r) - r\<bar> \<le> 1 / 2"
proof -
  have f: "of_int \<lfloor>r\<rfloor> \<le> r" "r < of_int \<lfloor>r\<rfloor> + 1" by linarith+
  show ?thesis unfolding round_half_even_def Let_def using f by (auto split: if_splits)
qed

lemma round_half_even_nonneg: "0 \<le> r \<Longrightarrow> 0 \<le> round_half_even r"
  unfolding round_half_even_def Let_def by auto

lemma fixed5_bound: "\<bar>fixed5_value x - x\<bar> \<le> 1 / 200000"
proof -
  let ?r = "\<bar>x\<bar> * 10 ^ 5"
  have q: "real (fixed5_digits x) = of_int (round_half_even ?r)"
    using round_half_even_nonneg [of ?r] by (simp add: fixed5_digits_def)
  have b: "\<bar>of_int (round_half_even ?r) - ?r\<bar> \<le> 1 / 2" by (rule round_half_even_bound)
  have "\<bar>real (fixed5_digits x) / 10 ^ 5 - \<bar>x\<bar>\<bar> \<le> 1 / 200000"
    using b unfolding q by (simp add: abs_le_iff field_simps)
  then show ?thesis by (auto simp: fixed5_value_def abs_if split: if_splits)
qed

lemma frac_digits:
  assumes "m < 10 ^ 5"
  shows "length (pad_left CHR ''0'' 5 (nat_str m)) = 5 \<and>
         list_all is_digit (pad_left CHR ''0'' 5 (nat_str m)) \<and>
         digits_val (pad_left CHR ''0'' 5 (nat_str m)) = m"
proof -
  have "length (nat_str m) \<le> 5" using length_nat_str [of m 4] assms by simp
  moreover have "is_digit CHR ''0''" by (simp add: is_digit_def)
  ultimately show ?thesis using nat_str_digits [of m]
    by (auto simp: pad_left_def digits_val_zeros digits_val_nat_str list_all_iff)
qed

lemma real_div_mod: "real (n div k) * real k + real (n mod k) = (real n :: real)"
proof -
  have "real (n div k * k + n mod k) = (real n :: real)" by simp
  then show ?thesis by (simp only: of_nat_add of_nat_mult)
qed

lemma hd_nat_str_app: "hd (nat_str n @ t) = hd (nat_str n) \<and> is_digit (hd (nat_str n))"
  using nat_str_ne [of n] nat_str_hd [of n] by (cases "nat_str n") auto

lemma takeWhile_digits_app:
  assumes "list_all is_digit z" "rest = [] \<or> \<not> is_digit (hd rest)"
  shows "takeWhile is_digit (z @ rest) = z \<and> dropWhile is_digit (z @ rest) = rest"
proof -
  have "takeWhile is_digit rest = [] \<and> dropWhile is_digit rest = rest" using assms(2) by (cases rest) auto
  then show ?thesis using assms(1) by (simp add: takeWhile_append2 dropWhile_append2 list_all_iff)
qed

lemma read_fixed_fmt:
  assumes rest: "rest = [] \<or> \<not> is_digit (hd rest)"
  shows "read_fixed (fmt_f5 x @ rest) = Some (fixed5_value x, rest)"
proof -
  define q where "q = fixed5_digits x"
  define z where "z = pad_left CHR ''0'' 5 (nat_str (q mod 10 ^ 5))"
  have z: "length z = 5" "list_all is_digit z" "digits_val z = q mod 10 ^ 5" "z \<noteq> []"
    using frac_digits [of "q mod 10 ^ 5"] unfolding z_def by auto
  have dot: "\<not> is_digit CHR ''.''" by (simp add: is_digit_def)
  have rn: "read_nat (nat_str (q div 10 ^ 5) @ ''.'' @ z @ rest) = Some (q div 10 ^ 5, ''.'' @ z @ rest)"
    using read_nat_nat_str [of "''.'' @ z @ rest"] dot by simp
  have tw: "takeWhile is_digit (z @ rest) = z" "dropWhile is_digit (z @ rest) = rest"
    using takeWhile_digits_app [OF z(2) rest] by simp_all
  have val: "real (q div 10 ^ 5) + real (q mod 10 ^ 5) / 10 ^ 5 = real q / 10 ^ 5"
  proof -
    have h: "real (q div 10 ^ 5) * 10 ^ 5 + real (q mod 10 ^ 5) = real q"
      using real_div_mod [of q "10 ^ 5"] by simp
    show ?thesis by (simp add: h [symmetric] add_divide_distrib)
  qed
  have hd: "hd (nat_str (q div 10 ^ 5) @ ''.'' @ z @ rest) \<noteq> CHR ''-''"
    using hd_nat_str_app [of "q div 10 ^ 5" "''.'' @ z @ rest"] by (auto simp: is_digit_def)
  have s: "fmt_f5 x @ rest = (if x < 0 then ''-'' else []) @ nat_str (q div 10 ^ 5) @ ''.'' @ z @ rest"
    by (simp add: fmt_f5_def Let_def q_def z_def)
  have fv: "fixed5_value x = (if x < 0 then -1 else 1) * (real q / 10 ^ 5)"
    by (simp add: fixed5_value_def q_def)
  have frac: "real (q div 10 ^ 5) + real (digits_val z) / 10 ^ length z = real q / 10 ^ 5"
    using val z(1,3) by simp
  show ?thesis
  proof (cases "x < 0")
    case True
    then show ?thesis unfolding s fv using rn tw frac z(4) by (simp add: read_fixed_def)
  next
    case False
    then show ?thesis unfolding s fv using rn tw frac z(4) hd by (simp add: read_fixed_def)
  qed
qed

lemma not_digit_pad_hd:
  assumes "s \<noteq> []" "\<not> is_digit (hd s)" "hd s \<noteq> CHR '' ''"
  shows "\<not> is_digit (hd (replicate k CHR '' '' @ s))"
  using assms by (cases k) (simp_all add: is_digit_def)

lemma colon_not_space: "CHR '':'' \<noteq> CHR '' ''"
  using of_char_eq_iff [of "CHR '':''" "CHR '' ''"] by simp

lemma read_progress_line:
  "read_progress (progress_line e n i g d) = Some (e, n, i, fixed5_value g, fixed5_value d)"
proof -
  define R4 where "R4 = '', d_loss = '' @ fmt_f5 d"
  define R3 where "R3 = '': g_loss = '' @ fmt_f5 g @ R4"
  define R2 where "R2 = '', iteration '' @ nat_str i @ replicate (4 - length (nat_str i)) CHR '' '' @ R3"
  define R1 where "R1 = ''/'' @ replicate (2 - length (nat_str n)) CHR '' '' @ nat_str n @ R2"
  have l: "progress_line e n i g d = ''Epoch '' @ replicate (2 - length (nat_str e)) CHR '' '' @ nat_str e @ R1"
    by (simp add: progress_line_def fmt_d_def fmt_left_d_def pad_left_def pad_right_def R1_def R2_def R3_def R4_def)
  have e1: "read_nat (nat_str e @ R1) = Some (e, R1)"
    by (rule read_nat_nat_str) (simp add: R1_def is_digit_def)
  have n1: "read_nat (nat_str n @ R2) = Some (n, R2)"
    by (rule read_nat_nat_str) (simp add: R2_def is_digit_def)
  have i1: "read_nat (nat_str i @ replicate (4 - length (nat_str i)) CHR '' '' @ R3) =
            Some (i, replicate (4 - length (nat_str i)) CHR '' '' @ R3)"
    using not_digit_pad_hd [of R3 "4 - length (nat_str i)"]
    by (intro read_nat_nat_str) (simp add: R3_def is_digit_def)
  have i2: "skip_spaces (replicate (4 - length (nat_str i)) CHR '' '' @ R3) = R3"
    by (rule skip_spaces_pad) (simp add: R3_def, rule colon_not_space)
  have g1: "read_fixed (fmt_f5 g @ R4) = Some (fixed5_value g, R4)"
    by (rule read_fixed_fmt) (simp add: R4_def is_digit_def)
  have r4: "expect '', d_loss = '' R4 = Some (fmt_f5 d)"
    by (simp add: R4_def)
  have d1: "read_fixed (fmt_f5 d) = Some (fixed5_value d, [])"
    using read_fixed_fmt [of "[]" d] by simp
  have r1: "expect ''/'' R1 = Some (replicate (2 - length (nat_str n)) CHR '' '' @ nat_str n @ R2)"
    by (simp add: R1_def)
  have r2: "expect '', iteration '' R2 = Some (nat_str i @ replicate (4 - length (nat_str i)) CHR '' '' @ R3)"
    by (simp add: R2_def)
  have r3: "expect '': g_loss = '' R3 = Some (fmt_f5 g @ R4)"
    by (simp add: R3_def)
  show ?thesis
    unfolding l by (simp add: read_progress_def skip_spaces_nat_str e1 n1 i1 i2 r1 r2 r3 r4 g1 d1)
qed

lemma stdout_read:
  "map (\<lambda>l. map_option (\<lambda>(e, n, i, g, d). (e, i)) (read_progress l)) (stdout t) = map Some (printed t)"
  by (induction t rule: stdout.induct) (simp_all add: read_progress_line)

subsection \<open>What the progress output promises\<close>

text \<open>Claim C13: the line \<open>print\<close> writes at lines 87--88 reads back exactly:
  the epoch, the number of epochs and the iteration number come back as
  printed, and each loss comes back as its \<open>{:.5f}\<close> rounding, within
  \<open>5e-6\<close> of the value \<open>.item()\<close> returned.\<close>

theorem progress_line_roundtrip:
  "read_progress (progress_line e n i g d) = Some (e, n, i, fixed5_value g, fixed5_value d) \<and>
   \<bar>fixed5_value g - g\<bar> \<le> 1 / 200000 \<and> \<bar>fixed5_value d - d\<bar> \<le> 1 / 200000"
  using read_progress_line fixed5_bound by blast

text \<open>Claim C14: the standard output of every run of \<open>train_gan\<close> that returns
  reads back, line by line, to the iteration numbers 1, 2, ... of the run,
  after whatever the object printed before.\<close>

theorem train_gan_stdout:
  assumes "train_gan L cfg D s = Inr s'"
  shows "map (\<lambda>l. map_option (\<lambda>(e, n, i, g, d). i) (read_progress l)) (stdout (trace s')) =
         map Some (map snd (printed (trace s)) @ [1..<Suc (iters s')])"
proof -
  have p: "map snd (printed (trace s')) = map snd (printed (trace s)) @ [1..<Suc (iters s')]"
    using train_gan_run_ok [OF assms] by (simp add: run_ok_def)
  have "map (\<lambda>l. map_option (\<lambda>(e, n, i, g, d). i) (read_progress l)) (stdout (trace s')) =
        map (map_option snd) (map (\<lambda>l. map_option (\<lambda>(e, n, i, g, d). (e, i)) (read_progress l)) (stdout (trace s')))"
    by (simp add: option.map_comp comp_def split_def)
  also have "\<dots> = map Some (map snd (printed (trace s')))"
    by (simp only: stdout_read) simp
  finally show ?thesis unfolding p .
qed

theorem train_gan_stdout_witness:
  "\<exists>s'. train_gan demo_lib gan_hyperparameters (demo_data 4) demo_state = Inr s' \<and>
     map (\<lambda>l. map_option (\<lambda>(e, n, i, g, d). i) (read_progress l)) (stdout (trace s')) =
     map Some (map snd (printed (trace demo_state)) @ [1..<Suc (iters s')])"
proof -
  obtain s' where r: "train_gan demo_lib gan_hyperparameters (demo_data 4) demo_state = Inr s'"
    using demo_train_gan_runs by blast
  with train_gan_stdout [OF r] show ?thesis by blast
qed

end
