(* ===== verification/Spec2Isabelle.thy ===== *)
theory Spec2Isabelle
  imports OpsData LoopInvariants Progress
begin

text \<open>
  \<^bold>\<open>A verification model of CanWeFixIt's GAN inpainting trainer.\<close>

  The repository trains an image-inpainting GAN with PyTorch.  Its own code
  under \<open>src/\<close> is the orchestration: \<open>src/gan.py\<close> (class \<open>GAN\<close>:
  \<open>__init__\<close>, \<open>train_gan\<close>, \<open>inpaint_image\<close>) and \<open>src/ops_data.py\<close>
  (dataset and model I/O).  The networks (\<open>generator.py\<close>,
  \<open>discriminator.py\<close>), the mask generators and the hinge loss
  (\<open>util_ops.py\<close>) and plotting (\<open>visual_ops.py\<close>) are not among the
  sources.  The parts and how they interact: \<open>train_gan\<close> builds a
  \<open>DataLoader\<close> over the dataset, and for every batch of every epoch draws a
  mask, hides the masked pixels, runs the generator, composites its output
  into the real image, scores real and composite batches with the
  discriminator, backpropagates the hinge loss and steps the discriminator's
  Adam optimizer, then scores the composite again with the updated
  discriminator, backpropagates the adversarial plus L1 loss and steps the
  generator's optimizer, logging both losses and printing progress.

  \<^bold>\<open>Theories.\<close>
  \<^item> \<open>Prelude\<close>: the error type (each PyTorch or Python raise the code can
    reach is an \<open>Inl\<close> of it), the sequencing \<open>bindE\<close> and \<open>mapE\<close> of fallible
    steps, and \<open>chunks\<close>, the cutting of a list into pieces of \<open>k\<close> that both
    \<open>torch.split\<close> and the \<open>DataLoader\<close> perform, with its length and
    concatenation lemmas.
  \<^item> \<open>Tensor\<close>: PyTorch semantics of the tensor operations gan.py calls, on
    batches of shape (samples, channels, pixels) as nested lists of reals:
    broadcasting elementwise arithmetic (\<open>bcast\<close>, \<open>ew\<close>, \<open>t_mul\<close>,
    \<open>t_add\<close>, \<open>t_sub\<close>, \<open>rsub\<close>), \<open>t_abs\<close>, \<open>t_mean\<close>, \<open>cat0\<close>/\<open>cat_many0\<close>
    (\<open>torch.cat\<close> along dimension 0), \<open>cat1\<close> (along dimension 1) and
    \<open>unpack2\<close> (tuple unpacking), with closed forms and error conditions on
    shaped arguments.
  \<^item> \<open>Masking\<close>: gan.py lines 49--60 (\<open>select_mask\<close>, \<open>incomplete\<close>,
    \<open>composite\<close>) and \<open>inpaint_image\<close> (lines 94--97).
  \<^item> \<open>Losses\<close>: the L1 loss (lines 73--75), the generator's adversarial
    loss (line 79), and \<open>gan_hinge_loss\<close>, modelled from the spec's hinge
    objective since \<open>util_ops.py\<close> is not in the sources.
  \<^item> \<open>Training\<close>: \<open>GAN\<close>'s state (\<open>gan_state\<close>: device and dtype, weights, optimizer
    states, training flags, gradient buffers, saved autograd graphs, the loss
    logs, \<open>iters\<close>, and a trace of effects), its hyperparameters
    (\<open>gan_hyperparameters\<close>, lines 21--31), the library interface \<open>lib\<close>
    (network forward passes and Adam steps as parameters), the effects
    \<open>zero_grad\<close>, \<open>forward\<close>, \<open>backward\<close> (with \<open>retain_graph\<close>),
    \<open>step_D\<close>, \<open>step_G\<close>, and one loop iteration \<open>train_step\<close> (lines
    46--89) composed of \<open>dis_update\<close> (lines 55--70) and \<open>gen_update\<close>
    (lines 71--85).
  \<^item> \<open>TrainLoop\<close>: \<open>gan_init\<close> (\<open>__init__\<close>), the \<open>DataLoader\<close>
    (\<open>dataloader\<close>, \<open>collate\<close>), the loops \<open>run_batches\<close> and \<open>run_epochs\<close>
    and \<open>train_gan\<close> (lines 37--91), which raises \<open>LoaderValueError\<close> where
    the \<open>DataLoader\<close>'s sampler refuses an empty dataset or a batch size
    of 0, with the observers \<open>opt_steps\<close> and \<open>printed\<close> of the trace.
  \<^item> \<open>LoopInvariants\<close>: the relation \<open>run_ok\<close> between the states before and
    after a run, established for one \<open>train_step\<close> and lifted through the
    loops to every run of \<open>train_gan\<close> that returns.
  \<^item> \<open>OpsData\<close>: \<open>src/ops_data.py\<close>.  \<open>import_data\<close> as
    \<open>ImageFolder\<close> over a folder store (\<open>image_folder\<close>, \<open>class_files\<close>),
    \<open>preprocess\<close> and the pipeline it installs (\<open>preprocess_transform\<close>:
    \<open>random_crop\<close>, \<open>to_tensor\<close>, \<open>normalize_tensor\<close>) on RGB images of
    \<open>8 word\<close> bytes, the dataset access \<open>getitem\<close> and the dataset as the
    loop reads it (\<open>loader_data\<close>), and \<open>export_model\<close>/\<open>import_model\<close>
    over a file store with the strict \<open>load_state_dict\<close>.
  \<^item> \<open>Progress\<close>: the \<open>print\<close> of lines 87--88 with Python's
    \<open>str.format\<close> semantics (\<open>nat_str\<close>, \<open>fmt_d\<close>, \<open>fmt_left_d\<close>, \<open>fmt_f5\<close>
    with \<open>round_half_even\<close>), the line \<open>progress_line\<close>, the output
    \<open>stdout\<close> of a trace, and a reader \<open>read_progress\<close> of the line.
  \<^item> this theory: the header and the properties spanning the components:
    the data loader with the iteration, \<open>GAN(device)\<close> followed by
    \<open>train_gan\<close>, and the image folder, its preprocessing and the training
    loop end to end.

  \<^bold>\<open>What the lemmas show.\<close>  Masking: for binary masks the composite is the
  prediction inside the mask and the real image outside, and inpainting does
  not depend on the hidden pixels; at every pixel the composite weights the
  real image by \<open>(1 - m)\<^sup>2\<close>, so it is the blend \<open>pred * m + real * (1 - m)\<close>
  exactly where the mask is 0 or 1 (or the real pixel is 0).  Losses: the
  discriminator's hinge loss vanishes exactly at the label margins 1 and -1;
  the L1 loss is
  non-negative and vanishes exactly when both generator outputs equal the real
  batch.  Training: one iteration on a full batch succeeds with a fixed
  sequence of effects in which each optimizer step receives exactly the
  gradient of its own loss (the \<open>zero_grad\<close> calls clear the cross-gradients
  each backward pass leaves in the other network) and the second backward
  pass finds the generator's graph alive (\<open>retain_graph=True\<close> on the first);
  a batch of another size raises at line 62.  Loop: when \<open>batch_size\<close>
  divides the dataset size, \<open>train_gan\<close> returns after
  \<open>num_epochs * (n div batch_size)\<close> iterations with that many logged losses,
  alternating optimizer steps and consecutive printed iteration numbers;
  otherwise it raises in the last batch of the first epoch.  Every run that
  returns, with any networks and data, keeps one logged loss of each kind per
  iteration, the alternating optimizer steps on their own gradients and the
  consecutive printed iteration numbers, and the generator loss it logs is
  the adversarial term alone, scored by the discriminator after its step;
  it leaves both networks in training mode, which \<open>inpaint_image\<close> does
  not change.  A freshly constructed \<open>GAN\<close> builds its optimizers from
  \<open>lr\<close> and the betas and trains for \<open>10 * (n div 4)\<close> iterations, keeping
  its device.
  Output: each progress line reads back to its epoch and iteration numbers
  exactly and to its losses within \<open>5e-6\<close>, and the output of a run reads
  back to the iteration numbers 1..iters.
  Data: the
  preprocessed tensor of a rectangular image has shape (3, size * size),
  values in [-1, 1], and reads back exactly to the cropped bytes; the list
  operations of the pipeline compute its pixel-indexed specification
  \<open>preprocess_spec\<close>; a crop
  larger than the image is the only error of the pipeline; \<open>import_data\<close>
  lists sorted distinct classes with every sample labelled by its folder, and
  every item read from a preprocessed folder is a 3 x size^2 tensor in
  [-1, 1] with a valid label.
  Model I/O: importing what was exported returns the same weights, every
  imported model has the generator's names and shapes, and the two raises of
  \<open>import_model\<close> are characterised.  End to end: on a preprocessed folder
  \<open>train_gan\<close> succeeds exactly when \<open>batch_size\<close> divides the number of
  images.

  \<^bold>\<open>Modelling choices.\<close>  Randomness (the \<open>DataLoader\<close>'s permutation of
  each epoch, the random crop of each access, the masks and the
  \<open>random.choice\<close> of each iteration) is an input.  No loop needs fuel: the
  epoch loop runs over \<open>range(num_epochs)\<close> and the batch loop over the
  finite list of batches the \<open>DataLoader\<close> yields (its iterator protocol is
  not modelled separately), both structurally recursive.  The
  \<open>default_collate\<close> TypeError for images without a transform is raised
  when the item is read (\<open>getitem\<close>), not inside collation.  Tensors hold reals: float32 rounding and NaN are not modelled,
  and the mean of an empty list is 0 where PyTorch gives NaN (the theorems
  only use non-empty batches).  The pixels of a channel are one flattened
  plane, so broadcasting is checked per dimension on samples, channels and
  planes.  Autograd is modelled by which losses reach which gradient buffer
  and which saved graphs are alive, not by gradient values; the Adam update
  is a parameter.  \<open>device\<close> and \<open>dtype\<close> are stored fields, and
  \<open>.to(device)\<close> leaves values unchanged; the \<open>print\<close> formatting is
  modelled on the real values of the losses (NaN and infinities are not),
  and \<open>plot_losses\<close> only through the logs it plots.
  The random crop offsets of each access are inputs reduced into
  \<open>torch.randint\<close>'s range; the images are lists of rows (rectangularity is
  a hypothesis where it matters, as PIL guarantees it); the file system is a
  map from paths to subdirectory listings or saved state dicts, with
  \<open>make_dataset\<close>'s file ordering and extension filter taken as given.

  \<^bold>\<open>Not modelled.\<close>  \<open>generator.py\<close>, \<open>discriminator.py\<close>,
  \<open>util_ops.py\<close>, \<open>visual_ops.py\<close> and \<open>params.py\<close> are not among the
  sources: the networks are parameters of \<open>lib\<close>, the masks are inputs,
  \<open>gan_hinge_loss\<close> follows the spec, plotting and the choice of
  \<open>params.device\<close> have no effect on the modelled state.  The pickle format of \<open>torch.save\<close> is
  abstracted to storing the state dict itself.

  \<^bold>\<open>Scope.\<close>  Every function and method of \<open>src/\<close> is modelled.  What
  remains abstract is library code: float32 arithmetic of the tensor
  operations (reals here), the networks, the Adam update and the random
  draws.  \<open>inpaint_image\<close> is modelled as written: it returns the generator's
  prediction without pasting the known pixels back, which the manifest
  records as a gap in the spec.
\<close>

text \<open>Claim C5: for a dataset whose items have one shape, masks of that
  shape, and networks that keep the batch shape for any batch size,
  \<open>train_gan\<close> returns exactly when \<open>batch_size\<close> divides the dataset size;
  otherwise it raises a shape error.\<close>

theorem train_gan_succeeds_iff:
  assumes bs: "batch_size cfg = b" "0 < b" "0 < num_epochs cfg"
    and ord: "\<forall>ep<num_epochs cfg. length (orders D ep) = n_items D"
    and items: "\<forall>ep<num_epochs cfg. \<forall>i\<in>set (orders D ep). item_ok c p (fetch D ep i)"
    and masks: "\<And>k. \<exists>mp. select_mask (pick (draws D k)) (regular (draws D k)) (irregular (draws D k)) = [[mp]] \<and>
                         length mp = p"
    and gen: "\<And>n w x m. shaped n c p x \<Longrightarrow>
                shaped n c p (fst (gen_fwd L w x m)) \<and> shaped n c p (fst (snd (gen_fwd L w x m)))"
    and dis: "\<And>w t. length (dis_fwd L w t) = length t"
    and ne: "0 < n_items D"
  shows "((\<exists>s'. train_gan L cfg D s = Inr s') \<longleftrightarrow> b dvd n_items D) \<and>
         (\<not> b dvd n_items D \<longrightarrow> train_gan L cfg D s = Inl ShapeMismatch)"
proof -
  have fails: "\<not> b dvd n_items D \<Longrightarrow> train_gan L cfg D s = Inl ShapeMismatch"
    using train_gan_fails [OF bs(1,2) _ bs(3) ord items masks gen dis] by blast
  have runs: "b dvd n_items D \<Longrightarrow> \<exists>s'. train_gan L cfg D s = Inr s'"
    using train_gan_run [OF bs(1,2) _ ord items masks gen [where n = b] dis ne] by blast
  show ?thesis
  proof (cases "b dvd n_items D")
    case True
    then show ?thesis using runs by auto
  next
    case False
    then show ?thesis using fails by auto
  qed
qed

theorem train_gan_succeeds_iff_witness:
  "\<not> 4 dvd n_items (demo_data 5) \<and>
   \<not> (\<exists>s'. train_gan demo_lib gan_hyperparameters (demo_data 5) demo_state = Inr s') \<and>
   train_gan demo_lib gan_hyperparameters (demo_data 5) demo_state = Inl ShapeMismatch"
proof -
  have bs: "batch_size gan_hyperparameters = 4" "0 < (4::nat)" "0 < num_epochs gan_hyperparameters"
    by (simp_all add: gan_hyperparameters_def)
  have ord: "\<forall>ep<num_epochs gan_hyperparameters. length (orders (demo_data 5) ep) = n_items (demo_data 5)"
    by (simp add: demo_data_def)
  have items: "\<forall>ep<num_epochs gan_hyperparameters. \<forall>i\<in>set (orders (demo_data 5) ep).
      item_ok 1 2 (fetch (demo_data 5) ep i)"
    by (rule demo_data_items)
  have masks: "\<And>k. \<exists>mp. select_mask (pick (draws (demo_data 5) k)) (regular (draws (demo_data 5) k))
      (irregular (draws (demo_data 5) k)) = [[mp]] \<and> length mp = 2"
    by (simp add: demo_data_def demo_draw_def select_mask_def)
  have gen: "\<And>n w x m. shaped n 1 2 x \<Longrightarrow>
      shaped n 1 2 (fst (gen_fwd demo_lib w x m)) \<and> shaped n 1 2 (fst (snd (gen_fwd demo_lib w x m)))"
    by (simp add: demo_lib_def)
  have dis: "\<And>w t. length (dis_fwd demo_lib w t) = length t"
    by (simp add: demo_lib_def)
  have ne: "0 < n_items (demo_data 5)" by (simp add: demo_data_def)
  have nd: "\<not> 4 dvd n_items (demo_data 5)" by (simp add: demo_data_def)
  then show ?thesis using train_gan_succeeds_iff [OF bs ord items masks gen dis ne] by blast
qed

lemma perm_facts:
  "mset xs = mset [0..<n] \<Longrightarrow> length xs = n \<and> set xs \<subseteq> {..<n}"
  using mset_eq_length [of xs "[0..<n]"] mset_eq_setD [of xs "[0..<n]"] by auto

text \<open>Claim C4: training on a preprocessed image folder, end to end: for
  rectangular images at least as large as the crop, a shuffling sampler that
  draws a permutation in every epoch, masks of one crop, and networks that keep
  the batch shape, \<open>train_gan\<close> returns exactly when \<open>batch_size\<close> divides the
  number of images, and raises a shape error otherwise.\<close>

theorem preprocessed_training_iff:
  assumes bs: "batch_size cfg = b" "0 < b" "0 < num_epochs cfg"
    and imgs: "\<forall>(img, _)\<in>set (samples ds). rect img \<and> image_size \<le> length img \<and> image_size \<le> img_width img"
    and perms: "\<forall>ep<num_epochs cfg. mset (perms ep) = mset [0..<length (samples ds)]"
    and masks: "\<And>k. \<exists>mp. select_mask (pick (masks k)) (regular (masks k)) (irregular (masks k)) = [[mp]] \<and>
                         length mp = image_size * image_size"
    and gen: "\<And>n w x m. shaped n 3 (image_size * image_size) x \<Longrightarrow>
                shaped n 3 (image_size * image_size) (fst (gen_fwd L w x m)) \<and>
                shaped n 3 (image_size * image_size) (fst (snd (gen_fwd L w x m)))"
    and dis: "\<And>w t. length (dis_fwd L w t) = length t"
    and ne: "0 < length (samples ds)"
  shows "((\<exists>s'. train_gan L cfg (loader_data (preprocess ds image_size) crops perms masks) s = Inr s') \<longleftrightarrow>
           b dvd length (samples ds)) \<and>
         (\<not> b dvd length (samples ds) \<longrightarrow>
           train_gan L cfg (loader_data (preprocess ds image_size) crops perms masks) s = Inl ShapeMismatch)"
proof -
  let ?D = "loader_data (preprocess ds image_size) crops perms masks"
  have n: "n_items ?D = length (samples ds)" by (simp add: loader_data_def preprocess_def)
  have ord: "\<forall>ep<num_epochs cfg. length (orders ?D ep) = n_items ?D"
    using perms perm_facts n by (simp add: loader_data_def)
  have items: "\<forall>ep<num_epochs cfg. \<forall>i\<in>set (orders ?D ep). item_ok 3 (image_size * image_size) (fetch ?D ep i)"
  proof (intro allI impI)
    fix ep assume "ep < num_epochs cfg"
    then have "set (perms ep) \<subseteq> {..<length (samples ds)}" using perms perm_facts by blast
    from loader_items [where perms = perms and ep = ep, OF imgs this, of crops masks]
    show "\<forall>i\<in>set (orders ?D ep). item_ok 3 (image_size * image_size) (fetch ?D ep i)"
      by (simp add: loader_data_def)
  qed
  have dm: "\<And>k. \<exists>mp. select_mask (pick (draws ?D k)) (regular (draws ?D k)) (irregular (draws ?D k)) = [[mp]] \<and>
      length mp = image_size * image_size"
    using masks by (simp add: loader_data_def)
  have fails: "\<not> b dvd length (samples ds) \<Longrightarrow> train_gan L cfg ?D s = Inl ShapeMismatch"
    using train_gan_fails [OF bs(1,2) _ bs(3) ord items dm gen dis] n by simp
  have runs: "b dvd length (samples ds) \<Longrightarrow> \<exists>s'. train_gan L cfg ?D s = Inr s'"
    using train_gan_run [OF bs(1,2) _ ord items dm gen [where n = b] dis] n ne by auto
  show ?thesis
  proof (cases "b dvd length (samples ds)")
    case True
    then show ?thesis using runs by auto
  next
    case False
    then show ?thesis using fails by auto
  qed
qed

theorem preprocessed_training_iff_witness:
  "\<exists>s'. train_gan demo_lib gan_hyperparameters
          (loader_data (preprocess demo_dataset 1) (\<lambda>ep i. (0, 0)) (\<lambda>ep. [0..<4]) (\<lambda>k. demo_draw1)) demo_state = Inr s'"
proof -
  have bs: "batch_size gan_hyperparameters = 4" "0 < (4::nat)" "0 < num_epochs gan_hyperparameters"
    by (simp_all add: gan_hyperparameters_def)
  have imgs: "\<forall>(img, _)\<in>set (samples demo_dataset). rect img \<and> 1 \<le> length img \<and> 1 \<le> img_width img"
    by (simp add: demo_dataset_def rect_def img_width_def)
  have l: "length (samples demo_dataset) = 4" by (simp add: demo_dataset_def)
  have perms: "\<forall>ep<num_epochs gan_hyperparameters. mset [0..<4] = mset [0..<length (samples demo_dataset)]"
    unfolding l by simp
  have masks: "\<And>k. \<exists>mp. select_mask (pick demo_draw1) (regular demo_draw1) (irregular demo_draw1) = [[mp]] \<and>
      length mp = 1 * 1"
    by (simp add: demo_draw1_def select_mask_def)
  have gen: "\<And>n w x m. shaped n 3 (1 * 1) x \<Longrightarrow>
      shaped n 3 (1 * 1) (fst (gen_fwd demo_lib w x m)) \<and> shaped n 3 (1 * 1) (fst (snd (gen_fwd demo_lib w x m)))"
    by (simp add: demo_lib_def)
  have dis: "\<And>w t. length (dis_fwd demo_lib w t) = length t"
    by (simp add: demo_lib_def)
  have ne: "0 < length (samples demo_dataset)" unfolding l by simp
  have "4 dvd length (samples demo_dataset)" unfolding l by simp
  then show ?thesis
    using preprocessed_training_iff [OF bs imgs perms masks gen dis ne, of "\<lambda>ep i. (0, 0)" demo_state] by blast
qed

text \<open>Claim C3: \<open>GAN(device)\<close> followed by \<open>train_gan\<close>, on a non-empty
  dataset whose size is a multiple of the batch size 4 (with networks that
  keep the batch shape): the object stores the device and float32 and builds
  both Adam optimizers with \<open>lr = 1e-4\<close> and \<open>betas = (0.5, 0.999)\<close>; training
  returns after \<open>10 * (size div 4)\<close> iterations with one logged loss of each
  kind per iteration, the optimizer steps alternating discriminator and
  generator on their own losses, epochs 1..10 printed with the global
  iteration numbers 1..iters, and the device and dtype unchanged.\<close>

theorem fresh_gan_trains:
  assumes init: "gan_init dev g0 d0 adamG adamD = (cfg, s0)"
    and n: "4 dvd n_items D" "0 < n_items D"
    and ord: "\<forall>ep<10. length (orders D ep) = n_items D"
    and items: "\<forall>ep<10. \<forall>i\<in>set (orders D ep). item_ok c p (fetch D ep i)"
    and masks: "\<And>k. \<exists>mp. select_mask (pick (draws D k)) (regular (draws D k)) (irregular (draws D k)) = [[mp]] \<and>
                         length mp = p"
    and gen: "\<And>w x m. shaped 4 c p x \<Longrightarrow>
                shaped 4 c p (fst (gen_fwd L w x m)) \<and> shaped 4 c p (fst (snd (gen_fwd L w x m)))"
    and dis: "\<And>w t. length (dis_fwd L w t) = length t"
  shows "optimizerG s0 = adamG (1 / 10000) (1 / 2, 999 / 1000) \<and>
         optimizerD s0 = adamD (1 / 10000) (1 / 2, 999 / 1000) \<and>
         (\<exists>s'. train_gan L cfg D s0 = Inr s' \<and> iters s' = 10 * (n_items D div 4) \<and>
            length (G_losses s') = iters s' \<and> length (D_losses s') = iters s' \<and>
            opt_steps (trace s') = concat (map (\<lambda>k. [(Dis, [(DLoss, k)]), (Gen, [(GLoss, k)])]) [0..<iters s']) \<and>
            map snd (printed (trace s')) = [1..<Suc (iters s')] \<and>
            map fst (printed (trace s')) = concat (map (\<lambda>ep. replicate (n_items D div 4) (Suc ep)) [0..<10]) \<and>
            device s' = dev \<and> dtype s' = Float32)"
proof -
  have cfg: "cfg = gan_hyperparameters" and s0: "device s0 = dev" "dtype s0 = Float32" "trace s0 = []"
    "optimizerG s0 = adamG (1 / 10000) (1 / 2, 999 / 1000)" "optimizerD s0 = adamD (1 / 10000) (1 / 2, 999 / 1000)"
    using init by (auto simp: gan_init_def gan_hyperparameters_def)
  have bs: "batch_size cfg = 4" "0 < (4::nat)" and ne: "num_epochs cfg = 10"
    by (simp_all add: cfg gan_hyperparameters_def)
  have ord': "\<forall>ep<num_epochs cfg. length (orders D ep) = n_items D" using ord ne by simp
  have items': "\<forall>ep<num_epochs cfg. \<forall>i\<in>set (orders D ep). item_ok c p (fetch D ep i)" using items ne by simp
  obtain s' where run: "train_gan L cfg D s0 = Inr s'" "iters s' = num_epochs cfg * (n_items D div 4)"
     "length (G_losses s') = iters s'" "length (D_losses s') = iters s'"
     "opt_steps (trace s') = opt_steps (trace s0) @
       concat (map (\<lambda>k. [(Dis, [(DLoss, k)]), (Gen, [(GLoss, k)])]) [0..<iters s'])"
     "map snd (printed (trace s')) = map snd (printed (trace s0)) @ [1..<Suc (iters s')]"
     "map fst (printed (trace s')) = map fst (printed (trace s0)) @
       concat (map (\<lambda>ep. replicate (n_items D div 4) (Suc ep)) [0..<num_epochs cfg])"
    using train_gan_run [OF bs n(1) ord' items' masks gen dis n(2)] by blast
  have dev: "device s' = dev \<and> dtype s' = Float32" using train_gan_device [OF run(1)] s0(1,2) by simp
  show ?thesis using run dev s0(3-5) unfolding ne by simp
qed

theorem fresh_gan_trains_witness:
  "optimizerG (snd (gan_init ''cpu'' () () (\<lambda>_ _. ()) (\<lambda>_ _. ()))) = () \<and>
   (\<exists>s'. train_gan demo_lib (fst (gan_init ''cpu'' () () (\<lambda>_ _. ()) (\<lambda>_ _. ()))) (demo_data 4)
            (snd (gan_init ''cpu'' () () (\<lambda>_ _. ()) (\<lambda>_ _. ()))) = Inr s' \<and>
          iters s' = 10 \<and> map snd (printed (trace s')) = [1..<11] \<and> device s' = ''cpu'')"
proof -
  have init: "gan_init ''cpu'' () () (\<lambda>_ _. ()) (\<lambda>_ _. ()) =
      (fst (gan_init ''cpu'' () () (\<lambda>_ _. ()) (\<lambda>_ _. ())), snd (gan_init ''cpu'' () () (\<lambda>_ _. ()) (\<lambda>_ _. ())))"
    by simp
  have n: "4 dvd n_items (demo_data 4)" "0 < n_items (demo_data 4)" by (simp_all add: demo_data_def)
  have ord: "\<forall>ep<10. length (orders (demo_data 4) ep) = n_items (demo_data 4)"
    by (simp add: demo_data_def)
  have items: "\<forall>ep<10. \<forall>i\<in>set (orders (demo_data 4) ep). item_ok 1 2 (fetch (demo_data 4) ep i)"
    by (simp add: demo_data_def item_ok_def item_shaped_def)
  have masks: "\<And>k. \<exists>mp. select_mask (pick (draws (demo_data 4) k)) (regular (draws (demo_data 4) k))
      (irregular (draws (demo_data 4) k)) = [[mp]] \<and> length mp = 2"
    by (simp add: demo_data_def demo_draw_def select_mask_def)
  have gen: "\<And>w x m. shaped 4 1 2 x \<Longrightarrow>
      shaped 4 1 2 (fst (gen_fwd demo_lib w x m)) \<and> shaped 4 1 2 (fst (snd (gen_fwd demo_lib w x m)))"
    by (simp add: demo_lib_def)
  have dis: "\<And>w t. length (dis_fwd demo_lib w t) = length t"
    by (simp add: demo_lib_def)
  have q: "n_items (demo_data 4) div 4 = 1" by (simp add: demo_data_def)
  from fresh_gan_trains [OF init n ord items masks gen dis] obtain s' where
    r: "optimizerG (snd (gan_init ''cpu'' () () (\<lambda>_ _. ()) (\<lambda>_ _. ()))) = ()"
       "train_gan demo_lib (fst (gan_init ''cpu'' () () (\<lambda>_ _. ()) (\<lambda>_ _. ()))) (demo_data 4)
          (snd (gan_init ''cpu'' () () (\<lambda>_ _. ()) (\<lambda>_ _. ()))) = Inr s'"
       "iters s' = 10 * (n_items (demo_data 4) div 4)" "map snd (printed (trace s')) = [1..<Suc (iters s')]"
       "device s' = ''cpu''"
    by blast
  have "iters s' = 10" using r(3) q by simp
  then show ?thesis using r by simp
qed

end
